(* ===== verification/Prelude.thy ===== *)
theory Prelude
  imports Main "HOL-Library.Word" "HOL-Library.Multiset"
begin

text \<open>
  The shared prelude of the consul-dataplane development: how Go values, errors and
  panics are represented, the parts of Go's \<open>strings\<close> and \<open>strconv\<close> packages the
  program calls, generic transition systems (reachable states, runs) with the
  contracts the component state machines discharge by interpretation, and the
  generic lemmas on lists and multisets the components share.

  Go strings are byte sequences; HOL's \<^typ>\<open>string\<close> is a list of bytes too.
  A Go \<open>(T, error)\<close> pair is \<open>'a result\<close>; where the code can also panic
  or exit the process the type is \<open>'a outcome\<close>.
\<close>

section \<open>Errors, panics, pointers\<close>

text \<open>
  An error is a message (\<open>errors.New\<close>, \<open>fmt.Errorf\<close> without \<open>%w\<close>) or a wrapped
  error (\<open>fmt.Errorf\<close> with \<open>%w\<close>).
\<close>

datatype go_error = Err string | Wrap string go_error

type_synonym 'a result = "go_error + 'a"

text \<open>
  A call that may also panic (nil dereference, index out of range, double close of
  a channel) or end the process (\<open>log.Fatal\<close>).
\<close>

datatype 'a outcome = Ok 'a | Error go_error | Panic string | Fatal string

fun bind_outcome :: "'a outcome \<Rightarrow> ('a \<Rightarrow> 'b outcome) \<Rightarrow> 'b outcome" where
  "bind_outcome (Ok a) f = f a"
| "bind_outcome (Error e) f = Error e"
| "bind_outcome (Panic m) f = Panic m"
| "bind_outcome (Fatal m) f = Fatal m"

fun of_result :: "'a result \<Rightarrow> 'a outcome" where
  "of_result (Inl e) = Error e"
| "of_result (Inr a) = Ok a"

text \<open>Dereferencing a pointer that may be nil.\<close>

fun deref :: "'a option \<Rightarrow> 'a outcome" where
  "deref None = Panic ''nil pointer dereference''"
| "deref (Some a) = Ok a"

named_theorems go_simps \<open>equations that evaluate the Go fragments of the model\<close>

lemma bind_outcome_Ok_iff [go_simps]:
  "bind_outcome m f = Ok b \<longleftrightarrow> (\<exists>a. m = Ok a \<and> f a = Ok b)"
  by (cases m) auto

lemma of_result_Ok_iff [go_simps]: "of_result r = Ok a \<longleftrightarrow> r = Inr a"
  by (cases r) auto

lemma deref_Ok_iff [go_simps]: "deref p = Ok a \<longleftrightarrow> p = Some a"
  by (cases p) auto

section \<open>Transition systems\<close>

text \<open>
  Component state machines are labelled step relations; these are their reachable
  states and finite runs.
\<close>

inductive reach :: "('s \<Rightarrow> bool) \<Rightarrow> ('s \<Rightarrow> 'a \<Rightarrow> 's \<Rightarrow> bool) \<Rightarrow> 's \<Rightarrow> bool"
  for start :: "'s \<Rightarrow> bool" and step :: "'s \<Rightarrow> 'a \<Rightarrow> 's \<Rightarrow> bool" where
  reach_start: "start s \<Longrightarrow> reach start step s"
| reach_step: "reach start step s \<Longrightarrow> step s a t \<Longrightarrow> reach start step t"

inductive steps :: "('s \<Rightarrow> 'a \<Rightarrow> 's \<Rightarrow> bool) \<Rightarrow> 's \<Rightarrow> 'a list \<Rightarrow> 's \<Rightarrow> bool"
  for step :: "'s \<Rightarrow> 'a \<Rightarrow> 's \<Rightarrow> bool" where
  steps_Nil: "steps step s [] s"
| steps_Cons: "step s a t \<Longrightarrow> steps step t as u \<Longrightarrow> steps step s (a # as) u"

inductive_simps steps_Nil_iff [simp]: "steps step s [] t"
inductive_simps steps_Cons_iff: "steps step s (a # as) t"

lemma steps_reach: "steps step s as t \<Longrightarrow> reach start step s \<Longrightarrow> reach start step t"
  by (induction rule: steps.induct) (auto intro: reach_step)

lemma steps_append_iff:
  "steps step s (as @ bs) u \<longleftrightarrow> (\<exists>t. steps step s as t \<and> steps step t bs u)"
  by (induction as arbitrary: s) (auto simp: steps_Cons_iff)

text \<open>The contract of an inductive invariant, and what a client gets from it.\<close>

locale invariant_system =
  fixes start :: "'s \<Rightarrow> bool" and step :: "'s \<Rightarrow> 'a \<Rightarrow> 's \<Rightarrow> bool" and inv :: "'s \<Rightarrow> bool"
  assumes inv_start: "start s \<Longrightarrow> inv s"
    and inv_step: "inv s \<Longrightarrow> step s a t \<Longrightarrow> inv t"
begin

lemma reach_inv: "reach start step s \<Longrightarrow> inv s"
  by (induction rule: reach.induct) (auto intro: inv_start inv_step)

lemma steps_inv: "steps step s as t \<Longrightarrow> inv s \<Longrightarrow> inv t"
  by (induction rule: steps.induct) (auto intro: inv_step)

end

text \<open>
  The contract of a refinement: the steps from states with the invariant do what the abstract system can do, possibly nothing;
  \<open>seen\<close> says which abstract events a step may show. A run then shows a run of the abstract system.
\<close>

locale simulation = invariant_system start step inv
  for start :: "'s \<Rightarrow> bool" and step :: "'s \<Rightarrow> 'a \<Rightarrow> 's \<Rightarrow> bool" and inv :: "'s \<Rightarrow> bool" +
  fixes astart :: "'t \<Rightarrow> bool" and astep :: "'t \<Rightarrow> 'b \<Rightarrow> 't \<Rightarrow> bool" and abst :: "'s \<Rightarrow> 't" and seen :: "'a \<Rightarrow> 'b list \<Rightarrow> bool"
  assumes abst_start: "start s \<Longrightarrow> astart (abst s)"
    and abst_step: "inv s \<Longrightarrow> step s a t \<Longrightarrow> \<exists>bs. seen a bs \<and> steps astep (abst s) bs (abst t)"
begin

lemma run_simulated:
  "steps step s as t \<Longrightarrow> inv s \<Longrightarrow> \<exists>bss. list_all2 seen as bss \<and> steps astep (abst s) (concat bss) (abst t)"
proof (induction rule: steps.induct)
  case (steps_Nil s)
  then show ?case by (intro exI [of _ "[]"]) simp
next
  case (steps_Cons s a t as u)
  obtain bs where "seen a bs" "steps astep (abst s) bs (abst t)" using abst_step [OF steps_Cons.prems steps_Cons.hyps(1)] by blast
  moreover obtain bss where "list_all2 seen as bss" "steps astep (abst t) (concat bss) (abst u)"
    using steps_Cons.IH inv_step [OF steps_Cons.prems steps_Cons.hyps(1)] by blast
  ultimately show ?case by (intro exI [of _ "bs # bss"]) (auto simp: steps_append_iff)
qed

lemma reach_simulated: "reach start step s \<Longrightarrow> reach astart astep (abst s)"
proof (induction rule: reach.induct)
  case (reach_start s)
  then show ?case by (intro reach.reach_start abst_start)
next
  case (reach_step s a t)
  then show ?case using abst_step [OF reach_inv [OF reach_step.hyps(1)] reach_step.hyps(2)] steps_reach by metis
qed

end

text \<open>The contract of a quantity no step decreases.\<close>

locale monotone_system =
  fixes step :: "'s \<Rightarrow> 'a \<Rightarrow> 's \<Rightarrow> bool" and rank :: "'s \<Rightarrow> nat"
  assumes rank_step: "step s a t \<Longrightarrow> rank s \<le> rank t"
begin

lemma steps_rank: "steps step s as t \<Longrightarrow> rank s \<le> rank t"
  by (induction rule: steps.induct) (auto dest: rank_step)

end

section \<open>Strings and numbers of the Go library\<close>

text \<open>\<open>strings.HasPrefix\<close>, \<open>strings.HasSuffix\<close>, \<open>strings.Contains\<close>, \<open>strings.Join\<close>.\<close>

definition HasPrefix :: "string \<Rightarrow> string \<Rightarrow> bool" where
  "HasPrefix s p \<longleftrightarrow> take (length p) s = p"

definition HasSuffix :: "string \<Rightarrow> string \<Rightarrow> bool" where
  "HasSuffix s p \<longleftrightarrow> length p \<le> length s \<and> drop (length s - length p) s = p"

fun Contains :: "string \<Rightarrow> string \<Rightarrow> bool" where
  "Contains [] p \<longleftrightarrow> p = []"
| "Contains (c # s) p \<longleftrightarrow> HasPrefix (c # s) p \<or> Contains s p"

fun Join :: "string list \<Rightarrow> string \<Rightarrow> string" where
  "Join [] sep = []"
| "Join [x] sep = x"
| "Join (x # y # ys) sep = x @ sep @ Join (y # ys) sep"

text \<open>The index of the first occurrence: \<open>strings.Index\<close> of a one-byte separator, and loops that look for an element.\<close>

fun index_of :: "'a list \<Rightarrow> 'a \<Rightarrow> nat option" where
  "index_of [] c = None"
| "index_of (x # xs) c = (if x = c then Some 0 else map_option Suc (index_of xs c))"

text \<open>\<open>strings.ToUpper\<close> and \<open>strings.ToLower\<close> on ASCII bytes.\<close>

definition upper_char :: "char \<Rightarrow> char" where
  "upper_char c =
     (if 97 \<le> (of_char c :: nat) \<and> (of_char c :: nat) \<le> 122
      then char_of ((of_char c :: nat) - 32) else c)"

definition lower_char :: "char \<Rightarrow> char" where
  "lower_char c =
     (if 65 \<le> (of_char c :: nat) \<and> (of_char c :: nat) \<le> 90
      then char_of ((of_char c :: nat) + 32) else c)"

definition ToUpper :: "string \<Rightarrow> string" where
  "ToUpper = map upper_char"

definition ToLower :: "string \<Rightarrow> string" where
  "ToLower = map lower_char"

text \<open>\<open>strconv.Itoa\<close>.\<close>

fun nat_digits :: "nat \<Rightarrow> string" where
  "nat_digits n =
     (if n < 10 then [char_of (48 + n)] else nat_digits (n div 10) @ [char_of (48 + n mod 10)])"

declare nat_digits.simps [simp del]

lemma digit_chars:
  "char_of (48::nat) = CHR ''0''" "char_of (49::nat) = CHR ''1''" "char_of (50::nat) = CHR ''2''" "char_of (51::nat) = CHR ''3''"
  "char_of (52::nat) = CHR ''4''" "char_of (53::nat) = CHR ''5''" "char_of (54::nat) = CHR ''6''" "char_of (55::nat) = CHR ''7''"
  "char_of (56::nat) = CHR ''8''" "char_of (57::nat) = CHR ''9''"
  by code_simp+

definition Itoa :: "int \<Rightarrow> string" where
  "Itoa i = (if i < 0 then ''-'' @ nat_digits (nat (- i)) else nat_digits (nat i))"

text \<open>\<open>strconv.Atoi\<close> on a 64-bit platform: an optional sign, at least one digit, in range.\<close>

definition is_digit :: "char \<Rightarrow> bool" where
  "is_digit c \<longleftrightarrow> 48 \<le> (of_char c :: nat) \<and> (of_char c :: nat) \<le> 57"

definition digits_val :: "string \<Rightarrow> nat" where
  "digits_val s = foldl (\<lambda>n c. 10 * n + ((of_char c :: nat) - 48)) 0 s"

definition Atoi :: "string \<Rightarrow> int result" where
  "Atoi s =
     (let neg = (s \<noteq> [] \<and> hd s = CHR ''-'');
          ds = (if s \<noteq> [] \<and> hd s \<in> {CHR ''-'', CHR ''+''} then tl s else s);
          v = (if neg then - int (digits_val ds) else int (digits_val ds))
      in if ds = [] \<or> \<not> list_all is_digit ds then Inl (Err ''invalid syntax'')
         else if v < - (2 ^ 63) \<or> 2 ^ 63 \<le> v then Inl (Err ''value out of range'')
         else Inr v)"

text \<open>\<open>strconv.ParseBool\<close>.\<close>

definition ParseBool :: "string \<Rightarrow> bool result" where
  "ParseBool s =
     (if s \<in> set [''1'', ''t'', ''T'', ''true'', ''TRUE'', ''True''] then Inr True
      else if s \<in> set [''0'', ''f'', ''F'', ''false'', ''FALSE'', ''False''] then Inr False
      else Inl (Err ''invalid syntax''))"

lemma HasPrefix_append [simp]: "HasPrefix (p @ s) p"
  by (simp add: HasPrefix_def)

lemma HasPrefix_iff: "HasPrefix s p \<longleftrightarrow> (\<exists>r. s = p @ r)"
  by (metis HasPrefix_def HasPrefix_append append_take_drop_id)

lemma HasSuffix_iff: "HasSuffix s p \<longleftrightarrow> (\<exists>r. s = r @ p)"
  by (metis HasSuffix_def append_take_drop_id length_append le_add2 add_diff_cancel_right' append_eq_conv_conj)

lemma Contains_iff: "Contains s p \<longleftrightarrow> (\<exists>a b. s = a @ p @ b)"
proof (induction s)
  case Nil
  then show ?case by auto
next
  case (Cons c s)
  have "(\<exists>a b. c # s = a @ p @ b) \<longleftrightarrow> (\<exists>b. c # s = p @ b) \<or> (\<exists>a b. s = a @ p @ b)"
    by (metis append_Cons append_Nil neq_Nil_conv list.inject)
  with Cons show ?case by (auto simp: HasPrefix_iff)
qed

lemma index_of_None_iff [simp]: "index_of s c = None \<longleftrightarrow> c \<notin> set s"
  by (induction s) auto

lemma index_of_Some_iff:
  "index_of s c = Some i \<longleftrightarrow> (\<exists>a b. s = a @ c # b \<and> c \<notin> set a \<and> length a = i)"
proof (induction s arbitrary: i)
  case Nil
  then show ?case by simp
next
  case (Cons x s)
  show ?case
  proof (cases "x = c")
    case True
    have "(\<exists>a b. x # s = a @ c # b \<and> c \<notin> set a \<and> length a = i) \<longleftrightarrow> i = 0"
      using True by (auto simp: Cons_eq_append_conv)
    with True show ?thesis by auto
  next
    case False
    show ?thesis
    proof
      assume "index_of (x # s) c = Some i"
      with False obtain a b where "s = a @ c # b" "c \<notin> set a" "i = Suc (length a)"
        by (auto simp: Cons.IH)
      with False show "\<exists>a b. x # s = a @ c # b \<and> c \<notin> set a \<and> length a = i"
        by (intro exI [of _ "x # a"] exI [of _ b]) auto
    next
      assume "\<exists>a b. x # s = a @ c # b \<and> c \<notin> set a \<and> length a = i"
      with False show "index_of (x # s) c = Some i"
        by (auto simp: Cons_eq_append_conv Cons.IH intro!: exI)
    qed
  qed
qed

lemma of_char_digit [simp]: "n < 10 \<Longrightarrow> (of_char (char_of (48 + n) :: char) :: nat) = 48 + n"
  by (simp add: of_char_of)

lemma nat_digits_props:
  "nat_digits n \<noteq> [] \<and> list_all is_digit (nat_digits n) \<and> digits_val (nat_digits n) = n"
proof (induction n rule: nat_digits.induct)
  case (1 n)
  show ?case
  proof (cases "n < 10")
    case True
    then show ?thesis
      by (simp add: nat_digits.simps [of n] is_digit_def digits_val_def del: of_char_of)
  next
    case False
    with 1 show ?thesis
      by (simp add: nat_digits.simps [of n] is_digit_def digits_val_def del: of_char_of)
  qed
qed

lemma digits_not_sign: "is_digit c \<Longrightarrow> c \<noteq> CHR ''-'' \<and> c \<noteq> CHR ''+''"
  by (auto simp: is_digit_def)

text \<open>\<open>Atoi\<close> inverts \<open>Itoa\<close> on every value of a 64-bit int.\<close>

lemma Atoi_Itoa:
  assumes "- (2 ^ 63) \<le> i" "i < 2 ^ 63"
  shows "Atoi (Itoa i) = Inr i"
proof (cases "i < 0")
  case True
  then show ?thesis
    using assms nat_digits_props [of "nat (- i)"] by (simp add: Atoi_def Itoa_def Let_def)
next
  case False
  obtain c cs where d: "nat_digits (nat i) = c # cs"
    using nat_digits_props [of "nat i"] by (cases "nat_digits (nat i)") auto
  then have "c \<noteq> CHR ''-''" "c \<noteq> CHR ''+''"
    using nat_digits_props [of "nat i"] digits_not_sign by fastforce+
  with False d show ?thesis
    using assms nat_digits_props [of "nat i"] by (simp add: Atoi_def Itoa_def Let_def)
qed

end
