(* ===== verification/Go_Net.thy ===== *)
theory Go_Net
  imports Prelude
begin

text \<open>
  The parts of Go's \<open>net\<close> package that the program uses on addresses:
  \<open>JoinHostPort\<close>, \<open>SplitHostPort\<close>, \<open>ParseIP\<close> and \<open>IP.IsLoopback\<close>, translated
  from their documented algorithms, with the contract of the host/port encoding.
\<close>

section \<open>Host and port\<close>

definition JoinHostPort :: "string \<Rightarrow> string \<Rightarrow> string" where
  "JoinHostPort host port =
     (if CHR '':'' \<in> set host then ''['' @ host @ '']:'' @ port else host @ '':'' @ port)"

text \<open>The index of the last colon.\<close>

definition last_colon :: "string \<Rightarrow> nat option" where
  "last_colon s = map_option (\<lambda>i. length s - 1 - i) (index_of (rev s) CHR '':'')"

text \<open>
  A bracketed host must end right before the last colon; an unbracketed one holds no
  colon. \<open>j\<close> and \<open>k\<close> are the positions from which no further bracket may occur.
\<close>

definition SplitHostPort :: "string \<Rightarrow> (string \<times> string) result" where
  "SplitHostPort s =
     (case last_colon s of
        None \<Rightarrow> Inl (Err ''missing port in address'')
      | Some i \<Rightarrow>
          (let tail = (\<lambda>host j k.
             if CHR ''['' \<in> set (drop j s) then Inl (Err (''unexpected '' @ [CHR 0x27, CHR ''['', CHR 0x27] @ '' in address''))
             else if CHR '']'' \<in> set (drop k s) then Inl (Err (''unexpected '' @ [CHR 0x27, CHR '']'', CHR 0x27] @ '' in address''))
             else Inr (host, drop (Suc i) s))
           in if s ! 0 = CHR ''['' then
                (case index_of s CHR '']'' of
                   None \<Rightarrow> Inl (Err (''missing '' @ [CHR 0x27, CHR '']'', CHR 0x27] @ '' in address''))
                 | Some e \<Rightarrow>
                     if Suc e = length s then Inl (Err ''missing port in address'')
                     else if Suc e = i then tail (take (e - 1) (drop 1 s)) 1 (Suc e)
                     else if s ! Suc e = CHR '':'' then Inl (Err ''too many colons in address'')
                     else Inl (Err ''missing port in address''))
              else if CHR '':'' \<in> set (take i s) then Inl (Err ''too many colons in address'')
              else tail (take i s) 0 0))"

section \<open>IP addresses\<close>

text \<open>An address is its 16 bytes, as in Go; an IPv4 address is kept in its mapped form.\<close>

definition v4_in_v6 :: "nat list \<Rightarrow> nat list" where
  "v4_in_v6 b = replicate 10 0 @ [255, 255] @ b"

text \<open>Split at every occurrence of a byte.\<close>

fun split_on :: "char \<Rightarrow> string \<Rightarrow> string list" where
  "split_on c [] = [[]]"
| "split_on c (x # xs) =
     (if x = c then [] # split_on c xs
      else (case split_on c xs of [] \<Rightarrow> [[x]] | y # ys \<Rightarrow> (x # y) # ys))"

text \<open>One decimal field of an IPv4 address: no empty field, no leading zero, at most 255.\<close>

definition octet :: "string \<Rightarrow> nat option" where
  "octet f =
     (if f \<noteq> [] \<and> list_all is_digit f \<and> (length f > 1 \<longrightarrow> hd f \<noteq> CHR ''0'') \<and> digits_val f \<le> 255
      then Some (digits_val f) else None)"

fun octets :: "string list \<Rightarrow> nat list option" where
  "octets [] = Some []"
| "octets (f # fs) =
     (case octet f of None \<Rightarrow> None | Some n \<Rightarrow> map_option (Cons n) (octets fs))"

definition parse_ipv4 :: "string \<Rightarrow> nat list option" where
  "parse_ipv4 s = (let fs = split_on CHR ''.'' s in if length fs = 4 then octets fs else None)"

definition hex_val :: "char \<Rightarrow> nat option" where
  "hex_val c =
     (let n = (of_char c :: nat) in
      if 48 \<le> n \<and> n \<le> 57 then Some (n - 48)
      else if 97 \<le> n \<and> n \<le> 102 then Some (n - 87)
      else if 65 \<le> n \<and> n \<le> 70 then Some (n - 55)
      else None)"

definition hex_prefix :: "string \<Rightarrow> string" where
  "hex_prefix s = takeWhile (\<lambda>c. hex_val c \<noteq> None) s"

definition hex_group :: "string \<Rightarrow> nat" where
  "hex_group ds = foldl (\<lambda>a c. 16 * a + (case hex_val c of Some v \<Rightarrow> v | None \<Rightarrow> 0)) 0 ds"

text \<open>
  The loop over the colon-separated groups: the bytes so far, the position of an
  ellipsis, the rest of the string. The fuel is the number of groups an address can
  have; every iteration but the last adds two bytes.
\<close>

fun ipv6_groups :: "nat \<Rightarrow> nat list \<Rightarrow> nat option \<Rightarrow> string \<Rightarrow> (nat list \<times> nat option \<times> string) option" where
  "ipv6_groups 0 ip ell s = Some (ip, ell, s)"
| "ipv6_groups (Suc n) ip ell s =
     (let ds = hex_prefix s; rest = drop (length ds) s; ip' = ip @ [hex_group ds div 256, hex_group ds mod 256]
      in if ds = [] \<or> length ds > 4 then None
         else case rest of
           [] \<Rightarrow> Some (ip', ell, [])
         | c # cs \<Rightarrow>
             if c = CHR ''.'' then
               (if ell = None \<and> length ip \<noteq> 12 \<or> length ip > 12 then None
                else map_option (\<lambda>b. (ip @ b, ell, [])) (parse_ipv4 s))
             else if c \<noteq> CHR '':'' \<or> cs = [] then None
             else if hd cs = CHR '':'' then
               (if ell \<noteq> None then None
                else if tl cs = [] then Some (ip', Some (length ip'), [])
                else ipv6_groups n ip' (Some (length ip')) (tl cs))
             else ipv6_groups n ip' ell cs)"

definition parse_ipv6 :: "string \<Rightarrow> nat list option" where
  "parse_ipv6 s0 =
     (let lead = HasPrefix s0 ''::''; s = (if lead then drop 2 s0 else s0)
      in if lead \<and> s = [] then Some (replicate 16 0)
         else case ipv6_groups 8 [] (if lead then Some 0 else None) s of
           None \<Rightarrow> None
         | Some (ip, ell, rest) \<Rightarrow>
             if rest \<noteq> [] then None
             else if length ip < 16 then
               (case ell of
                  None \<Rightarrow> None
                | Some e \<Rightarrow> Some (take e ip @ replicate (16 - length ip) 0 @ drop e ip))
             else if ell \<noteq> None then None else Some ip)"

text \<open>
  \<open>net.ParseIP\<close>: the first of \<open>.\<close>, \<open>:\<close> and \<open>%\<close> decides which parser runs;
  an address with a zone is not accepted. \<open>None\<close> is Go's nil IP.
\<close>

definition ParseIP :: "string \<Rightarrow> nat list option" where
  "ParseIP s =
     (case dropWhile (\<lambda>c. c \<noteq> CHR ''.'' \<and> c \<noteq> CHR '':'' \<and> c \<noteq> CHR ''%'') s of
        [] \<Rightarrow> None
      | c # _ \<Rightarrow>
          if c = CHR ''.'' then map_option v4_in_v6 (parse_ipv4 s)
          else if c = CHR '':'' \<and> CHR ''%'' \<notin> set s then parse_ipv6 s
          else None)"

text \<open>\<open>IP.IsLoopback\<close>, on a possibly nil IP: \<open>127.0.0.0/8\<close>, also when mapped, and \<open>::1\<close>.\<close>

definition IsLoopback :: "nat list option \<Rightarrow> bool" where
  "IsLoopback p =
     (case p of
        None \<Rightarrow> False
      | Some ip \<Rightarrow> (take 12 ip = replicate 10 0 @ [255, 255] \<and> ip ! 12 = 127) \<or> ip = replicate 15 0 @ [1])"

section \<open>The host/port contract\<close>

text \<open>
  What the program relies on when it writes an address with one function and reads it
  with the other.
\<close>

locale host_port_codec =
  fixes join :: "string \<Rightarrow> string \<Rightarrow> string" and split :: "string \<Rightarrow> (string \<times> string) result"
    and good_host good_port :: "string \<Rightarrow> bool"
  assumes split_join: "good_host h \<Longrightarrow> good_port p \<Longrightarrow> split (join h p) = Inr (h, p)"
begin

lemma join_inj:
  assumes "good_host h" "good_port p" "good_host h'" "good_port p'" "join h p = join h' p'"
  shows "h = h' \<and> p = p'"
  using assms split_join by (metis Inr_inject prod.inject)

end

definition plain_host :: "string \<Rightarrow> bool" where
  "plain_host h \<longleftrightarrow> CHR ''['' \<notin> set h \<and> CHR '']'' \<notin> set h"

definition plain_port :: "string \<Rightarrow> bool" where
  "plain_port p \<longleftrightarrow> CHR '':'' \<notin> set p \<and> CHR ''['' \<notin> set p \<and> CHR '']'' \<notin> set p"

lemma last_colon_append: "CHR '':'' \<notin> set p \<Longrightarrow> last_colon (h @ CHR '':'' # p) = Some (length h)"
proof -
  assume p: "CHR '':'' \<notin> set p"
  have "index_of (rev p @ CHR '':'' # rev h) CHR '':'' = Some (length p)"
    unfolding index_of_Some_iff using p by (intro exI [of _ "rev p"] exI [of _ "rev h"]) simp
  then show ?thesis by (simp add: last_colon_def)
qed

lemma split_join_host_port:
  assumes "plain_host h" "plain_port p"
  shows "SplitHostPort (JoinHostPort h p) = Inr (h, p)"
proof (cases "CHR '':'' \<in> set h")
  case True
  define s where "s = CHR ''['' # h @ CHR '']'' # CHR '':'' # p"
  have eq: "JoinHostPort h p = s"
    using True by (simp add: JoinHostPort_def s_def)
  have lc: "last_colon s = Some (Suc (Suc (length h)))"
    using last_colon_append [of p "CHR ''['' # h @ [CHR '']'']"] assms by (simp add: plain_port_def s_def)
  have rb: "index_of s CHR '']'' = Some (Suc (length h))"
    using assms unfolding index_of_Some_iff plain_host_def s_def
    by (intro exI [of _ "CHR ''['' # h"] exI [of _ "CHR '':'' # p"]) auto
  have "s ! 0 = CHR ''[''" "length s = length h + length p + 3" "drop (Suc (Suc (Suc (length h)))) s = p"
    "take (length h) (drop 1 s) = h" "drop (Suc (Suc (length h))) s = CHR '':'' # p"
    "drop 1 s = h @ CHR '']'' # CHR '':'' # p"
    by (simp_all add: s_def)
  then show ?thesis
    using assms by (simp add: eq SplitHostPort_def lc rb plain_host_def plain_port_def)
next
  case False
  have eq: "JoinHostPort h p = h @ CHR '':'' # p"
    using False by (simp add: JoinHostPort_def)
  have "(h @ CHR '':'' # p) ! 0 \<noteq> CHR ''[''"
    using assms by (cases h) (auto simp: plain_host_def)
  then show ?thesis
    using assms False last_colon_append [of p h]
    by (simp add: eq SplitHostPort_def plain_host_def plain_port_def)
qed

interpretation host_port: host_port_codec JoinHostPort SplitHostPort plain_host plain_port
  by unfold_locales (rule split_join_host_port)

lemma Itoa_plain_port: "plain_port (Itoa i)"
proof -
  have "c \<noteq> CHR '':'' \<and> c \<noteq> CHR ''['' \<and> c \<noteq> CHR '']''" if "c \<in> set (Itoa i)" for c
  proof -
    have "is_digit c \<or> c = CHR ''-''"
      using that nat_digits_props by (auto simp: Itoa_def list_all_iff split: if_splits)
    then show ?thesis by (auto simp: is_digit_def)
  qed
  then show ?thesis by (auto simp: plain_port_def)
qed

section \<open>Loopback addresses\<close>

lemma split_on_ne [simp]: "split_on c s \<noteq> []"
  by (induction s) (auto split: list.split)

lemma split_on_join: "c \<notin> set a \<Longrightarrow> split_on c (a @ c # b) = a # split_on c b"
  by (induction a) (auto split: list.split)

lemma split_on_last: "c \<notin> set a \<Longrightarrow> split_on c a = [a]"
  by (induction a) auto

definition dotted :: "nat \<Rightarrow> nat \<Rightarrow> nat \<Rightarrow> nat \<Rightarrow> string" where
  "dotted a b c d = nat_digits a @ ''.'' @ nat_digits b @ ''.'' @ nat_digits c @ ''.'' @ nat_digits d"

lemma nat_digits_head: "n \<noteq> 0 \<Longrightarrow> hd (nat_digits n) \<noteq> CHR ''0''"
proof (induction n rule: nat_digits.induct)
  case (1 n)
  show ?case
  proof (cases "n < 10")
    case True
    have "(of_char (char_of (48 + n) :: char) :: nat) \<noteq> of_char CHR ''0''"
      using 1 True by (simp del: of_char_of)
    then have "char_of (48 + n) \<noteq> CHR ''0''" by metis
    with True show ?thesis by (simp add: nat_digits.simps [of n])
  next
    case False
    with 1 show ?thesis
      using nat_digits_props [of "n div 10"] by (simp add: nat_digits.simps [of n])
  qed
qed

lemma octet_digits: "n \<le> 255 \<Longrightarrow> octet (nat_digits n) = Some n"
  using nat_digits_props [of n] nat_digits_head [of n]
  by (cases "n = 0") (auto simp: octet_def nat_digits.simps [of 0])

lemma dot_not_digits: "CHR ''.'' \<notin> set (nat_digits n)"
  using nat_digits_props [of n] by (auto simp: list_all_iff is_digit_def)

lemma parse_dotted:
  "a \<le> 255 \<Longrightarrow> b \<le> 255 \<Longrightarrow> c \<le> 255 \<Longrightarrow> d \<le> 255 \<Longrightarrow> ParseIP (dotted a b c d) = Some (v4_in_v6 [a, b, c, d])"
proof -
  assume le: "a \<le> 255" "b \<le> 255" "c \<le> 255" "d \<le> 255"
  have first: "dropWhile (\<lambda>c. c \<noteq> CHR ''.'' \<and> c \<noteq> CHR '':'' \<and> c \<noteq> CHR ''%'') (nat_digits a @ CHR ''.'' # r) = CHR ''.'' # r" for r
    using nat_digits_props [of a] by (subst dropWhile_append2) (auto simp: list_all_iff is_digit_def)
  show ?thesis
    using le by (simp add: ParseIP_def dotted_def first parse_ipv4_def split_on_join split_on_last
        dot_not_digits octet_digits)
qed

lemma loopback_dotted:
  "a \<le> 255 \<Longrightarrow> b \<le> 255 \<Longrightarrow> c \<le> 255 \<Longrightarrow> d \<le> 255 \<Longrightarrow> IsLoopback (ParseIP (dotted a b c d)) \<longleftrightarrow> a = 127"
  by (simp add: parse_dotted IsLoopback_def v4_in_v6_def nth_append numeral_eq_Suc)

end
