(* ===== verification/Json_Text.thy ===== *)
theory Json_Text
  imports Go_Net
begin

text \<open>
  JSON as the bootstrap generator writes it: values, the texts that denote them (with
  whitespace between tokens), comma-separated fragments as they are spliced into arrays, and
  builders for objects and arrays with the lemmas that their results denote what they
  should. The generator's own literals are written with the builders, that is without the
  insignificant whitespace of the source, which indenting the result normalises.
\<close>

section \<open>Values and their texts\<close>

datatype json = JNull | JBool bool | JNum string | JStr string | JArr "json list" | JObj "(string \<times> json) list"

definition is_ws :: "string \<Rightarrow> bool" where
  "is_ws s \<longleftrightarrow> list_all (\<lambda>c. c \<in> {CHR '' '', CHR 0x09, CHR 0x0A, CHR 0x0D}) s"

text \<open>A character that stands for itself inside a JSON string.\<close>

definition plain_char :: "char \<Rightarrow> bool" where
  "plain_char c \<longleftrightarrow> c \<noteq> CHR 0x22 \<and> c \<noteq> CHR 0x5C \<and> 32 \<le> (of_char c :: nat)"

definition plain :: "string \<Rightarrow> bool" where
  "plain s \<longleftrightarrow> list_all plain_char s"

text \<open>
  Unicode escapes: four hexadecimal digits give a code unit, a pair of surrogates one code
  point, and a surrogate that is not part of a pair the replacement character. The string
  holds the bytes of the UTF-8 encoding.
\<close>

definition hex_val :: "char \<Rightarrow> nat option" where
  "hex_val c =
     (let n = (of_char c :: nat) in
      if 48 \<le> n \<and> n \<le> 57 then Some (n - 48)
      else if 97 \<le> n \<and> n \<le> 102 then Some (n - 87)
      else if 65 \<le> n \<and> n \<le> 70 then Some (n - 55) else None)"

definition hex4 :: "char \<Rightarrow> char \<Rightarrow> char \<Rightarrow> char \<Rightarrow> nat option" where
  "hex4 a b c d =
     (case (hex_val a, hex_val b, hex_val c, hex_val d) of
        (Some i, Some j, Some k, Some l) \<Rightarrow> Some (((i * 16 + j) * 16 + k) * 16 + l)
      | _ \<Rightarrow> None)"

definition utf8 :: "nat \<Rightarrow> string" where
  "utf8 n =
     (if n < 0x80 then [char_of n]
      else if n < 0x800 then [char_of (0xC0 + n div 64), char_of (0x80 + n mod 64)]
      else if n < 0x10000 then [char_of (0xE0 + n div 4096), char_of (0x80 + n div 64 mod 64), char_of (0x80 + n mod 64)]
      else [char_of (0xF0 + n div 262144), char_of (0x80 + n div 4096 mod 64), char_of (0x80 + n div 64 mod 64), char_of (0x80 + n mod 64)])"

fun unicode_escape :: "string \<Rightarrow> (nat \<times> string) option" where
  "unicode_escape (b # u # c1 # c2 # c3 # c4 # s) =
     (if b = CHR 0x5C \<and> u = CHR ''u'' then map_option (\<lambda>n. (n, s)) (hex4 c1 c2 c3 c4) else None)"
| "unicode_escape _ = None"

definition read_unicode :: "string \<Rightarrow> (string \<times> string) option" where
  "read_unicode s =
     (case unicode_escape s of
        None \<Rightarrow> None
      | Some (n, r) \<Rightarrow>
          if n < 0xD800 \<or> 0xDFFF < n then Some (utf8 n, r)
          else (case unicode_escape r of
                  Some (m, r') \<Rightarrow>
                    if n < 0xDC00 \<and> 0xDC00 \<le> m \<and> m \<le> 0xDFFF then Some (utf8 (0x10000 + (n - 0xD800) * 1024 + (m - 0xDC00)), r')
                    else Some (utf8 0xFFFD, r)
                | None \<Rightarrow> Some (utf8 0xFFFD, r)))"

text \<open>The body of a JSON string and the string it stands for.\<close>

fun short_escape :: "char \<Rightarrow> char option" where
  "short_escape c =
     (if c \<in> set [CHR 0x22, CHR 0x5C, CHR ''/''] then Some c
      else if c = CHR ''b'' then Some CHR 0x08
      else if c = CHR ''f'' then Some CHR 0x0C
      else if c = CHR ''n'' then Some CHR 0x0A
      else if c = CHR ''r'' then Some CHR 0x0D
      else if c = CHR ''t'' then Some CHR 0x09
      else None)"

inductive string_body :: "string \<Rightarrow> string \<Rightarrow> bool" where
  body_Nil: "string_body [] []"
| body_plain: "plain_char c \<Longrightarrow> string_body s v \<Longrightarrow> string_body (c # s) (c # v)"
| body_escape: "short_escape c = Some d \<Longrightarrow> string_body s v \<Longrightarrow> string_body (CHR 0x5C # c # s) (d # v)"
| body_unicode: "read_unicode s = Some (b, r) \<Longrightarrow> string_body r v \<Longrightarrow> string_body s (b @ v)"

text \<open>Numbers: an integer part without leading zeros, an optional fraction and exponent.\<close>

definition digits :: "string \<Rightarrow> bool" where
  "digits s \<longleftrightarrow> s \<noteq> [] \<and> list_all is_digit s"

definition int_part :: "string \<Rightarrow> bool" where
  "int_part s \<longleftrightarrow> digits s \<and> (length s > 1 \<longrightarrow> hd s \<noteq> CHR ''0'')"

definition exp_part :: "string \<Rightarrow> bool" where
  "exp_part s \<longleftrightarrow>
     s = [] \<or> (hd s \<in> {CHR ''e'', CHR ''E''}
       \<and> digits (if tl s \<noteq> [] \<and> hd (tl s) \<in> {CHR ''+'', CHR ''-''} then tl (tl s) else tl s))"

definition frac_exp_part :: "string \<Rightarrow> bool" where
  "frac_exp_part s \<longleftrightarrow>
     (if s \<noteq> [] \<and> hd s = CHR ''.''
      then takeWhile is_digit (tl s) \<noteq> [] \<and> exp_part (dropWhile is_digit (tl s)) else exp_part s)"

definition number_text :: "string \<Rightarrow> bool" where
  "number_text s \<longleftrightarrow>
     (let t = (if s \<noteq> [] \<and> hd s = CHR ''-'' then tl s else s)
      in int_part (takeWhile is_digit t) \<and> frac_exp_part (dropWhile is_digit t))"

inductive denotes :: "string \<Rightarrow> json \<Rightarrow> bool"
  and denotes_seq :: "string \<Rightarrow> json list \<Rightarrow> bool"
  and denotes_members :: "string \<Rightarrow> (string \<times> json) list \<Rightarrow> bool" where
  d_null: "denotes ''null'' JNull"
| d_true: "denotes ''true'' (JBool True)"
| d_false: "denotes ''false'' (JBool False)"
| d_num: "number_text s \<Longrightarrow> denotes s (JNum s)"
| d_str: "string_body s v \<Longrightarrow> denotes (CHR 0x22 # s @ [CHR 0x22]) (JStr v)"
| d_arr_empty: "is_ws w \<Longrightarrow> denotes (CHR ''['' # w @ [CHR '']'']) (JArr [])"
| d_arr: "denotes_seq s vs \<Longrightarrow> denotes (CHR ''['' # s @ [CHR '']'']) (JArr vs)"
| d_obj_empty: "is_ws w \<Longrightarrow> denotes (CHR ''{'' # w @ [CHR ''}'']) (JObj [])"
| d_obj: "denotes_members s ms \<Longrightarrow> denotes (CHR ''{'' # s @ [CHR ''}'']) (JObj ms)"
| s_one: "is_ws a \<Longrightarrow> denotes s v \<Longrightarrow> is_ws b \<Longrightarrow> denotes_seq (a @ s @ b) [v]"
| s_more: "is_ws a \<Longrightarrow> denotes s v \<Longrightarrow> is_ws b \<Longrightarrow> denotes_seq r vs \<Longrightarrow> denotes_seq (a @ s @ b @ CHR '','' # r) (v # vs)"
| m_one: "is_ws a \<Longrightarrow> string_body k key \<Longrightarrow> is_ws b \<Longrightarrow> is_ws c \<Longrightarrow> denotes s v \<Longrightarrow> is_ws d \<Longrightarrow>
     denotes_members (a @ CHR 0x22 # k @ CHR 0x22 # b @ CHR '':'' # c @ s @ d) [(key, v)]"
| m_more: "is_ws a \<Longrightarrow> string_body k key \<Longrightarrow> is_ws b \<Longrightarrow> is_ws c \<Longrightarrow> denotes s v \<Longrightarrow> is_ws d \<Longrightarrow> denotes_members r ms \<Longrightarrow>
     denotes_members (a @ CHR 0x22 # k @ CHR 0x22 # b @ CHR '':'' # c @ s @ d @ CHR '','' # r) ((key, v) # ms)"

section \<open>Builders\<close>

definition quote :: "string \<Rightarrow> string" where
  "quote s = CHR 0x22 # s @ [CHR 0x22]"

definition member :: "string \<times> string \<Rightarrow> string" where
  "member kv = quote (fst kv) @ CHR '':'' # snd kv"

definition obj :: "(string \<times> string) list \<Rightarrow> string" where
  "obj kvs = CHR ''{'' # Join (map member kvs) '','' @ [CHR ''}'']"

definition arr :: "string list \<Rightarrow> string" where
  "arr xs = CHR ''['' # Join xs '','' @ [CHR '']'']"

text \<open>Looking up a path of object keys and array positions.\<close>

datatype step = Key string | At nat

fun lookup :: "json \<Rightarrow> step list \<Rightarrow> json option" where
  "lookup v [] = Some v"
| "lookup (JObj ms) (Key k # p) = (case map_of ms k of None \<Rightarrow> None | Some v \<Rightarrow> lookup v p)"
| "lookup (JArr vs) (At i # p) = (if i < length vs then lookup (vs ! i) p else None)"
| "lookup _ _ = None"

section \<open>Lemmas\<close>

lemma is_ws_Nil [simp]: "is_ws []"
  by (simp add: is_ws_def)

lemma is_ws_append [simp]: "is_ws (a @ b) \<longleftrightarrow> is_ws a \<and> is_ws b"
  by (simp add: is_ws_def)

lemma plain_body: "plain s \<Longrightarrow> string_body s s"
  by (induction s) (auto simp: plain_def intro: string_body.intros)

lemma plain_append [simp]: "plain (a @ b) \<longleftrightarrow> plain a \<and> plain b"
  by (simp add: plain_def)

lemma plain_Nil [simp]: "plain []"
  by (simp add: plain_def)

lemma denotes_quote: "plain s \<Longrightarrow> denotes (quote s) (JStr s)"
  unfolding quote_def by (intro d_str plain_body)

lemma seq_one: "denotes s v \<Longrightarrow> denotes_seq s [v]"
  using s_one [of "[]" s v "[]"] by simp

lemma seq_append_aux: "denotes s v \<Longrightarrow> True"
  "denotes_seq s vs \<Longrightarrow> denotes_seq t ws \<Longrightarrow> denotes_seq (s @ CHR '','' # t) (vs @ ws)"
  "denotes_members s ms \<Longrightarrow> True"
proof (induction rule: denotes_denotes_seq_denotes_members.inducts)
  case (s_one a s v b)
  then show ?case using s_more [of a s v b t ws] by simp
next
  case (s_more a s v b r vs)
  then show ?case
    using denotes_denotes_seq_denotes_members.s_more [of a s v b "r @ CHR '','' # t" "vs @ ws"] by simp
qed simp_all

lemma seq_ws:
  assumes "denotes_seq s vs" and "is_ws w"
  shows "denotes_seq (w @ s) vs"
  using assms(1)
proof cases
  case (s_one a t v b)
  with assms(2) show ?thesis using denotes_denotes_seq_denotes_members.s_one [of "w @ a" t v b] by simp
next
  case (s_more a t v b r us)
  with assms(2) show ?thesis using denotes_denotes_seq_denotes_members.s_more [of "w @ a" t v b r us] by simp
qed

text \<open>Fragments joined with a comma and a line break, as the generator splices them.\<close>

definition comma_nl :: string where "comma_nl = [CHR '','', CHR 0x0A]"

lemma seq_append:
  assumes "denotes_seq s vs" and "denotes_seq t ws"
  shows "denotes_seq (s @ comma_nl @ t) (vs @ ws)"
proof -
  have "denotes_seq (CHR 0x0A # t) ws"
    using seq_ws [OF assms(2), of "[CHR 0x0A]"] by (simp add: is_ws_def)
  from seq_append_aux(2) [OF assms(1) this] show ?thesis by (simp add: comma_nl_def)
qed

lemma Join_seq: "list_all2 denotes xs vs \<Longrightarrow> xs \<noteq> [] \<Longrightarrow> denotes_seq (Join xs '','') vs"
proof (induction xs vs rule: list_all2_induct)
  case (Cons x xs v vs)
  show ?case
  proof (cases xs)
    case Nil
    with Cons show ?thesis by (simp add: seq_one)
  next
    case (Cons y ys)
    with Cons.IH Cons.hyps show ?thesis
      using s_more [of "[]" x v "[]" "Join xs '',''" vs] by simp
  qed
qed simp

lemma Join_seq_nl: "list_all2 denotes_seq xs vss \<Longrightarrow> xs \<noteq> [] \<Longrightarrow> denotes_seq (Join xs comma_nl) (concat vss)"
proof (induction xs vss rule: list_all2_induct)
  case (Cons x xs v vs)
  show ?case
  proof (cases xs)
    case Nil
    with Cons show ?thesis by simp
  next
    case (Cons y ys)
    with Cons.IH Cons.hyps seq_append [of x v "Join xs comma_nl" "concat vs"] show ?thesis by simp
  qed
qed simp

lemma denotes_arr: "list_all2 denotes xs vs \<Longrightarrow> denotes (arr xs) (JArr vs)"
proof (cases "xs = []")
  case True
  assume "list_all2 denotes xs vs"
  with True show ?thesis using d_arr_empty [of "[]"] by (simp add: arr_def)
next
  case False
  assume "list_all2 denotes xs vs"
  with False Join_seq show ?thesis unfolding arr_def by (intro d_arr) blast
qed

definition denotes_kv :: "string \<times> string \<Rightarrow> string \<times> json \<Rightarrow> bool" where
  "denotes_kv kv m \<longleftrightarrow> fst kv = fst m \<and> plain (fst kv) \<and> denotes (snd kv) (snd m)"

lemma Join_members: "list_all2 denotes_kv kvs ms \<Longrightarrow> kvs \<noteq> [] \<Longrightarrow> denotes_members (Join (map member kvs) '','') ms"
proof (induction kvs ms rule: list_all2_induct)
  case (Cons kv kvs m ms)
  obtain k v where kv: "m = (k, v)" "fst kv = k" "plain k" "denotes (snd kv) v"
    using Cons.hyps(1) by (cases m) (auto simp: denotes_kv_def)
  have mem: "member kv = CHR 0x22 # k @ CHR 0x22 # CHR '':'' # snd kv"
    using kv(2) by (simp add: member_def quote_def)
  show ?case
  proof (cases kvs)
    case Nil
    with Cons kv show ?thesis
      using m_one [of "[]" k k "[]" "[]" "snd kv" v "[]"] by (simp add: mem plain_body)
  next
    case (Cons y ys)
    with Cons.IH Cons.hyps kv show ?thesis
      using m_more [of "[]" k k "[]" "[]" "snd kv" v "[]" "Join (map member kvs) '',''" ms]
      by (simp add: mem plain_body)
  qed
qed simp

lemma denotes_obj: "list_all2 denotes_kv kvs ms \<Longrightarrow> denotes (obj kvs) (JObj ms)"
proof (cases "kvs = []")
  case True
  assume "list_all2 denotes_kv kvs ms"
  with True show ?thesis using d_obj_empty [of "[]"] by (simp add: obj_def)
next
  case False
  assume "list_all2 denotes_kv kvs ms"
  with False Join_members show ?thesis unfolding obj_def by (intro d_obj) blast
qed

lemma num_int:
  assumes "int_part s"
  shows "number_text s"
proof -
  have d: "takeWhile is_digit s = s" "dropWhile is_digit s = []" and h: "is_digit (hd s)" "s \<noteq> []"
    using assms by (auto simp: int_part_def digits_def list_all_iff)
  from h(1) have "hd s \<noteq> CHR ''-''" by (auto simp: is_digit_def)
  moreover have "\<forall>x\<in>set s. is_digit x" using assms by (simp add: int_part_def digits_def list_all_iff)
  ultimately show ?thesis using assms by (simp add: number_text_def frac_exp_part_def exp_part_def d)
qed

lemma nat_digits_number: "number_text (nat_digits n)"
proof -
  have "int_part (nat_digits n)"
  proof (cases "n = 0")
    case True
    then show ?thesis by (simp add: nat_digits.simps [of 0] int_part_def digits_def is_digit_def)
  next
    case False
    with nat_digits_head nat_digits_props [of n] show ?thesis by (simp add: int_part_def digits_def)
  qed
  then show ?thesis by (rule num_int)
qed

lemma Itoa_number: "0 \<le> i \<Longrightarrow> denotes (Itoa i) (JNum (Itoa i))"
  using nat_digits_number by (intro d_num) (simp add: Itoa_def)

lemmas denotes_basic = d_true d_false d_null denotes_quote denotes_arr denotes_obj

end
