(* ===== verification/Go_Path.thy ===== *)
theory Go_Path
  imports Go_Net
begin

text \<open>
  What is used of Go's \<open>path\<close> and, on Unix the same, \<open>path/filepath\<close>: cleaning and joining slash-separated paths, and that
  a joined file name is that name in the cleaned directory.
\<close>

section \<open>Cleaning and joining\<close>

text \<open>The elements of a path from left to right: empty ones and \<open>.\<close> go, \<open>..\<close> takes back the element before it.\<close>

fun clean_elems :: "bool \<Rightarrow> string list \<Rightarrow> string list \<Rightarrow> string list" where
  "clean_elems rooted acc [] = acc"
| "clean_elems rooted acc (x # xs) =
     (if x = [] \<or> x = ''.'' then clean_elems rooted acc xs
      else if x = ''..'' then
        (if acc \<noteq> [] \<and> last acc \<noteq> ''..'' then clean_elems rooted (butlast acc) xs
         else if rooted then clean_elems rooted acc xs
         else clean_elems rooted (acc @ [x]) xs)
      else clean_elems rooted (acc @ [x]) xs)"

definition path_Clean :: "string \<Rightarrow> string" where
  "path_Clean p =
     (let rooted = HasPrefix p ''/''; es = clean_elems rooted [] (split_on CHR ''/'' p) in
      if rooted then CHR ''/'' # Join es ''/'' else if es = [] then ''.'' else Join es ''/'')"

definition path_Join :: "string \<Rightarrow> string \<Rightarrow> string" where
  "path_Join a b =
     (if a = [] \<and> b = [] then [] else path_Clean (if a = [] then b else a @ CHR ''/'' # b))"

section \<open>Lemmas\<close>

lemma path_examples:
  "path_Join ''/tmp/consul'' ''x.sock'' = ''/tmp/consul/x.sock''" "path_Join ''a//b/../c/'' ''./x'' = ''a/c/x''"
  "path_Join ''/..'' ''x'' = ''/x''" "path_Join ''../a'' ''../..'' = ''../..''" "path_Join ''.'' ''.'' = ''.''" "path_Join [] [] = []"
  by code_simp+

lemma clean_elems_append: "clean_elems r acc (xs @ ys) = clean_elems r (clean_elems r acc xs) ys"
  by (induction r acc xs rule: clean_elems.induct) auto

lemma clean_elems_in: "x \<in> set (clean_elems r acc xs) \<Longrightarrow> x \<in> set acc \<or> x \<in> set xs \<and> x \<notin> {[], ''.''}"
proof (induction r acc xs rule: clean_elems.induct)
  case (2 r acc y ys)
  then show ?case using in_set_butlastD [of x acc] by (auto split: if_splits)
qed simp

lemma split_on_append: "split_on c (a @ c # b) = split_on c a @ split_on c b"
  by (induction a) (auto split: list.split)

lemma split_on_chars: "x \<in> set (split_on c s) \<Longrightarrow> set x \<subseteq> set s - {c}"
proof (induction s arbitrary: x)
  case (Cons a s)
  obtain y ys where y: "split_on c s = y # ys" by (cases "split_on c s") auto
  have "set z \<subseteq> set s - {c}" if "z \<in> set (y # ys)" for z using Cons.IH that y by simp
  with Cons.prems y show ?case by (fastforce split: if_splits)
qed simp

lemma Join_chars: "set (Join xs sep) \<subseteq> (\<Union>x \<in> set xs. set x) \<union> set sep"
  by (induction xs sep rule: Join.induct) auto

lemma Join_snoc: "xs \<noteq> [] \<Longrightarrow> Join (xs @ [x]) sep = Join xs sep @ sep @ x"
  by (induction xs sep rule: Join.induct) auto

lemma path_Clean_chars: "set (path_Clean p) \<subseteq> set p \<union> set ''/.''"
proof -
  let ?es = "clean_elems (HasPrefix p ''/'') [] (split_on CHR ''/'' p)"
  have "set x \<subseteq> set p" if "x \<in> set ?es" for x
    using clean_elems_in [OF that] split_on_chars [of x] by auto
  then have "set (Join ?es ''/'') \<subseteq> set p \<union> {CHR ''/''}" using Join_chars [of ?es "''/''"] by fastforce
  then show ?thesis unfolding path_Clean_def Let_def by (auto split: if_splits)
qed

lemma path_Join_chars: "set (path_Join a b) \<subseteq> set a \<union> set b \<union> set ''/.''"
  using path_Clean_chars [of b] path_Clean_chars [of "a @ CHR ''/'' # b"] by (auto simp: path_Join_def)

text \<open>A file name joined to a directory is that file in the cleaned directory.\<close>

definition file_name :: "string \<Rightarrow> bool" where
  "file_name n \<longleftrightarrow> n \<notin> {[], ''.'', ''..''} \<and> CHR ''/'' \<notin> set n"

lemma Join_proper:
  "\<forall>x \<in> set es. x \<notin> {[], ''.''} \<and> CHR ''/'' \<notin> set x \<Longrightarrow> es \<noteq> [] \<Longrightarrow> Join es ''/'' \<notin> {[], ''.'', ''/''}"
  by (induction es "''/''" rule: Join.induct) (auto simp: append_eq_Cons_conv)

lemma path_Join_file:
  assumes "dir \<noteq> []" and "file_name n"
  shows "path_Join dir n =
    (if path_Clean dir = ''/'' then CHR ''/'' # n else if path_Clean dir = ''.'' then n else path_Clean dir @ CHR ''/'' # n)"
proof -
  let ?r = "HasPrefix dir ''/''"
  let ?es = "clean_elems ?r [] (split_on CHR ''/'' dir)"
  have r: "HasPrefix (dir @ CHR ''/'' # n) ''/'' = ?r" using assms(1) by (cases dir) (auto simp: HasPrefix_def)
  have n: "clean_elems ?r [] (split_on CHR ''/'' (dir @ CHR ''/'' # n)) = ?es @ [n]"
    using assms(2) by (simp add: split_on_append split_on_last clean_elems_append file_name_def)
  have "\<forall>x \<in> set ?es. x \<notin> {[], ''.''} \<and> CHR ''/'' \<notin> set x"
    using clean_elems_in [of _ ?r "[]" "split_on CHR ''/'' dir"] split_on_chars [of _ "CHR ''/''" dir] by fastforce
  then have es: "?es = [] \<or> Join ?es ''/'' \<notin> {[], ''.'', ''/''}" using Join_proper [of ?es] by blast
  have "path_Join dir n = (if ?r then CHR ''/'' # Join (?es @ [n]) ''/'' else Join (?es @ [n]) ''/'')"
    unfolding path_Join_def path_Clean_def Let_def using assms(1) unfolding if_not_P [OF assms(1)] r n by simp
  then show ?thesis
    using es Join_snoc [of ?es n "''/''"] by (cases "?es = []") (auto simp: path_Clean_def Let_def)
qed

end
