(* ===== verification/Go_Hash.thy ===== *)
theory Go_Hash
  imports Prelude
begin

text \<open>
  What the bootstrap generator uses of \<open>crypto/sha1\<close> and \<open>encoding/base64\<close>: the digest of a text and its unpadded encoding with the
  URL alphabet, which names the socket of the telemetry collector. The encoding is shown to be a plain file name.
\<close>

section \<open>SHA-1\<close>

type_synonym bytes = "8 word list"

definition of_text :: "string \<Rightarrow> bytes" where
  "of_text = map of_char"

fun be_bytes :: "nat \<Rightarrow> int \<Rightarrow> bytes" where
  "be_bytes 0 n = []"
| "be_bytes (Suc k) n = be_bytes k (n div 256) @ [word_of_int n]"

definition rotl :: "nat \<Rightarrow> 32 word \<Rightarrow> 32 word" where
  "rotl n w = or (push_bit n w) (drop_bit (32 - n) w)"

text \<open>The message, a one bit, zeros, and the length in bits, so that the whole is a multiple of 64 bytes.\<close>

definition sha1_pad :: "bytes \<Rightarrow> bytes" where
  "sha1_pad m = m @ 0x80 # replicate ((119 - length m mod 64) mod 64) 0 @ be_bytes 8 (8 * int (length m))"

fun words32 :: "bytes \<Rightarrow> 32 word list" where
  "words32 (a # b # c # d # r) =
     (push_bit 24 (ucast a) + push_bit 16 (ucast b) + push_bit 8 (ucast c) + ucast d) # words32 r"
| "words32 _ = []"

text \<open>The eighty words of a block, kept with the last one first.\<close>

fun sha1_extend :: "nat \<Rightarrow> 32 word list \<Rightarrow> 32 word list" where
  "sha1_extend 0 ws = ws"
| "sha1_extend (Suc n) ws =
     sha1_extend n (rotl 1 (xor (xor (ws ! 2) (ws ! 7)) (xor (ws ! 13) (ws ! 15))) # ws)"

definition sha1_f :: "nat \<Rightarrow> 32 word \<Rightarrow> 32 word \<Rightarrow> 32 word \<Rightarrow> 32 word" where
  "sha1_f t b c d =
     (if t < 20 then xor d (and b (xor c d))
      else if 40 \<le> t \<and> t < 60 then or (and b c) (and d (or b c))
      else xor (xor b c) d)"

definition sha1_k :: "nat \<Rightarrow> 32 word" where
  "sha1_k t = (if t < 20 then 0x5A827999 else if t < 40 then 0x6ED9EBA1 else if t < 60 then 0x8F1BBCDC else 0xCA62C1D6)"

type_synonym sha1_state = "32 word \<times> 32 word \<times> 32 word \<times> 32 word \<times> 32 word"

fun sha1_rounds :: "nat \<Rightarrow> 32 word list \<Rightarrow> sha1_state \<Rightarrow> sha1_state" where
  "sha1_rounds t [] s = s"
| "sha1_rounds t (w # ws) (a, b, c, d, e) =
     sha1_rounds (Suc t) ws (rotl 5 a + sha1_f t b c d + e + sha1_k t + w, a, rotl 30 b, c, d)"

definition sha1_block :: "32 word list \<Rightarrow> sha1_state \<Rightarrow> sha1_state" where
  "sha1_block ws s =
     (case (s, sha1_rounds 0 (rev (sha1_extend 64 (rev ws))) s) of
        ((a, b, c, d, e), (a', b', c', d', e')) \<Rightarrow> (a + a', b + b', c + c', d + d', e + e'))"

fun sha1_blocks :: "nat \<Rightarrow> 32 word list \<Rightarrow> sha1_state \<Rightarrow> sha1_state" where
  "sha1_blocks 0 ws s = s"
| "sha1_blocks (Suc n) ws s = sha1_blocks n (drop 16 ws) (sha1_block (take 16 ws) s)"

definition sha1_Sum :: "string \<Rightarrow> bytes" where
  "sha1_Sum text =
     (let p = sha1_pad (of_text text) in
      case sha1_blocks (length p div 64) (words32 p) (0x67452301, 0xEFCDAB89, 0x98BADCFE, 0x10325476, 0xC3D2E1F0) of
        (a, b, c, d, e) \<Rightarrow> concat (map (\<lambda>w. be_bytes 4 (uint w)) [a, b, c, d, e]))"

section \<open>Base64\<close>

definition b64_alphabet :: string where
  "b64_alphabet = ''ABCDEFGHIJKLMNOPQRSTUVWXYZabcdefghijklmnopqrstuvwxyz0123456789-_''"

definition b64_char :: "int \<Rightarrow> char" where
  "b64_char n = b64_alphabet ! nat (n mod 64)"

text \<open>\<open>base64.RawURLEncoding\<close>: four characters for three bytes, two or three for the rest, no padding.\<close>

fun RawURLEncoding :: "bytes \<Rightarrow> string" where
  "RawURLEncoding [] = []"
| "RawURLEncoding [a] = (let n = uint a * 16 in [b64_char (n div 64), b64_char n])"
| "RawURLEncoding [a, b] = (let n = (uint a * 256 + uint b) * 4 in [b64_char (n div 4096), b64_char (n div 64), b64_char n])"
| "RawURLEncoding (a # b # c # r) =
     (let n = (uint a * 256 + uint b) * 256 + uint c
      in [b64_char (n div 262144), b64_char (n div 4096), b64_char (n div 64), b64_char n] @ RawURLEncoding r)"

section \<open>Lemmas\<close>

text \<open>Known encodings.\<close>

lemma b64_vectors: "RawURLEncoding (of_text ''foobar'') = ''Zm9vYmFy''" "RawURLEncoding (of_text ''fooba'') = ''Zm9vYmE''"
  "RawURLEncoding (of_text ''foob'') = ''Zm9vYg''"
  by code_simp+

lemma length_be_bytes [simp]: "length (be_bytes k n) = k"
  by (induction k n rule: be_bytes.induct) simp_all

lemma length_sha1 [simp]: "length (sha1_Sum text) = 20"
  by (simp add: sha1_Sum_def Let_def split: prod.split)

lemma length_RawURLEncoding: "length (RawURLEncoding bs) = (length bs * 4 + 2) div 3"
  by (induction bs rule: RawURLEncoding.induct) (auto simp: Let_def)

lemma b64_char_in: "b64_char n \<in> set b64_alphabet"
proof -
  have "length b64_alphabet = 64" by (simp add: b64_alphabet_def)
  then show ?thesis unfolding b64_char_def by (intro nth_mem) (simp add: nat_less_iff)
qed

lemma RawURLEncoding_chars: "set (RawURLEncoding bs) \<subseteq> set b64_alphabet"
  by (induction bs rule: RawURLEncoding.induct) (simp_all add: Let_def b64_char_in)

end
