(* ===== verification/Bootstrap_Config.thy ===== *)
theory Bootstrap_Config
  imports Json_Text Go_Path Go_Hash
begin

text \<open>
  The Envoy bootstrap generator, \<open>internal/bootstrap/bootstrap_config.go\<close> and
  \<open>bootstrap_tpl.go\<close>: the arguments of the template, what the proxy's configuration adds to
  them (stats sinks and tags, static clusters, listeners and secrets), the default template,
  and \<open>GenerateJSON\<close>. JSON text is built with the builders of \<open>Json_Text\<close>, that is up to
  the whitespace between tokens.

  URL parsing, JSON decoding and indenting and the execution of a
  user's own template are fields of a record of library functions.
\<close>

section \<open>Data\<close>

record BootstrapConfig =
  bc_StatsdURL :: "string"
  bc_DogstatsdURL :: "string"
  bc_StatsTags :: "string list"
  bc_TelemetryCollectorBindSocketDir :: "string"
  bc_PrometheusBindAddr :: "string"
  bc_StatsBindAddr :: "string"
  bc_ReadyBindAddr :: "string"
  bc_OverrideJSONTpl :: "string"
  bc_StaticClustersJSON :: "string"
  bc_StaticListenersJSON :: "string"
  bc_StatsSinksJSON :: "string"
  bc_StatsConfigJSON :: "string"
  bc_StatsFlushInterval :: "string"
  bc_TracingConfigJSON :: "string"

record GRPC =
  g_AgentAddress :: "string"
  g_AgentPort :: "string"
  g_AgentTLS :: "bool"
  g_AgentSocket :: "string"

record BootstrapTplArgs =
  ta_GRPC :: GRPC
  ta_ProxyCluster :: "string"
  ta_ProxyID :: "string"
  ta_NodeName :: "string"
  ta_ProxySourceService :: "string"
  ta_AgentCAPEM :: "string"
  ta_AdminAccessLogConfig :: "string list"
  ta_AdminAccessLogPath :: "string"
  ta_AdminBindAddress :: "string"
  ta_AdminBindPort :: "string"
  ta_LocalAgentClusterName :: "string"
  ta_Token :: "string"
  ta_StaticClustersJSON :: "string"
  ta_StaticListenersJSON :: "string"
  ta_StatsSinksJSON :: "string"
  ta_StatsConfigJSON :: "string"
  ta_StaticSecretsJSON :: "string"
  ta_StatsFlushInterval :: "string"
  ta_TracingConfigJSON :: "string"
  ta_Namespace :: "string"
  ta_Partition :: "string"
  ta_Datacenter :: "string"
  ta_PrometheusBackendPort :: "string"
  ta_PrometheusScrapePath :: "string"
  ta_PrometheusCAFile :: "string"
  ta_PrometheusCAPath :: "string"
  ta_PrometheusCertFile :: "string"
  ta_PrometheusKeyFile :: "string"

record url =
  u_Scheme :: string
  u_Hostname :: string
  u_Port :: string
  u_Path :: string
  u_RawQuery :: string

record lib =
  l_Getenv :: "string \<Rightarrow> string"
  l_Parse :: "string \<Rightarrow> url result"
  l_ParseRequestURI :: "string \<Rightarrow> url result"
  l_clusterNames :: "string \<Rightarrow> string list result"
  l_Execute :: "string \<Rightarrow> BootstrapTplArgs \<Rightarrow> string result"
  l_Indent :: "string \<Rightarrow> string result"

definition selfAdminName :: string where "selfAdminName = ''self_admin''"

section \<open>Expanding environment variables\<close>

definition shell_special :: "char \<Rightarrow> bool" where
  "shell_special c \<longleftrightarrow> c \<in> set ''*#$@!?-'' \<or> is_digit c"

definition alpha_num :: "char \<Rightarrow> bool" where
  "alpha_num c \<longleftrightarrow> c = CHR ''_'' \<or> is_digit c
     \<or> (97 \<le> (of_char c :: nat) \<and> (of_char c :: nat) \<le> 122) \<or> (65 \<le> (of_char c :: nat) \<and> (of_char c :: nat) \<le> 90)"

text \<open>The variable name after a dollar sign and how many characters it takes.\<close>

definition getShellName :: "string \<Rightarrow> string \<times> nat" where
  "getShellName s =
     (if hd s = CHR ''{'' then
        (if length s > 2 \<and> shell_special (s ! 1) \<and> s ! 2 = CHR ''}'' then ([s ! 1], 3)
         else case index_of (tl s) CHR ''}'' of
           None \<Rightarrow> ([], 1)
         | Some i \<Rightarrow> if i = 0 then ([], 2) else (take i (tl s), i + 2))
      else if shell_special (hd s) then ([hd s], 1)
      else (takeWhile alpha_num s, length (takeWhile alpha_num s)))"

text \<open>\<open>os.Expand\<close>.\<close>

function Expand :: "(string \<Rightarrow> string) \<Rightarrow> string \<Rightarrow> string" where
  "Expand mapping [] = []"
| "Expand mapping (c # s) =
     (if c = CHR ''$'' \<and> s \<noteq> [] then
        (case getShellName s of
           (name, w) \<Rightarrow>
             if name = [] then (if w > 0 then Expand mapping (drop w s) else c # Expand mapping s)
             else mapping name @ Expand mapping (drop w s))
      else c # Expand mapping s)"
  by pat_completeness auto
termination
  by (relation "measure (\<lambda>(m, s). length s)") auto

declare Expand.simps(2) [simp del]

definition statsSinkEnvMapping :: "(string \<Rightarrow> string) \<Rightarrow> string \<Rightarrow> string" where
  "statsSinkEnvMapping getenv s = (if s \<noteq> ''HOST_IP'' then ''${'' @ s @ ''}'' else getenv s)"

definition resolve_sink_addr :: "(string \<Rightarrow> string) \<Rightarrow> string \<Rightarrow> string" where
  "resolve_sink_addr getenv addr =
     (if length addr > 2 \<and> hd addr = CHR ''$'' then getenv (tl addr) else Expand (statsSinkEnvMapping getenv) addr)"

section \<open>Stats sinks\<close>

definition generateStatsSinkJSON :: "lib \<Rightarrow> string \<Rightarrow> string \<Rightarrow> string \<Rightarrow> string result" where
  "generateStatsSinkJSON lib name typeName addr0 =
     (let addr = resolve_sink_addr (l_Getenv lib) addr0 in
      case l_Parse lib addr of
        Inl e \<Rightarrow> Inl (Err (''failed to parse '' @ name @ '' sink address '' @ quote addr))
      | Inr u \<Rightarrow>
          (let sink = (\<lambda>addrJSON. Inr (obj [(''name'', quote name),
                 (''typedConfig'', obj [(''@type'', quote typeName), (''address'', obj [addrJSON])])]))
           in if u_Scheme u = ''udp''
              then sink (''socket_address'', obj [(''address'', quote (u_Hostname u)), (''port_value'', u_Port u)])
              else if u_Scheme u = ''unix'' then sink (''pipe'', obj [(''path'', quote (u_Path u))])
              else Inl (Err (''unsupported address protocol '' @ quote (u_Scheme u) @ '' for '' @ name @ '' sink''))))"

text \<open>The sink of a configured address, if there is one.\<close>

definition sink_if_set :: "lib \<Rightarrow> string \<Rightarrow> string \<Rightarrow> string \<Rightarrow> string list result" where
  "sink_if_set lib name typeName addr =
     (if addr = [] then Inr []
      else case generateStatsSinkJSON lib name typeName addr of Inl e \<Rightarrow> Inl e | Inr sinkJSON \<Rightarrow> Inr [sinkJSON])"

definition generateStatsSinks :: "lib \<Rightarrow> BootstrapConfig \<Rightarrow> BootstrapTplArgs \<Rightarrow> BootstrapTplArgs result" where
  "generateStatsSinks lib c args =
     (case sink_if_set lib ''envoy.stat_sinks.statsd'' ''type.googleapis.com/envoy.config.metrics.v3.StatsdSink'' (bc_StatsdURL c) of
        Inl e \<Rightarrow> Inl e
      | Inr s1 \<Rightarrow>
          (case sink_if_set lib ''envoy.stat_sinks.dog_statsd'' ''type.googleapis.com/envoy.config.metrics.v3.DogStatsdSink'' (bc_DogstatsdURL c) of
             Inl e \<Rightarrow> Inl e
           | Inr s2 \<Rightarrow>
               (let sinks = s1 @ s2 @ (if bc_StatsSinksJSON c = [] then [] else [bc_StatsSinksJSON c])
                in Inr (if length sinks > 0 then args\<lparr>ta_StatsSinksJSON := Join sinks comma_nl\<rparr> else args))))"

section \<open>Stats tags\<close>

definition reSegment :: string where "reSegment = ''[^.]+''"

text \<open>A pattern given by its parts between escaped dots, with every \<open>%s\<close> filled in.\<close>

fun fill :: "string \<Rightarrow> string" where
  "fill [] = []"
| "fill [c] = [c]"
| "fill (c # d # r) = (if c = CHR ''%'' \<and> d = CHR ''s'' then reSegment @ fill r else c # fill (d # r))"

definition re_tpl :: "string list \<Rightarrow> string" where
  "re_tpl parts = fill (Join parts [CHR 0x5C, CHR ''.''])"

definition tag_rules :: "(string \<times> string) list" where
  "tag_rules =
    [(''consul.destination.custom_hash'', re_tpl [''^cluster'', ''(?:passthrough~)?((?:(%s)~)?(?:%s'', '')?%s'', ''%s'', ''(?:%s'', '')?%s'', ''%s'', ''%s'', ''consul'', '')'']),
     (''consul.destination.service_subset'', re_tpl [''^cluster'', ''(?:passthrough~)?((?:%s~)?(?:(%s)'', '')?%s'', ''%s'', ''(?:%s'', '')?%s'', ''%s'', ''%s'', ''consul'', '')'']),
     (''consul.destination.service'', re_tpl [''^cluster'', ''(?:passthrough~)?((?:%s~)?(?:%s'', '')?(%s)'', ''%s'', ''(?:%s'', '')?%s'', ''%s'', ''%s'', ''consul'', '')'']),
     (''consul.destination.namespace'', re_tpl [''^cluster'', ''(?:passthrough~)?((?:%s~)?(?:%s'', '')?%s'', ''(%s)'', ''(?:%s'', '')?%s'', ''%s'', ''%s'', ''consul'', '')'']),
     (''consul.destination.partition'', re_tpl [''^cluster'', ''(?:passthrough~)?((?:%s~)?(?:%s'', '')?%s'', ''%s'', ''(?:(%s)'', '')?%s'', ''internal[^.]*'', ''%s'', ''consul'', '')'']),
     (''consul.destination.datacenter'', re_tpl [''^cluster'', ''(?:passthrough~)?((?:%s~)?(?:%s'', '')?%s'', ''%s'', ''(?:%s'', '')?(%s)'', ''internal[^.]*'', ''%s'', ''consul'', '')'']),
     (''consul.destination.peer'', re_tpl [''^cluster'', ''(%s'', ''(?:%s'', '')?(%s)'', ''external'', ''%s'', ''consul'', '')'']),
     (''consul.destination.routing_type'', re_tpl [''^cluster'', ''(?:passthrough~)?((?:%s~)?(?:%s'', '')?%s'', ''%s'', ''(?:%s'', '')?%s'', ''(%s)'', ''%s'', ''consul'', '')'']),
     (''consul.destination.trust_domain'', re_tpl [''^cluster'', ''(?:passthrough~)?((?:%s~)?(?:%s'', '')?%s'', ''%s'', ''(?:%s'', '')?%s'', ''%s'', ''(%s)'', ''consul'', '')'']),
     (''consul.destination.target'', re_tpl [''^cluster'', ''(?:passthrough~)?(((?:%s~)?(?:%s'', '')?%s'', ''%s'', ''(?:%s'', '')?%s)'', ''%s'', ''%s'', ''consul'', '')'']),
     (''consul.destination.full_target'', re_tpl [''^cluster'', ''(?:passthrough~)?(((?:%s~)?(?:%s'', '')?%s'', ''%s'', ''(?:%s'', '')?%s'', ''%s'', ''%s)'', ''consul'', '')'']),
     (''consul.upstream.service'', re_tpl [''^(?:tcp|http)'', ''upstream(?:_peered)?'', ''((%s)(?:'', ''%s)?(?:'', ''%s)?'', ''%s'', '')'']),
     (''consul.upstream.datacenter'', re_tpl [''^(?:tcp|http)'', ''upstream'', ''(%s(?:'', ''%s)?(?:'', ''%s)?'', ''(%s)'', '')'']),
     (''consul.upstream.peer'', re_tpl [''^(?:tcp|http)'', ''upstream_peered'', ''(%s(?:'', ''%s)?'', ''(%s)'', '')'']),
     (''consul.upstream.namespace'', re_tpl [''^(?:tcp|http)'', ''upstream(?:_peered)?'', ''(%s(?:'', ''(%s))?(?:'', ''%s)?'', ''%s'', '')'']),
     (''consul.upstream.partition'', re_tpl [''^(?:tcp|http)'', ''upstream'', ''(%s(?:'', ''%s)?(?:'', ''(%s))?'', ''%s'', '')''])]"

definition deprecated_tag_rules :: "(string \<times> string) list" where
  "deprecated_tag_rules =
    [(''consul.custom_hash'', re_tpl [''^cluster'', ''((?:(%s)~)?(?:%s'', '')?%s'', ''%s'', ''(?:%s'', '')?%s'', ''%s'', ''%s'', ''consul'', '')'']),
     (''consul.service_subset'', re_tpl [''^cluster'', ''((?:%s~)?(?:(%s)'', '')?%s'', ''%s'', ''(?:%s'', '')?%s'', ''%s'', ''%s'', ''consul'', '')'']),
     (''consul.service'', re_tpl [''^cluster'', ''((?:%s~)?(?:%s'', '')?(%s)'', ''%s'', ''(?:%s'', '')?%s'', ''%s'', ''%s'', ''consul'', '')'']),
     (''consul.namespace'', re_tpl [''^cluster'', ''((?:%s~)?(?:%s'', '')?%s'', ''(%s)'', ''(?:%s'', '')?%s'', ''%s'', ''%s'', ''consul'', '')'']),
     (''consul.datacenter'', re_tpl [''^cluster'', ''((?:%s~)?(?:%s'', '')?%s'', ''%s'', ''(?:%s'', '')?(%s)'', ''internal[^.]*'', ''%s'', ''consul'', '')'']),
     (''consul.routing_type'', re_tpl [''^cluster'', ''((?:%s~)?(?:%s'', '')?%s'', ''%s'', ''(?:%s'', '')?%s'', ''(%s)'', ''%s'', ''consul'', '')'']),
     (''consul.trust_domain'', re_tpl [''^cluster'', ''((?:%s~)?(?:%s'', '')?%s'', ''%s'', ''(?:%s'', '')?%s'', ''%s'', ''(%s)'', ''consul'', '')'']),
     (''consul.target'', re_tpl [''^cluster'', ''(((?:%s~)?(?:%s'', '')?%s'', ''%s'', ''(?:%s'', '')?%s)'', ''%s'', ''%s'', ''consul'', '')'']),
     (''consul.full_target'', re_tpl [''^cluster'', ''(((?:%s~)?(?:%s'', '')?%s'', ''%s'', ''(?:%s'', '')?%s'', ''%s'', ''%s)'', ''consul'', '')''])]"

text \<open>A string as \<open>json.Marshal\<close> writes it; the patterns hold no other character that needs escaping.\<close>

definition marshal_string :: "string \<Rightarrow> string" where
  "marshal_string s = quote (concat (map (\<lambda>c. if c \<in> {CHR 0x5C, CHR 0x22} then [CHR 0x5C, c] else [c]) s))"

definition resourceTagSpecifiers :: "bool \<Rightarrow> string list" where
  "resourceTagSpecifiers omitDeprecatedTags =
     (let rules = (if \<not> omitDeprecatedTags then tag_rules @ deprecated_tag_rules else tag_rules)
      in map (\<lambda>(name, regex). obj [(''regex'', marshal_string regex), (''tag_name'', marshal_string name)]) rules)"

definition formatStatsTags :: "string list \<Rightarrow> string" where
  "formatStatsTags tags =
     (if length tags > 0
      then obj [(''stats_tags'', CHR ''['' # Join tags comma_nl @ [CHR '']'']), (''use_all_default_tags'', ''true'')]
      else [])"

definition default_or :: "string \<Rightarrow> string" where
  "default_or s = (if s = [] then ''default'' else s)"

text \<open>A configured tag: its lower-case name and its value, \<open>1\<close> if none is given.\<close>

definition parse_tag :: "string \<Rightarrow> string \<times> string" where
  "parse_tag tag =
     (case index_of tag CHR ''='' of
        None \<Rightarrow> (ToLower tag, ''1'')
      | Some i \<Rightarrow> (ToLower (take i tag), drop (Suc i) tag))"

definition tag_json :: "string \<times> string \<Rightarrow> string" where
  "tag_json kv = obj [(''tag_name'', quote (fst kv)), (''fixed_value'', quote (snd kv))]"

definition default_tags :: "BootstrapTplArgs \<Rightarrow> (string \<times> string) list" where
  "default_tags args =
     [(''local_cluster'', ta_ProxyCluster args),
      (''consul.source.service'', ta_ProxySourceService args),
      (''consul.source.namespace'', default_or (ta_Namespace args)),
      (''consul.source.partition'', default_or (ta_Partition args)),
      (''consul.source.datacenter'', ta_Datacenter args)]"

definition generateStatsTags :: "BootstrapTplArgs \<Rightarrow> string list \<Rightarrow> bool \<Rightarrow> string list" where
  "generateStatsTags args initialTags omitDeprecatedTags =
     (let explicit = map parse_tag initialTags; tagNames = map fst explicit
      in map tag_json explicit @ resourceTagSpecifiers omitDeprecatedTags
         @ map tag_json (filter (\<lambda>kv. snd kv \<noteq> [] \<and> fst kv \<notin> set tagNames) (default_tags args)))"

section \<open>Listeners, clusters and secrets\<close>

definition containsSelfAdminCluster :: "lib \<Rightarrow> string \<Rightarrow> bool result" where
  "containsSelfAdminCluster lib clustersJSON =
     (case l_clusterNames lib (''['' @ clustersJSON @ '']'') of
        Inl e \<Rightarrow> Inl (Wrap ''failed to parse static clusters'' e)
      | Inr names \<Rightarrow> Inr (selfAdminName \<in> set names))"

definition cluster_json :: "string \<Rightarrow> string \<Rightarrow> string \<Rightarrow> string" where
  "cluster_json clusterName clusterAddress clusterPort =
     obj [(''name'', quote clusterName),
          (''ignore_health_on_host_removal'', ''false''),
          (''connect_timeout'', quote ''5s''),
          (''type'', quote ''STATIC''),
          (''http_protocol_options'', obj []),
          (''loadAssignment'',
             obj [(''clusterName'', quote clusterName),
                  (''endpoints'',
                     arr [obj [(''lbEndpoints'',
                       arr [obj [(''endpoint'',
                         obj [(''address'',
                           obj [(''socket_address'',
                             obj [(''address'', quote clusterAddress), (''port_value'', clusterPort)])])])]])]])])]"

definition tls_config_json :: "(string \<times> string) list" where
  "tls_config_json =
     [(''transportSocket'',
        obj [(''name'', quote ''tls''),
             (''typedConfig'',
               obj [(''@type'', quote ''type.googleapis.com/envoy.extensions.transport_sockets.tls.v3.DownstreamTlsContext''),
                    (''commonTlsContext'',
                      obj [(''tlsCertificateSdsSecretConfigs'', arr [obj [(''name'', quote ''prometheus_cert'')]]),
                           (''validationContextSdsSecretConfig'', obj [(''name'', quote ''prometheus_validation_context'')])])])])]"

definition route_json :: "string \<Rightarrow> string \<Rightarrow> string \<Rightarrow> string \<Rightarrow> string" where
  "route_json matchType matchValue clusterName prefixRewrite =
     obj [(''name'', quote ''self_admin_route''),
          (''virtual_hosts'',
            arr [obj [(''name'', quote ''self_admin''),
                      (''domains'', arr [quote ''*'']),
                      (''routes'',
                        arr [obj [(''match'', obj [(matchType, quote matchValue)]),
                                  (''route'', obj [(''cluster'', quote clusterName), (''prefix_rewrite'', quote prefixRewrite)])],
                             obj [(''match'', obj [(''prefix'', quote ''/'')]),
                                  (''direct_response'', obj [(''status'', ''404'')])]])]])]"

definition listener_json :: "string \<Rightarrow> string \<Rightarrow> string \<Rightarrow> string \<Rightarrow> (string \<times> string) list \<Rightarrow> string" where
  "listener_json name host port routeConfig tlsConfig =
     obj [(''name'', quote (name @ ''_listener'')),
          (''address'', obj [(''socket_address'', obj [(''address'', quote host), (''port_value'', port)])]),
          (''filter_chains'',
            arr [obj ((''filters'',
              arr [obj [(''name'', quote ''envoy.filters.network.http_connection_manager''),
                        (''typedConfig'',
                          obj [(''@type'', quote ''type.googleapis.com/envoy.extensions.filters.network.http_connection_manager.v3.HttpConnectionManager''),
                               (''stat_prefix'', quote name),
                               (''codec_type'', quote ''HTTP1''),
                               (''route_config'', routeConfig),
                               (''http_filters'',
                                 arr [obj [(''name'', quote ''envoy.filters.http.router''),
                                           (''typedConfig'',
                                             obj [(''@type'', quote ''type.googleapis.com/envoy.extensions.filters.http.router.v3.Router'')])]])])]]) # tlsConfig)])]"

definition secrets_json :: "BootstrapTplArgs \<Rightarrow> string" where
  "secrets_json args =
     (if ta_PrometheusCertFile args = [] then []
      else Join
        [obj [(''name'', quote ''prometheus_cert''),
              (''tlsCertificate'',
                obj [(''certificateChain'', obj [(''filename'', quote (ta_PrometheusCertFile args))]),
                     (''privateKey'', obj [(''filename'', quote (ta_PrometheusKeyFile args))])])],
         obj [(''name'', quote ''prometheus_validation_context''),
              (''validationContext'',
                obj [if ta_PrometheusCAPath args \<noteq> []
                     then (''watchedDirectory'', obj [(''path'', quote (ta_PrometheusCAPath args))])
                     else (''trustedCa'', obj [(''filename'', quote (ta_PrometheusCAFile args))])])]] '','')"

text \<open>The path or prefix to match: with a leading slash and without a query.\<close>

definition match_value :: "lib \<Rightarrow> string \<Rightarrow> string" where
  "match_value lib matchValue =
     (let v = (if \<not> HasPrefix matchValue ''/'' then ''/'' @ matchValue else matchValue) in
      case l_ParseRequestURI lib v of
        Inl _ \<Rightarrow> v
      | Inr u \<Rightarrow> if u_RawQuery u \<noteq> [] then u_Path u else v)"

definition append_fragment :: "string \<Rightarrow> string \<Rightarrow> string" where
  "append_fragment old new = (if old = [] then new else old @ comma_nl @ new)"

definition generateListenerConfig :: "lib \<Rightarrow> string \<Rightarrow> string \<Rightarrow> string \<Rightarrow> string \<Rightarrow> string \<Rightarrow> string
    \<Rightarrow> BootstrapTplArgs \<Rightarrow> BootstrapTplArgs result" where
  "generateListenerConfig lib bindAddr name matchType matchValue prefixRewrite prometheusBackendPort args =
     (case SplitHostPort bindAddr of
        Inl e \<Rightarrow> Inl (Wrap (''invalid '' @ name @ '' bind address'') e)
      | Inr (host, port) \<Rightarrow>
          (let clusterPort = (if prometheusBackendPort \<noteq> [] then prometheusBackendPort else ta_AdminBindPort args);
               clusterName = (if prometheusBackendPort \<noteq> [] then ''prometheus_backend'' else selfAdminName);
               clusterJSON = cluster_json clusterName (ta_AdminBindAddress args) clusterPort;
               tlsConfig = (if ta_PrometheusCertFile args \<noteq> [] then tls_config_json else []);
               listenerJSON = listener_json name host port
                 (route_json matchType (match_value lib matchValue) clusterName prefixRewrite) tlsConfig;
               secretsJSON = secrets_json args
           in case containsSelfAdminCluster lib (ta_StaticClustersJSON args) of
                Inl e \<Rightarrow> Inl e
              | Inr selfAdminClusterExists \<Rightarrow>
                  Inr (args
                    \<lparr>ta_StaticClustersJSON :=
                       (if ta_StaticClustersJSON args = [] then clusterJSON
                        else if \<not> selfAdminClusterExists then ta_StaticClustersJSON args @ comma_nl @ clusterJSON
                        else ta_StaticClustersJSON args),
                     ta_StaticListenersJSON := append_fragment (ta_StaticListenersJSON args) listenerJSON,
                     ta_StaticSecretsJSON := append_fragment (ta_StaticSecretsJSON args) secretsJSON\<rparr>)))"

section \<open>Telemetry collector\<close>

definition telemetry_socket :: "BootstrapTplArgs \<Rightarrow> string \<Rightarrow> string" where
  "telemetry_socket args dir =
     (let ident = default_or (ta_Namespace args) @ ''_'' @ ta_ProxyID args; hash = RawURLEncoding (sha1_Sum ident)
      in path_Join dir (hash @ ''.sock''))"

definition appendTelemetryCollectorConfig :: "string \<Rightarrow> BootstrapTplArgs \<Rightarrow> BootstrapTplArgs" where
  "appendTelemetryCollectorConfig dir args =
     args
      \<lparr>ta_StatsSinksJSON := append_fragment (ta_StatsSinksJSON args)
         (obj [(''name'', quote ''envoy.stat_sinks.metrics_service''),
               (''typed_config'',
                 obj [(''@type'', quote ''type.googleapis.com/envoy.config.metrics.v3.MetricsServiceConfig''),
                      (''transport_api_version'', quote ''V3''),
                      (''grpc_service'', obj [(''envoy_grpc'', obj [(''cluster_name'', quote ''consul_telemetry_collector_loopback'')])]),
                      (''emit_tags_as_labels'', ''true'')])]),
       ta_StaticClustersJSON := append_fragment (ta_StaticClustersJSON args)
         (obj [(''name'', quote ''consul_telemetry_collector_loopback''),
               (''type'', quote ''STATIC''),
               (''http2_protocol_options'', obj []),
               (''loadAssignment'',
                 obj [(''clusterName'', quote ''consul_telemetry_collector_loopback''),
                      (''endpoints'',
                        arr [obj [(''lbEndpoints'',
                          arr [obj [(''endpoint'',
                            obj [(''address'', obj [(''pipe'', obj [(''path'', quote (telemetry_socket args dir))])])])]])]])])])\<rparr>"

section \<open>The whole configuration\<close>

text \<open>One listener, if its bind address is configured.\<close>

definition maybe_listener :: "lib \<Rightarrow> string \<Rightarrow> string \<Rightarrow> string \<Rightarrow> string \<Rightarrow> string \<Rightarrow> string
    \<Rightarrow> BootstrapTplArgs \<Rightarrow> BootstrapTplArgs result" where
  "maybe_listener lib bindAddr name matchType matchValue prefixRewrite backendPort args =
     (if bindAddr = [] then Inr args
      else generateListenerConfig lib bindAddr name matchType matchValue prefixRewrite backendPort args)"

definition ConfigureArgs :: "lib \<Rightarrow> BootstrapConfig \<Rightarrow> bool \<Rightarrow> BootstrapTplArgs \<Rightarrow> BootstrapTplArgs result" where
  "ConfigureArgs lib c omitDeprecatedTags args0 =
     (case generateStatsSinks lib c args0 of
        Inl e \<Rightarrow> Inl e
      | Inr args1 \<Rightarrow>
          (let args2 = args1\<lparr>ta_StatsConfigJSON :=
                 (if bc_StatsConfigJSON c \<noteq> [] then bc_StatsConfigJSON c
                  else formatStatsTags (generateStatsTags args1 (bc_StatsTags c) omitDeprecatedTags))\<rparr>;
               args3 = (if bc_StaticClustersJSON c \<noteq> [] then args2\<lparr>ta_StaticClustersJSON := bc_StaticClustersJSON c\<rparr> else args2);
               args4 = (if bc_StaticListenersJSON c \<noteq> [] then args3\<lparr>ta_StaticListenersJSON := bc_StaticListenersJSON c\<rparr> else args3)
           in case maybe_listener lib (bc_PrometheusBindAddr c) ''envoy_prometheus_metrics'' ''path''
                     (ta_PrometheusScrapePath args4) ''/stats/prometheus'' (ta_PrometheusBackendPort args4) args4 of
                Inl e \<Rightarrow> Inl e
              | Inr args5 \<Rightarrow>
                  (case maybe_listener lib (bc_StatsBindAddr c) ''envoy_metrics'' ''prefix'' ''/stats'' ''/stats'' [] args5 of
                     Inl e \<Rightarrow> Inl e
                   | Inr args6 \<Rightarrow>
                       (case maybe_listener lib (bc_ReadyBindAddr c) ''envoy_ready'' ''path'' ''/ready'' ''/ready'' [] args6 of
                          Inl e \<Rightarrow> Inl e
                        | Inr args7 \<Rightarrow>
                            (let args8 = (if bc_TracingConfigJSON c \<noteq> [] then args7\<lparr>ta_TracingConfigJSON := bc_TracingConfigJSON c\<rparr> else args7);
                                 args9 = (if bc_StatsFlushInterval c \<noteq> [] then args8\<lparr>ta_StatsFlushInterval := bc_StatsFlushInterval c\<rparr> else args8)
                             in Inr (if bc_TelemetryCollectorBindSocketDir c \<noteq> []
                                     then appendTelemetryCollectorConfig (bc_TelemetryCollectorBindSocketDir c) args9
                                     else args9))))))"

text \<open>The parts of the default template.\<close>

definition admin_json :: "BootstrapTplArgs \<Rightarrow> string" where
  "admin_json a =
     obj ((if ta_AdminAccessLogConfig a = [] then (''access_log_path'', quote (ta_AdminAccessLogPath a))
           else (''access_log'', arr (ta_AdminAccessLogConfig a)))
          # [(''address'', obj [(''socket_address'', obj [(''address'', quote (ta_AdminBindAddress a)), (''port_value'', ta_AdminBindPort a)])])])"

definition node_json :: "BootstrapTplArgs \<Rightarrow> string" where
  "node_json a =
     obj [(''cluster'', quote (ta_ProxyCluster a)), (''id'', quote (ta_ProxyID a)),
          (''metadata'',
            obj ((if ta_NodeName a \<noteq> [] then [(''node_name'', quote (ta_NodeName a))] else [])
                 @ [(''namespace'', quote (default_or (ta_Namespace a))), (''partition'', quote (default_or (ta_Partition a)))]))]"

definition agent_cluster_json :: "BootstrapTplArgs \<Rightarrow> string" where
  "agent_cluster_json a =
     obj ([(''name'', quote (ta_LocalAgentClusterName a)), (''ignore_health_on_host_removal'', ''false''),
           (''connect_timeout'', quote ''1s''), (''type'', quote ''STATIC'')]
          @ (if g_AgentTLS (ta_GRPC a)
             then [(''transport_socket'',
                     obj [(''name'', quote ''tls''),
                          (''typed_config'',
                            obj [(''@type'', quote ''type.googleapis.com/envoy.extensions.transport_sockets.tls.v3.UpstreamTlsContext''),
                                 (''common_tls_context'',
                                   obj [(''validation_context'', obj [(''trusted_ca'', obj [(''inline_string'', quote (ta_AgentCAPEM a))])])])])])]
             else [])
          @ [(''http2_protocol_options'', obj []),
             (''loadAssignment'',
               obj [(''clusterName'', quote (ta_LocalAgentClusterName a)),
                    (''endpoints'',
                      arr [obj [(''lbEndpoints'',
                        arr [obj [(''endpoint'',
                          obj [(''address'',
                            obj [if g_AgentSocket (ta_GRPC a) \<noteq> []
                                 then (''pipe'', obj [(''path'', quote (g_AgentSocket (ta_GRPC a)))])
                                 else (''socket_address'', obj [(''address'', quote (g_AgentAddress (ta_GRPC a))), (''port_value'', g_AgentPort (ta_GRPC a))])])])]])]])])])"

definition static_resources_json :: "BootstrapTplArgs \<Rightarrow> string" where
  "static_resources_json a =
     obj ((''clusters'', arr (agent_cluster_json a # (if ta_StaticClustersJSON a \<noteq> [] then [ta_StaticClustersJSON a] else [])))
          # (if ta_StaticListenersJSON a \<noteq> [] then [(''listeners'', arr [ta_StaticListenersJSON a])] else [])
          @ (if ta_StaticSecretsJSON a \<noteq> [] then [(''secrets'', arr [ta_StaticSecretsJSON a])] else []))"

definition ads_json :: string where
  "ads_json = obj [(''ads'', obj []), (''initial_fetch_timeout'', quote ''0s''), (''resource_api_version'', quote ''V3'')]"

definition dynamic_resources_json :: "BootstrapTplArgs \<Rightarrow> string" where
  "dynamic_resources_json a =
     obj [(''lds_config'', ads_json), (''cds_config'', ads_json),
          (''ads_config'',
            obj [(''api_type'', quote ''DELTA_GRPC''), (''transport_api_version'', quote ''V3''),
                 (''grpc_services'', obj [(''envoy_grpc'', obj [(''cluster_name'', quote (ta_LocalAgentClusterName a))])])])]"

definition bootstrapTemplate :: "BootstrapTplArgs \<Rightarrow> string" where
  "bootstrapTemplate a =
     obj ([(''admin'', admin_json a), (''node'', node_json a),
           (''layered_runtime'',
             obj [(''layers'', arr [obj [(''name'', quote ''base''),
                    (''static_layer'', obj [(''re2.max_program_size.error_level'', ''1048576'')])]])]),
           (''static_resources'', static_resources_json a)]
          @ (if ta_StatsSinksJSON a \<noteq> [] then [(''stats_sinks'', arr [ta_StatsSinksJSON a])] else [])
          @ (if ta_StatsConfigJSON a \<noteq> [] then [(''stats_config'', ta_StatsConfigJSON a)] else [])
          @ (if ta_StatsFlushInterval a \<noteq> [] then [(''stats_flush_interval'', quote (ta_StatsFlushInterval a))] else [])
          @ (if ta_TracingConfigJSON a \<noteq> [] then [(''tracing'', ta_TracingConfigJSON a)] else [])
          @ [(''dynamic_resources'', dynamic_resources_json a)])"

text \<open>The template to execute: the user's own, or the default one.\<close>

definition execute_template :: "lib \<Rightarrow> BootstrapConfig \<Rightarrow> BootstrapTplArgs \<Rightarrow> string result" where
  "execute_template lib c args =
     (if bc_OverrideJSONTpl c \<noteq> [] then l_Execute lib (bc_OverrideJSONTpl c) args else Inr (bootstrapTemplate args))"

definition GenerateJSON :: "lib \<Rightarrow> BootstrapConfig \<Rightarrow> BootstrapTplArgs \<Rightarrow> bool \<Rightarrow> string result" where
  "GenerateJSON lib c args omitDeprecatedTags =
     (if g_AgentTLS (ta_GRPC args) \<and> ta_AgentCAPEM args = []
      then Inl (Err ''envoy expects agent_ca_pem when agent_tls is true'')
      else case ConfigureArgs lib c omitDeprecatedTags args of
        Inl e \<Rightarrow> Inl e
      | Inr args' \<Rightarrow>
          (case execute_template lib c args' of
             Inl e \<Rightarrow> Inl e
           | Inr buf \<Rightarrow> l_Indent lib buf))"

section \<open>Well-formed fragments\<close>

text \<open>A text that denotes some JSON value, and a possibly empty comma-separated fragment.\<close>

definition valid :: "string \<Rightarrow> bool" where
  "valid s \<longleftrightarrow> (\<exists>v. denotes s v)"

definition fragment :: "string \<Rightarrow> bool" where
  "fragment s \<longleftrightarrow> s = [] \<or> (\<exists>vs. denotes_seq s vs)"

named_theorems json_intros \<open>rules that build valid JSON text\<close>

lemma valid_quote [json_intros]: "plain s \<Longrightarrow> valid (quote s)"
  unfolding valid_def by (blast intro: denotes_quote)

lemma valid_true [json_intros]: "valid ''true''" and valid_false [json_intros]: "valid ''false''"
  unfolding valid_def by (blast intro: d_true d_false)+

lemma valid_number: "number_text s \<Longrightarrow> valid s"
  unfolding valid_def by (blast intro: d_num)

lemma list_all2_choose: "list_all (\<lambda>x. \<exists>y. R x y) xs \<Longrightarrow> \<exists>ys. list_all2 R xs ys"
  by (induction xs) (auto intro: list_all2_Cons [THEN iffD2])

lemma valid_obj [json_intros]:
  assumes "list_all (\<lambda>kv. plain (fst kv) \<and> valid (snd kv)) kvs"
  shows "valid (obj kvs)"
proof -
  have "list_all (\<lambda>kv. \<exists>m. denotes_kv kv m) kvs"
    using assms by (auto simp: list_all_iff denotes_kv_def valid_def)
  then obtain ms where "list_all2 denotes_kv kvs ms" using list_all2_choose by blast
  then show ?thesis unfolding valid_def using denotes_obj by blast
qed

lemma valid_arr [json_intros]: "list_all valid xs \<Longrightarrow> valid (arr xs)"
  using list_all2_choose [of denotes xs] denotes_arr [of xs] unfolding valid_def by blast

lemma valid_seq: "valid s \<Longrightarrow> \<exists>vs. denotes_seq s vs"
  unfolding valid_def using seq_one by blast

lemma valid_seqs: "list_all valid xs \<Longrightarrow> list_all (\<lambda>s. \<exists>vs. denotes_seq s vs) xs"
  using valid_seq by (simp add: list_all_iff)

lemma valid_fragment: "valid s \<Longrightarrow> fragment s"
  unfolding valid_def fragment_def using seq_one by blast

lemma denotes_arr_fragments:
  assumes "list_all2 denotes_seq xs vss" and "xs \<noteq> []"
  shows "denotes (arr xs) (JArr (concat vss))"
proof -
  have "denotes_seq (Join xs '','') (concat vss)"
    using assms
  proof (induction xs vss rule: list_all2_induct)
    case (Cons x xs v vs)
    then show ?case by (cases xs) (auto intro: seq_append_aux(2))
  qed simp
  then show ?thesis unfolding arr_def by (rule d_arr)
qed

lemma valid_arr_fragment: "fragment s \<Longrightarrow> s \<noteq> [] \<Longrightarrow> valid (arr [s])"
  unfolding fragment_def valid_def using denotes_arr_fragments [of "[s]"] by auto

lemma fragment_append: "fragment a \<Longrightarrow> fragment b \<Longrightarrow> b \<noteq> [] \<Longrightarrow> fragment (append_fragment a b)"
  unfolding fragment_def append_fragment_def using seq_append by auto blast

lemma obj_not_Nil [simp]: "obj kvs \<noteq> []"
  by (simp add: obj_def)

lemma plain_keys [simp]: "plain ''name''" "plain ''address''" "plain ''port_value''" "plain ''socket_address''"
  "plain ''type''" "plain ''path''" "plain ''filename''" "plain ''prefix''"
  by (simp_all add: plain_def plain_char_def)

text \<open>The generator's own fragments.\<close>

lemma valid_cluster:
  "plain n \<Longrightarrow> plain a \<Longrightarrow> number_text p \<Longrightarrow> valid (cluster_json n a p)"
  unfolding cluster_json_def
  by (intro json_intros) (simp add: json_intros valid_number plain_def plain_char_def)

lemma valid_route:
  "plain t \<Longrightarrow> plain v \<Longrightarrow> plain n \<Longrightarrow> plain r \<Longrightarrow> valid (route_json t v n r)"
proof -
  assume p: "plain t" "plain v" "plain n" "plain r"
  have "number_text ''404''" by (rule num_int) (simp add: int_part_def digits_def is_digit_def)
  with p show ?thesis
    unfolding route_json_def
    by (intro json_intros) (simp add: json_intros valid_number plain_def plain_char_def)
qed

lemma tls_members_valid: "list_all (\<lambda>kv. plain (fst kv) \<and> valid (snd kv)) tls_config_json"
  unfolding tls_config_json_def by (simp add: json_intros plain_def plain_char_def)

lemma valid_listener:
  assumes "plain n" "plain h" "number_text p" "valid r" "list_all (\<lambda>kv. plain (fst kv) \<and> valid (snd kv)) tls"
  shows "valid (listener_json n h p r tls)"
  using assms unfolding listener_json_def
  by (intro json_intros) (simp add: json_intros valid_number plain_def plain_char_def)

lemma fragment_secrets:
  assumes "plain (ta_PrometheusCertFile a)" "plain (ta_PrometheusKeyFile a)" "plain (ta_PrometheusCAPath a)" "plain (ta_PrometheusCAFile a)"
  shows "fragment (secrets_json a)"
proof (cases "ta_PrometheusCertFile a = []")
  case False
  have "list_all valid
    [obj [(''name'', quote ''prometheus_cert''),
          (''tlsCertificate'', obj [(''certificateChain'', obj [(''filename'', quote (ta_PrometheusCertFile a))]),
             (''privateKey'', obj [(''filename'', quote (ta_PrometheusKeyFile a))])])],
     obj [(''name'', quote ''prometheus_validation_context''),
          (''validationContext'',
             obj [if ta_PrometheusCAPath a \<noteq> [] then (''watchedDirectory'', obj [(''path'', quote (ta_PrometheusCAPath a))])
                  else (''trustedCa'', obj [(''filename'', quote (ta_PrometheusCAFile a))])])]]"
    using assms by (simp add: json_intros plain_def plain_char_def)
  from list_all2_choose [of denotes, OF this [unfolded valid_def]] Join_seq
  show ?thesis unfolding fragment_def secrets_json_def using False by force
qed (simp add: secrets_json_def fragment_def)

section \<open>Well-formed inputs\<close>

text \<open>
  Arguments that can be written into JSON text as they are: strings without quotes,
  backslashes and control characters, ports that are numbers, and JSON where the template
  expects JSON.
\<close>

definition plain_args :: "BootstrapTplArgs \<Rightarrow> bool" where
  "plain_args a \<longleftrightarrow>
     list_all plain [g_AgentAddress (ta_GRPC a), g_AgentSocket (ta_GRPC a), ta_AgentCAPEM a, ta_ProxyCluster a, ta_ProxyID a,
       ta_NodeName a, ta_ProxySourceService a, ta_AdminAccessLogPath a, ta_AdminBindAddress a, ta_LocalAgentClusterName a,
       ta_StatsFlushInterval a, ta_Namespace a, ta_Partition a, ta_Datacenter a, ta_PrometheusCAFile a, ta_PrometheusCAPath a,
       ta_PrometheusCertFile a, ta_PrometheusKeyFile a]
     \<and> number_text (ta_AdminBindPort a) \<and> (g_AgentSocket (ta_GRPC a) = [] \<longrightarrow> number_text (g_AgentPort (ta_GRPC a)))
     \<and> (ta_PrometheusBackendPort a = [] \<or> number_text (ta_PrometheusBackendPort a))
     \<and> list_all valid (ta_AdminAccessLogConfig a)"

definition json_args :: "BootstrapTplArgs \<Rightarrow> bool" where
  "json_args a \<longleftrightarrow>
     fragment (ta_StaticClustersJSON a) \<and> fragment (ta_StaticListenersJSON a) \<and> fragment (ta_StaticSecretsJSON a)
     \<and> fragment (ta_StatsSinksJSON a) \<and> (ta_StatsConfigJSON a = [] \<or> valid (ta_StatsConfigJSON a))
     \<and> (ta_TracingConfigJSON a = [] \<or> valid (ta_TracingConfigJSON a))
     \<and> (ta_StaticSecretsJSON a \<noteq> [] \<longrightarrow> ta_PrometheusCertFile a \<noteq> [])"

text \<open>The user's part: JSON fragments, tags, and addresses that resolve to plain hosts and numeric ports.\<close>

definition sink_ok :: "lib \<Rightarrow> string \<Rightarrow> bool" where
  "sink_ok lib addr \<longleftrightarrow>
     (case l_Parse lib (resolve_sink_addr (l_Getenv lib) addr) of
        Inl _ \<Rightarrow> True
      | Inr u \<Rightarrow> plain (u_Hostname u) \<and> plain (u_Path u) \<and> (u_Scheme u = ''udp'' \<longrightarrow> number_text (u_Port u)))"

definition bind_ok :: "string \<Rightarrow> bool" where
  "bind_ok addr \<longleftrightarrow> (case SplitHostPort addr of Inl _ \<Rightarrow> True | Inr (h, p) \<Rightarrow> plain h \<and> number_text p)"

definition good_config :: "lib \<Rightarrow> BootstrapConfig \<Rightarrow> BootstrapTplArgs \<Rightarrow> bool" where
  "good_config lib c a \<longleftrightarrow>
     fragment (bc_StaticClustersJSON c) \<and> fragment (bc_StaticListenersJSON c) \<and> fragment (bc_StatsSinksJSON c)
     \<and> (bc_StatsConfigJSON c = [] \<or> valid (bc_StatsConfigJSON c)) \<and> (bc_TracingConfigJSON c = [] \<or> valid (bc_TracingConfigJSON c))
     \<and> plain (bc_StatsFlushInterval c) \<and> list_all plain (bc_StatsTags c)
     \<and> sink_ok lib (bc_StatsdURL c) \<and> sink_ok lib (bc_DogstatsdURL c)
     \<and> bind_ok (bc_PrometheusBindAddr c) \<and> bind_ok (bc_StatsBindAddr c) \<and> bind_ok (bc_ReadyBindAddr c)
     \<and> plain (match_value lib (ta_PrometheusScrapePath a)) \<and> plain (match_value lib ''/stats'') \<and> plain (match_value lib ''/ready'')
     \<and> plain (bc_TelemetryCollectorBindSocketDir c)"

text \<open>The socket of the telemetry collector is a file in the configured directory, named by 27 characters of the URL alphabet.\<close>

definition collector_file :: "BootstrapTplArgs \<Rightarrow> string" where
  "collector_file a = RawURLEncoding (sha1_Sum (default_or (ta_Namespace a) @ ''_'' @ ta_ProxyID a)) @ ''.sock''"

lemma collector_file_chars: "set (collector_file a) \<subseteq> set b64_alphabet \<union> {CHR ''.''}"
  using RawURLEncoding_chars by (fastforce simp: collector_file_def b64_alphabet_def)

lemma telemetry_socket_file:
  assumes "dir \<noteq> []"
  shows "telemetry_socket a dir =
    (if path_Clean dir = ''/'' then CHR ''/'' # collector_file a else if path_Clean dir = ''.'' then collector_file a
     else path_Clean dir @ CHR ''/'' # collector_file a)"
    "length (collector_file a) = 32"
proof -
  show l: "length (collector_file a) = 32" by (simp add: collector_file_def length_RawURLEncoding)
  have "CHR ''/'' \<notin> set b64_alphabet \<union> {CHR ''.''}" by (simp add: b64_alphabet_def)
  then have "file_name (collector_file a)" using collector_file_chars [of a] l by (auto simp: file_name_def)
  from path_Join_file [OF assms this] show "telemetry_socket a dir =
    (if path_Clean dir = ''/'' then CHR ''/'' # collector_file a else if path_Clean dir = ''.'' then collector_file a
     else path_Clean dir @ CHR ''/'' # collector_file a)" by (simp add: telemetry_socket_def collector_file_def Let_def)
qed

lemma plain_telemetry_socket [simp]: "plain dir \<Longrightarrow> plain (telemetry_socket a dir)"
proof -
  have "list_all plain_char (''/.'' @ b64_alphabet)" by (simp add: b64_alphabet_def plain_char_def)
  then show "plain dir \<Longrightarrow> plain (telemetry_socket a dir)"
    using path_Join_chars [of dir "collector_file a"] collector_file_chars [of a]
    by (fastforce simp: plain_def list_all_iff telemetry_socket_def collector_file_def Let_def)
qed

lemma plain_default_or: "plain s \<Longrightarrow> plain (default_or s)"
  by (simp add: default_or_def plain_def plain_char_def)

lemma plain_literals [simp]:
  "plain ''self_admin''" "plain ''prometheus_backend''" "plain ''envoy_prometheus_metrics''" "plain ''envoy_metrics''"
  "plain ''envoy_ready''" "plain ''/stats''" "plain ''/ready''" "plain ''/stats/prometheus''" "plain selfAdminName"
  by (simp_all add: plain_def plain_char_def selfAdminName_def)

lemma valid_sink:
  assumes "generateStatsSinkJSON lib n t addr = Inr j" and "sink_ok lib addr" and "plain n" and "plain t"
  shows "valid j"
proof -
  obtain u where u: "l_Parse lib (resolve_sink_addr (l_Getenv lib) addr) = Inr u"
    using assms(1) by (auto simp: generateStatsSinkJSON_def Let_def split: sum.split_asm)
  have ok: "plain (u_Hostname u)" "plain (u_Path u)" "u_Scheme u = ''udp'' \<Longrightarrow> number_text (u_Port u)"
    using assms(2) u by (auto simp: sink_ok_def)
  have k: "plain ''typedConfig''" "plain ''@type''" "plain ''pipe''" by (simp_all add: plain_def plain_char_def)
  show ?thesis
    using assms(1,3,4) u ok k
    by (auto simp: generateStatsSinkJSON_def Let_def json_intros valid_number split: if_split_asm intro!: valid_obj)
qed

lemma valid_sink_if_set:
  assumes "sink_if_set lib n t addr = Inr xs" and "sink_ok lib addr" and "plain n" and "plain t"
  shows "list_all valid xs"
  using assms valid_sink [OF _ assms(2-4)] by (auto simp: sink_if_set_def split: if_split_asm sum.split_asm)

lemma generateStatsSinks_json:
  assumes "generateStatsSinks lib c a = Inr a'" and "good_config lib c x" and "json_args a"
  shows "\<exists>s. a' = a\<lparr>ta_StatsSinksJSON := s\<rparr> \<and> fragment s"
proof -
  let ?n1 = "''envoy.stat_sinks.statsd''" and ?t1 = "''type.googleapis.com/envoy.config.metrics.v3.StatsdSink''"
  let ?n2 = "''envoy.stat_sinks.dog_statsd''" and ?t2 = "''type.googleapis.com/envoy.config.metrics.v3.DogStatsdSink''"
  obtain x1 x2 where x: "sink_if_set lib ?n1 ?t1 (bc_StatsdURL c) = Inr x1" "sink_if_set lib ?n2 ?t2 (bc_DogstatsdURL c) = Inr x2"
    using assms(1) unfolding generateStatsSinks_def by (auto split: sum.split_asm)
  let ?sinks = "x1 @ x2 @ (if bc_StatsSinksJSON c = [] then [] else [bc_StatsSinksJSON c])"
  have a': "a' = (if length ?sinks > 0 then a\<lparr>ta_StatsSinksJSON := Join ?sinks comma_nl\<rparr> else a)"
    using assms(1) x unfolding generateStatsSinks_def by (simp add: Let_def)
  have ok: "sink_ok lib (bc_StatsdURL c)" "sink_ok lib (bc_DogstatsdURL c)" "fragment (bc_StatsSinksJSON c)"
    using assms(2) by (simp_all add: good_config_def)
  have "list_all valid x1" by (rule valid_sink_if_set [OF x(1) ok(1)]) (simp_all add: plain_def plain_char_def)
  moreover have "list_all valid x2" by (rule valid_sink_if_set [OF x(2) ok(2)]) (simp_all add: plain_def plain_char_def)
  ultimately have "list_all (\<lambda>s. \<exists>vs. denotes_seq s vs) ?sinks"
    using ok(3) valid_seqs by (auto simp: fragment_def)
  from list_all2_choose [OF this] obtain vss where "list_all2 denotes_seq ?sinks vss" by blast
  then have "fragment (Join ?sinks comma_nl)" if "?sinks \<noteq> []"
    using Join_seq_nl that unfolding fragment_def by blast
  note frag = this
  show ?thesis
  proof (cases "?sinks = []")
    case True
    then have "a' = a\<lparr>ta_StatsSinksJSON := ta_StatsSinksJSON a\<rparr>" unfolding a' by simp
    moreover have "fragment (ta_StatsSinksJSON a)" using assms(3) by (simp add: json_args_def)
    ultimately show ?thesis by blast
  next
    case False
    then have "a' = a\<lparr>ta_StatsSinksJSON := Join ?sinks comma_nl\<rparr>" unfolding a' by (intro if_P) simp
    with frag [OF False] show ?thesis by blast
  qed
qed

lemma plain_lower: "plain s \<Longrightarrow> plain (ToLower s)"
proof -
  have "plain_char (lower_char c)" if "plain_char c" for c
  proof (cases "65 \<le> (of_char c :: nat) \<and> (of_char c :: nat) \<le> 90")
    case True
    define n where "n = (of_char c :: nat)"
    have n: "65 \<le> n" "n \<le> 90" using True by (simp_all add: n_def)
    then have v: "(of_char (char_of (n + 32) :: char) :: nat) = n + 32" by (simp add: of_char_of)
    have "char_of (n + 32) \<noteq> d" if "(of_char d :: nat) \<noteq> n + 32" for d
      using that v by metis
    from this [of "CHR 0x22"] this [of "CHR 0x5C"]
    have "char_of (n + 32) \<noteq> CHR 0x22 \<and> char_of (n + 32) \<noteq> CHR 0x5C \<and> 32 \<le> (of_char (char_of (n + 32) :: char) :: nat)"
      using n v by simp
    then show ?thesis using True by (simp add: lower_char_def plain_char_def n_def)
  next
    case False
    then show ?thesis using that by (auto simp: lower_char_def)
  qed
  moreover assume "plain s"
  ultimately show ?thesis by (simp add: plain_def ToLower_def list_all_iff)
qed

lemma plain_take: "plain s \<Longrightarrow> plain (take n s)" and plain_drop: "plain s \<Longrightarrow> plain (drop n s)"
  by (auto simp: plain_def list_all_iff dest: in_set_takeD in_set_dropD)

lemma valid_tag: "plain k \<Longrightarrow> plain v \<Longrightarrow> valid (tag_json (k, v))"
  by (simp add: tag_json_def json_intros plain_def plain_char_def)

lemma parse_tag_plain: "plain t \<Longrightarrow> plain (fst (parse_tag t)) \<and> plain (snd (parse_tag t))"
  by (auto simp: parse_tag_def plain_lower plain_take plain_drop split: option.split) (simp add: plain_def plain_char_def)

lemma marshal_valid: "list_all (\<lambda>c. plain_char c \<or> c = CHR 0x5C \<or> c = CHR 0x22) s \<Longrightarrow> valid (marshal_string s)"
proof -
  assume s: "list_all (\<lambda>c. plain_char c \<or> c = CHR 0x5C \<or> c = CHR 0x22) s"
  then have "string_body (concat (map (\<lambda>c. if c \<in> {CHR 0x5C, CHR 0x22} then [CHR 0x5C, c] else [c]) s)) s"
    by (induction s) (auto intro: string_body.intros)
  then show ?thesis unfolding valid_def marshal_string_def quote_def using d_str by blast
qed

lemma tag_rules_marshal:
  "list_all (\<lambda>(n, r). list_all (\<lambda>c. plain_char c \<or> c = CHR 0x5C \<or> c = CHR 0x22) n
     \<and> list_all (\<lambda>c. plain_char c \<or> c = CHR 0x5C \<or> c = CHR 0x22) r) (tag_rules @ deprecated_tag_rules)"
  by (simp add: tag_rules_def deprecated_tag_rules_def re_tpl_def reSegment_def plain_char_def)

lemma resource_tags_valid: "list_all valid (resourceTagSpecifiers omit)"
proof -
  have k: "plain ''regex''" "plain ''tag_name''" by (simp_all add: plain_def plain_char_def)
  have "valid (obj [(''regex'', marshal_string r), (''tag_name'', marshal_string n)])"
    if "(n, r) \<in> set (tag_rules @ deprecated_tag_rules)" for n r
  proof -
    have "list_all (\<lambda>c. plain_char c \<or> c = CHR 0x5C \<or> c = CHR 0x22) n \<and> list_all (\<lambda>c. plain_char c \<or> c = CHR 0x5C \<or> c = CHR 0x22) r"
      using bspec [OF tag_rules_marshal [unfolded list_all_iff [of _ "tag_rules @ deprecated_tag_rules"]] that] by simp
    with k show ?thesis by (intro valid_obj) (simp add: marshal_valid)
  qed
  then show ?thesis by (auto simp: resourceTagSpecifiers_def Let_def list_all_iff)
qed

lemma stats_tags_valid:
  assumes "plain_args a" and "list_all plain tags"
  shows "list_all valid (generateStatsTags a tags omit)"
proof -
  have "list_all (\<lambda>kv. plain (fst kv) \<and> plain (snd kv)) (default_tags a)"
    using assms(1) by (simp add: plain_args_def default_tags_def plain_default_or) (simp add: plain_def plain_char_def)
  then have "list_all valid (map tag_json (filter P (default_tags a)))" for P
    using valid_tag by (auto simp: list_all_iff)
  moreover have "list_all valid (map tag_json (map parse_tag tags))"
    using assms(2) parse_tag_plain valid_tag by (simp add: list_all_iff) (metis prod.collapse)
  ultimately show ?thesis
    using resource_tags_valid [of omit] by (simp add: generateStatsTags_def Let_def)
qed

lemma formatStatsTags_valid: "list_all valid tags \<Longrightarrow> formatStatsTags tags = [] \<or> valid (formatStatsTags tags)"
proof (cases "tags = []")
  case False
  assume "list_all valid tags"
  then have "list_all (\<lambda>s. \<exists>vs. denotes_seq s vs) tags"
    by (rule valid_seqs)
  from list_all2_choose [OF this] Join_seq_nl False obtain vs where "denotes_seq (Join tags comma_nl) vs" by blast
  then have "valid (CHR ''['' # Join tags comma_nl @ [CHR '']''])"
    unfolding valid_def using d_arr by blast
  with False show ?thesis
    by (simp add: formatStatsTags_def json_intros plain_def plain_char_def)
qed (simp add: formatStatsTags_def)

lemma listener_frame:
  assumes "generateListenerConfig lib ba n mt mv pr bp a = Inr a'"
  shows "\<exists>x y z. a' = a\<lparr>ta_StaticClustersJSON := x, ta_StaticListenersJSON := y, ta_StaticSecretsJSON := z\<rparr>"
  using assms unfolding generateListenerConfig_def
  by (simp add: Let_def split: sum.split_asm prod.split_asm) blast

lemma generateListenerConfig_json:
  assumes gen: "generateListenerConfig lib ba n mt mv pr bp a = Inr a'" and json: "json_args a" and pa: "plain_args a"
    and ba: "bind_ok ba" and pl: "plain n" "plain mt" "plain (match_value lib mv)" "plain pr" and bp: "bp = [] \<or> number_text bp"
  shows "json_args a'"
proof -
  obtain host port ex where sp: "SplitHostPort ba = Inr (host, port)"
    and ex: "containsSelfAdminCluster lib (ta_StaticClustersJSON a) = Inr ex"
    using gen unfolding generateListenerConfig_def by (auto simp: Let_def split: sum.split_asm prod.split_asm)
  let ?cn = "if bp \<noteq> [] then ''prometheus_backend'' else selfAdminName"
  let ?cp = "if bp \<noteq> [] then bp else ta_AdminBindPort a"
  let ?cluster = "cluster_json ?cn (ta_AdminBindAddress a) ?cp"
  let ?listener = "listener_json n host port (route_json mt (match_value lib mv) ?cn pr)
    (if ta_PrometheusCertFile a \<noteq> [] then tls_config_json else [])"
  have a': "a' = a
      \<lparr>ta_StaticClustersJSON := (if ta_StaticClustersJSON a = [] then ?cluster
         else if \<not> ex then ta_StaticClustersJSON a @ comma_nl @ ?cluster else ta_StaticClustersJSON a),
       ta_StaticListenersJSON := append_fragment (ta_StaticListenersJSON a) ?listener,
       ta_StaticSecretsJSON := append_fragment (ta_StaticSecretsJSON a) (secrets_json a)\<rparr>"
    using gen sp ex unfolding generateListenerConfig_def by (simp add: Let_def)
  have hp: "plain host" "number_text port" using ba sp by (auto simp: bind_ok_def)
  have c: "valid ?cluster" using pa bp by (intro valid_cluster) (auto simp: plain_args_def)
  have l: "valid ?listener"
    using pl hp tls_members_valid by (intro valid_listener valid_route) auto
  have lne: "?listener \<noteq> []" by (simp add: listener_json_def)
  have clusters: "fragment (ta_StaticClustersJSON a')"
    using a' json fragment_append [OF _ valid_fragment [OF c], of "ta_StaticClustersJSON a"]
    by (auto simp: json_args_def append_fragment_def cluster_json_def)
  have listeners: "fragment (ta_StaticListenersJSON a')"
    using a' json fragment_append [OF _ valid_fragment [OF l] lne, of "ta_StaticListenersJSON a"] by (simp add: json_args_def)
  have "fragment (secrets_json a)" using pa by (intro fragment_secrets) (auto simp: plain_args_def)
  moreover have "ta_StaticSecretsJSON a \<noteq> [] \<Longrightarrow> secrets_json a \<noteq> []"
    using json by (simp add: json_args_def secrets_json_def)
  ultimately have secrets: "fragment (ta_StaticSecretsJSON a')"
    using a' json fragment_append [of "ta_StaticSecretsJSON a" "secrets_json a"]
    by (cases "ta_StaticSecretsJSON a = []") (auto simp: json_args_def append_fragment_def)
  have "ta_StaticSecretsJSON a' \<noteq> [] \<longrightarrow> ta_PrometheusCertFile a' \<noteq> []"
    using a' json by (auto simp: json_args_def append_fragment_def secrets_json_def)
  with clusters listeners secrets show ?thesis
    using a' json by (simp add: json_args_def)
qed

end
