(* ===== verification/Json_Parser.thy ===== *)
theory Json_Parser
  imports Json_Text
begin

text \<open>
  A recursive descent parser for JSON text, sound and complete for the grammar of \<open>Json_Text\<close>: it
  accepts exactly the texts that denote a value, and gives that value. So a text denotes at most one value,
  and the names of the clusters in a fragment can be computed from it.
\<close>

section \<open>The parser\<close>

definition ws_char :: "char \<Rightarrow> bool" where
  "ws_char c \<longleftrightarrow> c \<in> {CHR '' '', CHR 0x09, CHR 0x0A, CHR 0x0D}"

abbreviation skip :: "string \<Rightarrow> string" where
  "skip \<equiv> dropWhile ws_char"

definition num_char :: "char \<Rightarrow> bool" where
  "num_char c \<longleftrightarrow> is_digit c \<or> c \<in> {CHR ''-'', CHR ''+'', CHR ''.'', CHR ''e'', CHR ''E''}"

lemma unicode_escape_Some:
  "unicode_escape s = Some (n, r) \<longleftrightarrow> (\<exists>a b c d. s = CHR 0x5C # CHR ''u'' # a # b # c # d # r \<and> hex4 a b c d = Some n)"
  by (cases s rule: unicode_escape.cases) auto

lemma read_unicode_shorter: "read_unicode s = Some (b, r) \<Longrightarrow> length r < length s"
  by (auto simp: read_unicode_def unicode_escape_Some split: option.split_asm if_split_asm)

function parse_body :: "string \<Rightarrow> (string \<times> string) option" where
  "parse_body s =
     (case s of
        [] \<Rightarrow> None
      | c # t \<Rightarrow>
          if c = CHR 0x22 then Some ([], t)
          else if c = CHR 0x5C then
            (case read_unicode s of
               Some (b, r) \<Rightarrow> map_option (apfst ((@) b)) (parse_body r)
             | None \<Rightarrow>
                 (case t of
                    [] \<Rightarrow> None
                  | d # u \<Rightarrow>
                      (case short_escape d of
                         None \<Rightarrow> None
                       | Some e \<Rightarrow> map_option (apfst (Cons e)) (parse_body u))))
          else if plain_char c then map_option (apfst (Cons c)) (parse_body t)
          else None)"
  by pat_completeness auto
termination
  by (relation "measure length") (auto dest: read_unicode_shorter)

declare parse_body.simps [simp del]

lemma parse_body_simps [simp]:
  "parse_body [] = None" "parse_body (CHR 0x22 # t) = Some ([], t)"
  "c \<noteq> CHR 0x22 \<Longrightarrow> c \<noteq> CHR 0x5C \<Longrightarrow>
     parse_body (c # t) = (if plain_char c then map_option (apfst (Cons c)) (parse_body t) else None)"
  "read_unicode (CHR 0x5C # t) = Some (b, r) \<Longrightarrow> parse_body (CHR 0x5C # t) = map_option (apfst ((@) b)) (parse_body r)"
  "read_unicode (CHR 0x5C # d # u) = None \<Longrightarrow>
     parse_body (CHR 0x5C # d # u) = (case short_escape d of None \<Rightarrow> None | Some e \<Rightarrow> map_option (apfst (Cons e)) (parse_body u))"
  by (simp_all add: parse_body.simps split del: if_split)

definition parse_scalar :: "string \<Rightarrow> (json \<times> string) option" where
  "parse_scalar s =
     (if take 4 s = ''null'' then Some (JNull, drop 4 s)
      else if take 4 s = ''true'' then Some (JBool True, drop 4 s)
      else if take 5 s = ''false'' then Some (JBool False, drop 5 s)
      else if number_text (takeWhile num_char s) then Some (JNum (takeWhile num_char s), dropWhile num_char s)
      else None)"

text \<open>The first argument bounds the nesting and the number of elements; the length of the text is enough.\<close>

fun parse_value :: "nat \<Rightarrow> string \<Rightarrow> (json \<times> string) option"
  and parse_seq :: "nat \<Rightarrow> string \<Rightarrow> (json list \<times> string) option"
  and parse_members :: "nat \<Rightarrow> string \<Rightarrow> ((string \<times> json) list \<times> string) option" where
  "parse_value 0 s = None"
| "parse_value (Suc n) s =
     (case s of
        [] \<Rightarrow> None
      | c # r \<Rightarrow>
          if c = CHR 0x22 then map_option (\<lambda>(v, t). (JStr v, t)) (parse_body r)
          else if c = CHR ''['' then
            (if take 1 (skip r) = '']'' then Some (JArr [], tl (skip r))
             else map_option (\<lambda>(vs, t). (JArr vs, t)) (parse_seq n r))
          else if c = CHR ''{'' then
            (if take 1 (skip r) = ''}'' then Some (JObj [], tl (skip r))
             else map_option (\<lambda>(ms, t). (JObj ms, t)) (parse_members n r))
          else parse_scalar s)"
| "parse_seq 0 s = None"
| "parse_seq (Suc n) s =
     (case parse_value n (skip s) of
        None \<Rightarrow> None
      | Some (v, t) \<Rightarrow>
          (case skip t of
             [] \<Rightarrow> None
           | c # u \<Rightarrow>
               if c = CHR '','' then map_option (\<lambda>(vs, w). (v # vs, w)) (parse_seq n u)
               else if c = CHR '']'' then Some ([v], u) else None))"
| "parse_members 0 s = None"
| "parse_members (Suc n) s =
     (case skip s of
        [] \<Rightarrow> None
      | q # k \<Rightarrow>
          if q \<noteq> CHR 0x22 then None
          else (case parse_body k of
                  None \<Rightarrow> None
                | Some (key, t) \<Rightarrow>
                    if take 1 (skip t) \<noteq> '':'' then None
                    else (case parse_value n (skip (tl (skip t))) of
                            None \<Rightarrow> None
                          | Some (v, t) \<Rightarrow>
                              (case skip t of
                                 [] \<Rightarrow> None
                               | c # u \<Rightarrow>
                                   if c = CHR '','' then map_option (\<lambda>(ms, w). ((key, v) # ms, w)) (parse_members n u)
                                   else if c = CHR ''}'' then Some ([(key, v)], u) else None))))"

definition parse_json :: "string \<Rightarrow> json option" where
  "parse_json s =
     (case parse_value (2 * length s + 1) (skip s) of
        None \<Rightarrow> None
      | Some (v, t) \<Rightarrow> if skip t = [] then Some v else None)"

section \<open>Completeness\<close>

text \<open>What may follow a value: anything a number cannot be continued with.\<close>

definition ends_value :: "string \<Rightarrow> bool" where
  "ends_value r \<longleftrightarrow> (case r of [] \<Rightarrow> True | c # _ \<Rightarrow> \<not> num_char c)"

lemma is_ws_chars: "is_ws w \<longleftrightarrow> list_all ws_char w"
  by (simp add: is_ws_def ws_char_def list_all_iff)

lemma skip_ws: "is_ws w \<Longrightarrow> skip (w @ s) = skip s"
  by (induction w) (simp_all add: is_ws_chars)

lemma ws_not_num: "ws_char c \<Longrightarrow> \<not> num_char c"
  by (auto simp: ws_char_def num_char_def is_digit_def)

lemma ends_ws: "is_ws w \<Longrightarrow> ends_value r \<Longrightarrow> ends_value (w @ r)"
  by (cases w) (auto simp: ends_value_def is_ws_chars ws_not_num)

lemma exp_part_chars: "exp_part s \<Longrightarrow> list_all num_char s"
  by (cases s; cases "tl s") (auto simp: exp_part_def digits_def num_char_def list_all_iff split: if_split_asm)

lemma digits_num_char: "list_all is_digit s \<Longrightarrow> list_all num_char s"
  by (auto simp: list_all_iff num_char_def)

lemma split_digits: "list_all num_char (dropWhile is_digit s) \<Longrightarrow> list_all num_char s"
proof -
  assume "list_all num_char (dropWhile is_digit s)"
  moreover have "list_all num_char (takeWhile is_digit s)"
    by (rule digits_num_char) (auto simp: list_all_iff dest: set_takeWhileD)
  ultimately show ?thesis using list_all_append [of num_char "takeWhile is_digit s" "dropWhile is_digit s"] by simp
qed

lemma frac_exp_chars:
  assumes "frac_exp_part s"
  shows "list_all num_char s"
proof (cases "s \<noteq> [] \<and> hd s = CHR ''.''")
  case True
  then obtain t where s: "s = CHR ''.'' # t" by (cases s) auto
  with assms have "list_all num_char (dropWhile is_digit t)" by (auto simp: frac_exp_part_def intro: exp_part_chars)
  then show ?thesis using split_digits s by (simp add: num_char_def)
next
  case False
  with assms show ?thesis unfolding frac_exp_part_def by (intro exp_part_chars) (simp only: if_False)
qed

lemma number_chars:
  assumes "number_text s"
  shows "list_all num_char s"
proof (cases "s \<noteq> [] \<and> hd s = CHR ''-''")
  case True
  then obtain t where s: "s = CHR ''-'' # t" by (cases s) auto
  with assms have "frac_exp_part (dropWhile is_digit t)" by (simp add: number_text_def)
  with s show ?thesis using split_digits [OF frac_exp_chars] by (simp add: num_char_def)
next
  case False
  with assms have "frac_exp_part (dropWhile is_digit s)" unfolding number_text_def Let_def by (simp only: if_False)
  then show ?thesis by (rule split_digits [OF frac_exp_chars])
qed

lemma number_head:
  assumes "number_text s"
  shows "\<exists>c t. s = c # t \<and> (is_digit c \<or> c = CHR ''-'')"
proof (cases s)
  case Nil
  with assms show ?thesis by (simp add: number_text_def int_part_def digits_def)
next
  case (Cons c t)
  with assms show ?thesis
    by (cases "c = CHR ''-''"; cases "is_digit c") (auto simp: number_text_def int_part_def digits_def)
qed

lemma parse_number:
  assumes "number_text s" and "ends_value r"
  shows "parse_scalar (s @ r) = Some (JNum s, r)"
proof -
  obtain c t where s: "s = c # t" "is_digit c \<or> c = CHR ''-''" using number_head [OF assms(1)] by blast
  then have "c \<noteq> CHR ''n''" "c \<noteq> CHR ''t''" "c \<noteq> CHR ''f''" by (auto simp: is_digit_def)
  then have k: "take 4 (s @ r) \<noteq> ''null''" "take 4 (s @ r) \<noteq> ''true''" "take 5 (s @ r) \<noteq> ''false''" using s by auto
  have all: "\<forall>x\<in>set s. num_char x" using number_chars [OF assms(1)] by (simp add: list_all_iff)
  have "takeWhile num_char r = []" "dropWhile num_char r = r"
    using assms(2) by (cases r; simp add: ends_value_def)+
  then have "takeWhile num_char (s @ r) = s" "dropWhile num_char (s @ r) = r" using all by simp_all
  with k assms(1) show ?thesis unfolding parse_scalar_def by simp
qed

text \<open>A quote ends an escape: what follows a string does not change how it is read.\<close>

lemma hex_val_quote [simp]: "hex_val CHR 0x22 = None"
  by (simp add: hex_val_def)

lemma hex4_quote [simp]: "hex4 CHR 0x22 b c d = None" "hex4 a CHR 0x22 c d = None" "hex4 a b CHR 0x22 d = None" "hex4 a b c CHR 0x22 = None"
  by (simp_all add: hex4_def split: option.split)

lemma unicode_escape_quote:
  "unicode_escape (s @ CHR 0x22 # r) = map_option (\<lambda>(n, q). (n, q @ CHR 0x22 # r)) (unicode_escape s)"
proof (cases s rule: unicode_escape.cases)
  case (1 b u c1 c2 c3 c4 q)
  then show ?thesis by (simp add: option.map_comp comp_def)
qed (cases r rule: unicode_escape.cases; auto)+

lemma read_unicode_quote:
  "read_unicode (s @ CHR 0x22 # r) = map_option (apsnd (\<lambda>q. q @ CHR 0x22 # r)) (read_unicode s)"
  by (auto simp: read_unicode_def unicode_escape_quote split: option.split)

lemma short_escape_not_unicode: "short_escape d = Some e \<Longrightarrow> read_unicode (CHR 0x5C # d # s) = None"
  by (auto simp: read_unicode_def unicode_escape_Some split: option.split if_split_asm)

lemma parse_body_complete: "string_body s v \<Longrightarrow> parse_body (s @ CHR 0x22 # r) = Some (v, r)"
proof (induction rule: string_body.induct)
  case (body_unicode s b q v)
  then have "read_unicode (s @ CHR 0x22 # r) = Some (b, q @ CHR 0x22 # r)" by (simp add: read_unicode_quote)
  moreover obtain t where "s = CHR 0x5C # t" using body_unicode(1) by (auto simp: read_unicode_def unicode_escape_Some split: option.split_asm)
  ultimately show ?case using body_unicode(3) by simp
next
  case (body_escape c d s v)
  then show ?case
    by (simp add: short_escape_not_unicode del: short_escape.simps)
next
  case (body_plain c s v)
  moreover from this(1) have "c \<noteq> CHR 0x22" "c \<noteq> CHR 0x5C" by (simp_all add: plain_char_def)
  ultimately show ?case by simp
qed simp

text \<open>A value starts with a character that neither is whitespace nor closes a list.\<close>

lemma value_head_aux:
  "denotes s v \<Longrightarrow> \<exists>c t. s = c # t \<and> \<not> ws_char c \<and> c \<noteq> CHR '']'' \<and> c \<noteq> CHR ''}''"
  "denotes_seq q vs \<Longrightarrow> True" "denotes_members m ms \<Longrightarrow> True"
proof (induction rule: denotes_denotes_seq_denotes_members.inducts)
  case (d_num s)
  from number_head [OF this] show ?case by (auto simp: ws_char_def is_digit_def)
qed (auto simp: ws_char_def)

lemma skip_value: "denotes s v \<Longrightarrow> skip (s @ r) = s @ r"
  using value_head_aux(1) by fastforce

lemma seq_head: "denotes_seq s vs \<Longrightarrow> take 1 (skip (s @ r)) \<noteq> '']''"
proof (induction rule: denotes_seq.cases)
  case (s_one a s v b)
  from value_head_aux(1) [OF s_one(4)] s_one show ?case by (auto simp: skip_ws)
next
  case (s_more a s v b r vs)
  from value_head_aux(1) [OF s_more(4)] s_more show ?case by (auto simp: skip_ws)
qed

lemma members_head: "denotes_members s ms \<Longrightarrow> take 1 (skip (s @ r)) \<noteq> ''}''"
  by (induction rule: denotes_members.cases) (auto simp: skip_ws ws_char_def)

lemma ends_closing [simp]: "ends_value (CHR '','' # r)" "ends_value (CHR '']'' # r)" "ends_value (CHR ''}'' # r)"
  by (simp_all add: ends_value_def num_char_def is_digit_def)

lemma not_ws [simp]: "\<not> ws_char CHR '',''" "\<not> ws_char CHR '']''" "\<not> ws_char CHR ''}''" "\<not> ws_char CHR '':''"
  "\<not> ws_char CHR 0x22"
  by (simp_all add: ws_char_def)

lemma parse_member_step:
  assumes "is_ws a" "string_body k key" "is_ws b" "is_ws c" "denotes s v"
  shows "parse_members (Suc n) (a @ CHR 0x22 # k @ CHR 0x22 # b @ CHR '':'' # c @ s @ t) =
    (case parse_value n (s @ t) of
       None \<Rightarrow> None
     | Some (v, t) \<Rightarrow>
         (case skip t of
            [] \<Rightarrow> None
          | c # u \<Rightarrow>
              if c = CHR '','' then map_option (\<lambda>(ms, w). ((key, v) # ms, w)) (parse_members n u)
              else if c = CHR ''}'' then Some ([(key, v)], u) else None))"
  using assms parse_body_complete [OF assms(2)] by (simp add: skip_ws skip_value)

lemma parse_complete:
  "denotes s v \<Longrightarrow> ends_value r \<Longrightarrow> 2 * length s < n \<Longrightarrow> parse_value n (s @ r) = Some (v, r)"
  "denotes_seq s vs \<Longrightarrow> 2 * length s + 1 < n \<Longrightarrow> parse_seq n (s @ CHR '']'' # r) = Some (vs, r)"
  "denotes_members s ms \<Longrightarrow> 2 * length s + 1 < n \<Longrightarrow> parse_members n (s @ CHR ''}'' # r) = Some (ms, r)"
proof (induction arbitrary: n r and n r and n r rule: denotes_denotes_seq_denotes_members.inducts)
  case d_null
  then obtain m where "n = Suc m" by (cases n) auto
  then show ?case by (simp add: parse_scalar_def)
next
  case d_true
  then obtain m where "n = Suc m" by (cases n) auto
  then show ?case by (simp add: parse_scalar_def)
next
  case d_false
  then obtain m where "n = Suc m" by (cases n) auto
  then show ?case by (simp add: parse_scalar_def)
next
  case (d_num s)
  then obtain m where n: "n = Suc m" by (cases n) auto
  obtain c t where s: "s = c # t" "is_digit c \<or> c = CHR ''-''" using number_head [OF d_num(1)] by blast
  then have "c \<noteq> CHR 0x22" "c \<noteq> CHR ''[''" "c \<noteq> CHR ''{''" by (auto simp: is_digit_def)
  with n s parse_number [OF d_num(1,2)] show ?case by simp
next
  case (d_str s v)
  then obtain m where "n = Suc m" by (cases n) auto
  with parse_body_complete [OF d_str(1)] show ?case by simp
next
  case (d_arr_empty w)
  then obtain m where "n = Suc m" by (cases n) auto
  with d_arr_empty show ?case by (simp add: skip_ws)
next
  case (d_arr s vs)
  then obtain m where m: "n = Suc m" "2 * length s + 1 < m" by (cases n) auto
  with d_arr.IH [of m r] seq_head [OF d_arr.hyps, of "CHR '']'' # r"] show ?case by simp
next
  case (d_obj_empty w)
  then obtain m where "n = Suc m" by (cases n) auto
  with d_obj_empty show ?case by (simp add: skip_ws)
next
  case (d_obj s ms)
  then obtain m where m: "n = Suc m" "2 * length s + 1 < m" by (cases n) auto
  with d_obj.IH [of m r] members_head [OF d_obj.hyps, of "CHR ''}'' # r"] show ?case by simp
next
  case (s_one a s v b)
  then obtain m where m: "n = Suc m" "2 * length s < m" by (cases n) auto
  with s_one.IH [of "b @ CHR '']'' # r" m] s_one.hyps show ?case
    by (simp add: skip_ws skip_value ends_ws)
next
  case (s_more a s v b q vs)
  then obtain m where m: "n = Suc m" "2 * length s < m" "2 * length q + 1 < m" by (cases n) auto
  with s_more.IH(1) [of "b @ CHR '','' # q @ CHR '']'' # r" m] s_more.IH(2) [of m r] s_more.hyps show ?case
    by (simp add: skip_ws skip_value ends_ws)
next
  case (m_one a k key b c s v d)
  then obtain m where m: "n = Suc m" "2 * length s < m" by (cases n) auto
  with m_one.IH [of "d @ CHR ''}'' # r" m] m_one.hyps show ?case
    by (simp add: skip_ws ends_ws parse_member_step del: parse_members.simps)
next
  case (m_more a k key b c s v d q ms)
  then obtain m where m: "n = Suc m" "2 * length s < m" "2 * length q + 1 < m" by (cases n) auto
  with m_more.IH(1) [of "d @ CHR '','' # q @ CHR ''}'' # r" m] m_more.IH(2) [of m r] m_more.hyps show ?case
    by (simp add: skip_ws ends_ws parse_member_step del: parse_members.simps)
qed

lemma parse_json_complete:
  assumes "denotes s v" and "is_ws w" and "is_ws u"
  shows "parse_json (w @ s @ u) = Some v"
proof -
  have "skip (w @ s @ u) = s @ u" using assms by (simp add: skip_ws skip_value)
  moreover have "parse_value (2 * length (w @ s @ u) + 1) (s @ u) = Some (v, u)"
    using assms ends_ws [OF assms(3), of "[]"] by (intro parse_complete(1)) (simp_all add: ends_value_def)
  ultimately show ?thesis using skip_ws [OF assms(3), of "[]"] by (simp add: parse_json_def)
qed

text \<open>So a text denotes at most one value.\<close>

lemma denotes_functional: "denotes s v \<Longrightarrow> denotes s w \<Longrightarrow> v = w"
  using parse_json_complete [of s v "[]" "[]"] parse_json_complete [of s w "[]" "[]"] by simp

section \<open>Soundness\<close>

text \<open>Conversely, what the parser consumes denotes what it returns.\<close>

lemma parse_body_sound: "parse_body s = Some (v, r) \<Longrightarrow> \<exists>b. s = b @ CHR 0x22 # r \<and> string_body b v"
proof (induction s arbitrary: v rule: parse_body.induct)
  case (1 s)
  obtain c t where s: "s = c # t" using "1.prems" by (cases s) simp_all
  show ?case
  proof (cases "c = CHR 0x22")
    case True
    then show ?thesis using "1.prems" s by (auto intro: body_Nil)
  next
    case nq: False
    show ?thesis
    proof (cases "c = CHR 0x5C")
      case esc: True
      show ?thesis
      proof (cases "read_unicode s")
        case (Some x)
        then obtain bs q where q: "read_unicode s = Some (bs, q)" by (cases x) auto
        then obtain w where w: "parse_body q = Some (w, r)" "v = bs @ w"
          using "1.prems" s esc by auto
        from 1(2) [OF s nq esc q refl w(1)] obtain b where b: "q = b @ CHR 0x22 # r" "string_body b w" by blast
        obtain e where e: "s = e @ q" using q
          by (auto simp: read_unicode_def unicode_escape_Some split: option.split_asm if_split_asm)
        then have "read_unicode (e @ b) = Some (bs, b)" using q b(1) read_unicode_quote [of "e @ b" r]
          by (cases "read_unicode (e @ b)") auto
        with e b w(2) show ?thesis by (intro exI [of _ "e @ b"]) (auto intro: body_unicode)
      next
        case None
        then obtain d u x w where d: "t = d # u" "short_escape d = Some x" "parse_body u = Some (w, r)" "v = x # w"
          using "1.prems" s esc by (cases t) (auto simp: parse_body.simps [of "[CHR 0x5C]"] split: option.split_asm simp del: short_escape.simps)
        from 1(1) [OF s nq esc None d(1,2,3)] obtain b where "u = b @ CHR 0x22 # r" "string_body b w" by blast
        with s esc d show ?thesis by (intro exI [of _ "CHR 0x5C # d # b"]) (auto intro: body_escape)
      qed
    next
      case False
      then obtain w where w: "plain_char c" "parse_body t = Some (w, r)" "v = c # w"
        using "1.prems" s nq by (auto split: if_split_asm)
      from 1(3) [OF s nq False w(1,2)] obtain b where "t = b @ CHR 0x22 # r" "string_body b w" by blast
      with s w show ?thesis by (intro exI [of _ "c # b"]) (auto intro: body_plain)
    qed
  qed
qed

lemma parse_scalar_sound: "parse_scalar s = Some (v, r) \<Longrightarrow> \<exists>t. s = t @ r \<and> denotes t v"
  unfolding parse_scalar_def
  by (auto split: if_split_asm intro: d_null d_true d_false d_num)
    (metis append_take_drop_id d_null, metis append_take_drop_id d_true, metis append_take_drop_id d_false, metis takeWhile_dropWhile_id d_num)

lemma skip_split: "\<exists>w. s = w @ skip s \<and> is_ws w"
  by (intro exI [of _ "takeWhile ws_char s"]) (auto simp: is_ws_chars list_all_iff dest: set_takeWhileD)

lemma skip_Cons: "skip s = c # r \<Longrightarrow> \<exists>w. s = w @ c # r \<and> is_ws w"
  using skip_split [of s] by auto

lemma take1_skip: "take 1 (skip s) = [c] \<Longrightarrow> \<exists>w. s = w @ c # tl (skip s) \<and> is_ws w"
  using skip_Cons [of s] by (cases "skip s") auto

lemma parse_list_sound:
  assumes "parse_value n (skip s) = Some (v, t)" and "skip t = c # u"
    and "\<exists>x. skip s = x @ t \<and> denotes x v"
  shows "\<exists>a x b. s = a @ x @ b @ c # u \<and> is_ws a \<and> is_ws b \<and> denotes x v"
proof -
  obtain a where a: "s = a @ skip s" "is_ws a" using skip_split by blast
  obtain x where x: "skip s = x @ t" "denotes x v" using assms(3) by blast
  obtain b where b: "t = b @ c # u" "is_ws b" using skip_Cons [OF assms(2)] by blast
  from a x b show ?thesis by (intro exI [of _ a] exI [of _ x] exI [of _ b]) simp
qed

text \<open>One level of each parser, given that the levels below are sound.\<close>

lemma parse_value_step:
  assumes prem: "parse_value (Suc n) s = Some (v, r)"
    and seq: "\<And>s vs r. parse_seq n s = Some (vs, r) \<Longrightarrow> \<exists>t. s = t @ CHR '']'' # r \<and> denotes_seq t vs"
    and members: "\<And>s ms r. parse_members n s = Some (ms, r) \<Longrightarrow> \<exists>t. s = t @ CHR ''}'' # r \<and> denotes_members t ms"
  shows "\<exists>t. s = t @ r \<and> denotes t v"
proof -
  obtain c q where s: "s = c # q" using prem by (cases s) auto
  consider "c = CHR 0x22" | "c = CHR ''[''" | "c = CHR ''{''" | "c \<noteq> CHR 0x22" "c \<noteq> CHR ''[''" "c \<noteq> CHR ''{''" by blast
  then show ?thesis
  proof cases
    case 1
    with prem s obtain x where "parse_body q = Some (x, r)" "v = JStr x" by auto
    with parse_body_sound [of q x r] obtain b where "q = b @ CHR 0x22 # r" "string_body b x" "v = JStr x" by blast
    with s 1 show ?thesis by (intro exI [of _ "CHR 0x22 # b @ [CHR 0x22]"]) (auto intro: d_str)
  next
    case 2
    show ?thesis
    proof (cases "take 1 (skip q) = '']''")
      case True
      with take1_skip obtain w where "q = w @ CHR '']'' # tl (skip q)" "is_ws w" by blast
      with prem s 2 True show ?thesis by (auto intro!: exI [of _ "CHR ''['' # w @ [CHR '']'']"] d_arr_empty)
    next
      case False
      with prem s 2 obtain vs where vs: "parse_seq n q = Some (vs, r)" "v = JArr vs" by auto
      from seq [OF vs(1)] obtain t where "q = t @ CHR '']'' # r" "denotes_seq t vs" by blast
      with s 2 vs(2) show ?thesis by (auto intro!: exI [of _ "CHR ''['' # t @ [CHR '']'']"] d_arr)
    qed
  next
    case 3
    show ?thesis
    proof (cases "take 1 (skip q) = ''}''")
      case True
      with take1_skip obtain w where "q = w @ CHR ''}'' # tl (skip q)" "is_ws w" by blast
      with prem s 3 True show ?thesis by (auto intro!: exI [of _ "CHR ''{'' # w @ [CHR ''}'']"] d_obj_empty)
    next
      case False
      with prem s 3 obtain ms where ms: "parse_members n q = Some (ms, r)" "v = JObj ms" by auto
      from members [OF ms(1)] obtain t where "q = t @ CHR ''}'' # r" "denotes_members t ms" by blast
      with s 3 ms(2) show ?thesis by (auto intro!: exI [of _ "CHR ''{'' # t @ [CHR ''}'']"] d_obj)
    qed
  next
    case 4
    with prem s parse_scalar_sound [of s v r] show ?thesis by simp
  qed
qed

lemma parse_seq_step:
  assumes prem: "parse_seq (Suc n) s = Some (vs, r)"
    and val: "\<And>s v r. parse_value n s = Some (v, r) \<Longrightarrow> \<exists>t. s = t @ r \<and> denotes t v"
    and seq: "\<And>s vs r. parse_seq n s = Some (vs, r) \<Longrightarrow> \<exists>t. s = t @ CHR '']'' # r \<and> denotes_seq t vs"
  shows "\<exists>t. s = t @ CHR '']'' # r \<and> denotes_seq t vs"
proof -
  obtain x t where x: "parse_value n (skip s) = Some (x, t)" using prem by (auto split: option.split_asm)
  obtain c u where c: "skip t = c # u" using prem x by (auto split: list.split_asm)
  obtain a y b where l: "s = a @ y @ b @ c # u" "is_ws a" "is_ws b" "denotes y x"
    using parse_list_sound [OF x c] val [OF x] by blast
  show ?thesis
  proof (cases "c = CHR '',''")
    case True
    then obtain ws where ws: "parse_seq n u = Some (ws, r)" "vs = x # ws" using prem x c by auto
    from seq [OF ws(1)] obtain z where "u = z @ CHR '']'' # r" "denotes_seq z ws" by blast
    with l True ws(2) s_more [OF l(2,4,3)] show ?thesis by (intro exI [of _ "a @ y @ b @ CHR '','' # z"]) auto
  next
    case False
    then have "c = CHR '']''" "vs = [x]" "u = r" using prem x c by (auto split: if_split_asm)
    with l s_one [OF l(2,4,3)] show ?thesis by (intro exI [of _ "a @ y @ b"]) auto
  qed
qed

lemma parse_members_step:
  assumes prem: "parse_members (Suc n) s = Some (ms, r)"
    and val: "\<And>s v r. parse_value n s = Some (v, r) \<Longrightarrow> \<exists>t. s = t @ r \<and> denotes t v"
    and members: "\<And>s ms r. parse_members n s = Some (ms, r) \<Longrightarrow> \<exists>t. s = t @ CHR ''}'' # r \<and> denotes_members t ms"
  shows "\<exists>t. s = t @ CHR ''}'' # r \<and> denotes_members t ms"
proof -
  obtain k where k: "skip s = CHR 0x22 # k" using prem by (auto split: list.split_asm if_split_asm)
  obtain key t where key: "parse_body k = Some (key, t)" using prem k by (auto split: option.split_asm)
  have col: "take 1 (skip t) = '':''" using prem k key by (auto split: if_split_asm)
  obtain x y where x: "parse_value n (skip (tl (skip t))) = Some (x, y)" using prem k key col by (auto split: option.split_asm)
  obtain c u where c: "skip y = c # u" using prem k key col x by (auto split: list.split_asm)
  obtain a where a: "s = a @ CHR 0x22 # k" "is_ws a" using skip_Cons [OF k] by blast
  obtain kb where kb: "k = kb @ CHR 0x22 # t" "string_body kb key" using parse_body_sound [OF key] by blast
  obtain b where b: "t = b @ CHR '':'' # tl (skip t)" "is_ws b" using take1_skip [OF col] by blast
  obtain d y' e where l: "tl (skip t) = d @ y' @ e @ c # u" "is_ws d" "is_ws e" "denotes y' x"
    using parse_list_sound [OF x c] val [OF x] by blast
  have all: "s = a @ CHR 0x22 # kb @ CHR 0x22 # b @ CHR '':'' # d @ y' @ e @ c # u" using a(1) kb(1) b(1) l(1) by simp
  show ?thesis
  proof (cases "c = CHR '',''")
    case True
    then obtain ns where ns: "parse_members n u = Some (ns, r)" "ms = (key, x) # ns" using prem k key col x c by auto
    from members [OF ns(1)] obtain z where "u = z @ CHR ''}'' # r" "denotes_members z ns" by blast
    with all True ns(2) m_more [OF a(2) kb(2) b(2) l(2,4,3)] show ?thesis
      by (intro exI [of _ "a @ CHR 0x22 # kb @ CHR 0x22 # b @ CHR '':'' # d @ y' @ e @ CHR '','' # z"]) auto
  next
    case False
    then have "c = CHR ''}''" "ms = [(key, x)]" "u = r" using prem k key col x c by (auto split: if_split_asm)
    with all m_one [OF a(2) kb(2) b(2) l(2,4,3)] show ?thesis
      by (intro exI [of _ "a @ CHR 0x22 # kb @ CHR 0x22 # b @ CHR '':'' # d @ y' @ e"]) auto
  qed
qed

lemma parse_sound:
  "(\<forall>s v r. parse_value n s = Some (v, r) \<longrightarrow> (\<exists>t. s = t @ r \<and> denotes t v))
   \<and> (\<forall>s vs r. parse_seq n s = Some (vs, r) \<longrightarrow> (\<exists>t. s = t @ CHR '']'' # r \<and> denotes_seq t vs))
   \<and> (\<forall>s ms r. parse_members n s = Some (ms, r) \<longrightarrow> (\<exists>t. s = t @ CHR ''}'' # r \<and> denotes_members t ms))"
proof (induction n)
  case (Suc n)
  then show ?case
    using parse_value_step [of n] parse_seq_step [of n] parse_members_step [of n] by (intro conjI allI impI) meson+
qed simp

text \<open>The parser accepts exactly the texts of the grammar.\<close>

lemma parse_json_iff:
  "parse_json s = Some v \<longleftrightarrow> (\<exists>w t u. s = w @ t @ u \<and> is_ws w \<and> is_ws u \<and> denotes t v)"
proof
  assume "parse_json s = Some v"
  then obtain r where r: "parse_value (2 * length s + 1) (skip s) = Some (v, r)" "skip r = []"
    by (auto simp: parse_json_def split: option.split_asm if_split_asm)
  obtain t where t: "skip s = t @ r" "denotes t v" using parse_sound r(1) by blast
  obtain w where w: "s = w @ skip s" "is_ws w" using skip_split by blast
  have "is_ws r" using r(2) by (simp add: is_ws_chars list_all_iff dropWhile_eq_Nil_conv)
  with t w show "\<exists>w t u. s = w @ t @ u \<and> is_ws w \<and> is_ws u \<and> denotes t v" by (metis append.assoc)
qed (auto intro: parse_json_complete)

end
