(* ===== verification/Bootstrap_Json.thy ===== *)
theory Bootstrap_Json
  imports Bootstrap_Config Json_Parser
begin

text \<open>
  What the bootstrap generator of \<open>Bootstrap_Config\<close> produces: for well-formed inputs the
  generated text is JSON that holds the proxy's identity and addresses in their places, the
  static clusters have distinct names, explicit tags override the default ones; and two
  places where the generated configuration is not what Envoy accepts.
\<close>

section \<open>Configuring the arguments\<close>

lemma maybe_listener_json:
  assumes "maybe_listener lib ba n mt mv pr bp a = Inr a'" and "json_args a" and "plain_args a"
    and "bind_ok ba" and "plain n" "plain mt" "plain (match_value lib mv)" "plain pr" and "bp = [] \<or> number_text bp"
  shows "json_args a'"
  using assms generateListenerConfig_json by (cases "ba = []") (auto simp: maybe_listener_def)

lemma maybe_listener_frame:
  assumes "maybe_listener lib ba n mt mv pr bp a = Inr a'"
  shows "\<exists>x y z. a' = a\<lparr>ta_StaticClustersJSON := x, ta_StaticListenersJSON := y, ta_StaticSecretsJSON := z\<rparr>"
proof (cases "ba = []")
  case True
  with assms have "a' = a\<lparr>ta_StaticClustersJSON := ta_StaticClustersJSON a, ta_StaticListenersJSON := ta_StaticListenersJSON a,
      ta_StaticSecretsJSON := ta_StaticSecretsJSON a\<rparr>" by (simp add: maybe_listener_def)
  then show ?thesis by blast
next
  case False
  with assms listener_frame show ?thesis by (simp add: maybe_listener_def)
qed

text \<open>The stages of \<open>ConfigureArgs\<close>.\<close>

definition static_stage :: "BootstrapConfig \<Rightarrow> bool \<Rightarrow> BootstrapTplArgs \<Rightarrow> BootstrapTplArgs" where
  "static_stage c omit a =
     (let a2 = a\<lparr>ta_StatsConfigJSON := (if bc_StatsConfigJSON c \<noteq> [] then bc_StatsConfigJSON c
                   else formatStatsTags (generateStatsTags a (bc_StatsTags c) omit))\<rparr>;
          a3 = (if bc_StaticClustersJSON c \<noteq> [] then a2\<lparr>ta_StaticClustersJSON := bc_StaticClustersJSON c\<rparr> else a2)
      in if bc_StaticListenersJSON c \<noteq> [] then a3\<lparr>ta_StaticListenersJSON := bc_StaticListenersJSON c\<rparr> else a3)"

definition final_stage :: "lib \<Rightarrow> BootstrapConfig \<Rightarrow> BootstrapTplArgs \<Rightarrow> BootstrapTplArgs" where
  "final_stage lib c a =
     (let a8 = (if bc_TracingConfigJSON c \<noteq> [] then a\<lparr>ta_TracingConfigJSON := bc_TracingConfigJSON c\<rparr> else a);
          a9 = (if bc_StatsFlushInterval c \<noteq> [] then a8\<lparr>ta_StatsFlushInterval := bc_StatsFlushInterval c\<rparr> else a8)
      in if bc_TelemetryCollectorBindSocketDir c \<noteq> []
         then appendTelemetryCollectorConfig (bc_TelemetryCollectorBindSocketDir c) a9 else a9)"

lemma ConfigureArgs_stages:
  assumes "ConfigureArgs lib c omit a0 = Inr a'"
  obtains a1 a5 a6 a7 where "generateStatsSinks lib c a0 = Inr a1"
    "maybe_listener lib (bc_PrometheusBindAddr c) ''envoy_prometheus_metrics'' ''path'' (ta_PrometheusScrapePath (static_stage c omit a1))
       ''/stats/prometheus'' (ta_PrometheusBackendPort (static_stage c omit a1)) (static_stage c omit a1) = Inr a5"
    "maybe_listener lib (bc_StatsBindAddr c) ''envoy_metrics'' ''prefix'' ''/stats'' ''/stats'' [] a5 = Inr a6"
    "maybe_listener lib (bc_ReadyBindAddr c) ''envoy_ready'' ''path'' ''/ready'' ''/ready'' [] a6 = Inr a7"
    "a' = final_stage lib c a7"
  using assms
  unfolding ConfigureArgs_def Let_def
  by (auto simp: static_stage_def final_stage_def Let_def split: sum.split_asm)

lemma ConfigureArgs_from_stages:
  assumes "generateStatsSinks lib c a0 = Inr a1"
    and "maybe_listener lib (bc_PrometheusBindAddr c) ''envoy_prometheus_metrics'' ''path'' (ta_PrometheusScrapePath (static_stage c omit a1))
       ''/stats/prometheus'' (ta_PrometheusBackendPort (static_stage c omit a1)) (static_stage c omit a1) = Inr a5"
    and "maybe_listener lib (bc_StatsBindAddr c) ''envoy_metrics'' ''prefix'' ''/stats'' ''/stats'' [] a5 = Inr a6"
    and "maybe_listener lib (bc_ReadyBindAddr c) ''envoy_ready'' ''path'' ''/ready'' ''/ready'' [] a6 = Inr a7"
  shows "ConfigureArgs lib c omit a0 = Inr (final_stage lib c a7)"
  using assms(2) unfolding ConfigureArgs_def static_stage_def final_stage_def Let_def
  by (simp only: assms sum.case)

text \<open>What configuring leaves alone.\<close>

definition same_scalars :: "BootstrapTplArgs \<Rightarrow> BootstrapTplArgs \<Rightarrow> bool" where
  "same_scalars a b \<longleftrightarrow>
     ta_GRPC a = ta_GRPC b \<and> ta_ProxyCluster a = ta_ProxyCluster b \<and> ta_ProxyID a = ta_ProxyID b \<and> ta_NodeName a = ta_NodeName b
     \<and> ta_ProxySourceService a = ta_ProxySourceService b \<and> ta_AgentCAPEM a = ta_AgentCAPEM b
     \<and> ta_AdminAccessLogConfig a = ta_AdminAccessLogConfig b \<and> ta_AdminAccessLogPath a = ta_AdminAccessLogPath b
     \<and> ta_AdminBindAddress a = ta_AdminBindAddress b \<and> ta_AdminBindPort a = ta_AdminBindPort b
     \<and> ta_LocalAgentClusterName a = ta_LocalAgentClusterName b \<and> ta_Namespace a = ta_Namespace b \<and> ta_Partition a = ta_Partition b
     \<and> ta_Datacenter a = ta_Datacenter b \<and> ta_PrometheusBackendPort a = ta_PrometheusBackendPort b
     \<and> ta_PrometheusScrapePath a = ta_PrometheusScrapePath b \<and> ta_PrometheusCAFile a = ta_PrometheusCAFile b
     \<and> ta_PrometheusCAPath a = ta_PrometheusCAPath b \<and> ta_PrometheusCertFile a = ta_PrometheusCertFile b
     \<and> ta_PrometheusKeyFile a = ta_PrometheusKeyFile b"

lemma same_scalars_refl [simp]: "same_scalars a a"
  by (simp add: same_scalars_def)

lemma same_scalars_trans: "same_scalars a b \<Longrightarrow> same_scalars b c \<Longrightarrow> same_scalars a c"
  by (simp add: same_scalars_def)

lemma plain_args_same: "same_scalars a b \<Longrightarrow> plain (ta_StatsFlushInterval b) \<Longrightarrow> plain_args a \<Longrightarrow> plain_args b"
  by (simp add: same_scalars_def plain_args_def)

lemma maybe_listener_same: "maybe_listener lib ba n mt mv pr bp a = Inr a' \<Longrightarrow> same_scalars a a' \<and> ta_StatsFlushInterval a' = ta_StatsFlushInterval a"
  by (drule maybe_listener_frame) (auto simp: same_scalars_def)

lemma static_stage_same: "same_scalars a (static_stage c omit a)" "ta_StatsFlushInterval (static_stage c omit a) = ta_StatsFlushInterval a"
  by (simp_all add: static_stage_def Let_def same_scalars_def)

lemma final_stage_same: "same_scalars a (final_stage lib c a)"
  "ta_StatsFlushInterval (final_stage lib c a) = (if bc_StatsFlushInterval c \<noteq> [] then bc_StatsFlushInterval c else ta_StatsFlushInterval a)"
  by (simp_all add: final_stage_def Let_def same_scalars_def appendTelemetryCollectorConfig_def)

lemma static_stage_json:
  assumes "good_config lib c x" and "json_args a" and "plain_args a"
  shows "json_args (static_stage c omit a)"
proof -
  have "formatStatsTags (generateStatsTags a (bc_StatsTags c) omit) = [] \<or> valid (formatStatsTags (generateStatsTags a (bc_StatsTags c) omit))"
    using assms by (intro formatStatsTags_valid stats_tags_valid) (simp_all add: good_config_def)
  with assms(1,2) show ?thesis
    by (auto simp: static_stage_def Let_def json_args_def good_config_def)
qed

lemma telemetry_json:
  assumes "json_args a" and "plain (telemetry_socket a dir)"
  shows "json_args (appendTelemetryCollectorConfig dir a)"
proof -
  let ?sink = "obj [(''name'', quote ''envoy.stat_sinks.metrics_service''),
               (''typed_config'',
                 obj [(''@type'', quote ''type.googleapis.com/envoy.config.metrics.v3.MetricsServiceConfig''),
                      (''transport_api_version'', quote ''V3''),
                      (''grpc_service'', obj [(''envoy_grpc'', obj [(''cluster_name'', quote ''consul_telemetry_collector_loopback'')])]),
                      (''emit_tags_as_labels'', ''true'')])]"
  let ?cluster = "obj [(''name'', quote ''consul_telemetry_collector_loopback''),
               (''type'', quote ''STATIC''),
               (''http2_protocol_options'', obj []),
               (''loadAssignment'',
                 obj [(''clusterName'', quote ''consul_telemetry_collector_loopback''),
                      (''endpoints'',
                        arr [obj [(''lbEndpoints'',
                          arr [obj [(''endpoint'',
                            obj [(''address'', obj [(''pipe'', obj [(''path'', quote (telemetry_socket a dir))])])])]])]])])]"
  have s: "valid ?sink" by (intro json_intros) (simp add: json_intros plain_def plain_char_def)
  have c: "valid ?cluster" using assms(2) by (intro json_intros) (simp add: json_intros plain_def plain_char_def)
  have "fragment (append_fragment (ta_StatsSinksJSON a) ?sink)" "fragment (append_fragment (ta_StaticClustersJSON a) ?cluster)"
    using assms(1) valid_fragment [OF s] valid_fragment [OF c] by (intro fragment_append; simp add: json_args_def)+
  with assms(1) show ?thesis by (simp add: json_args_def appendTelemetryCollectorConfig_def)
qed

lemma final_stage_json:
  assumes "good_config lib c x" and "json_args a" and "plain (telemetry_socket a (bc_TelemetryCollectorBindSocketDir c))"
  shows "json_args (final_stage lib c a)"
proof -
  let ?a9 = "let a8 = (if bc_TracingConfigJSON c \<noteq> [] then a\<lparr>ta_TracingConfigJSON := bc_TracingConfigJSON c\<rparr> else a)
    in if bc_StatsFlushInterval c \<noteq> [] then a8\<lparr>ta_StatsFlushInterval := bc_StatsFlushInterval c\<rparr> else a8"
  have j: "json_args ?a9" using assms(1,2) by (auto simp: json_args_def good_config_def Let_def)
  have "telemetry_socket ?a9 d = telemetry_socket a d" for d by (simp add: telemetry_socket_def Let_def)
  with assms(3) telemetry_json [OF j] have "json_args (appendTelemetryCollectorConfig (bc_TelemetryCollectorBindSocketDir c) ?a9)"
    by presburger
  with j show ?thesis unfolding final_stage_def Let_def by presburger
qed

lemma ConfigureArgs_json:
  assumes conf: "ConfigureArgs lib c omit a = Inr a'" and good: "good_config lib c a" and json: "json_args a" and pa: "plain_args a"
  shows "json_args a' \<and> plain_args a' \<and> same_scalars a a'"
proof -
  obtain a1 a5 a6 a7 where st: "generateStatsSinks lib c a = Inr a1"
    "maybe_listener lib (bc_PrometheusBindAddr c) ''envoy_prometheus_metrics'' ''path'' (ta_PrometheusScrapePath (static_stage c omit a1))
       ''/stats/prometheus'' (ta_PrometheusBackendPort (static_stage c omit a1)) (static_stage c omit a1) = Inr a5"
    "maybe_listener lib (bc_StatsBindAddr c) ''envoy_metrics'' ''prefix'' ''/stats'' ''/stats'' [] a5 = Inr a6"
    "maybe_listener lib (bc_ReadyBindAddr c) ''envoy_ready'' ''path'' ''/ready'' ''/ready'' [] a6 = Inr a7"
    "a' = final_stage lib c a7"
    by (rule ConfigureArgs_stages [OF conf])
  obtain s where a1: "a1 = a\<lparr>ta_StatsSinksJSON := s\<rparr>" "fragment s"
    using generateStatsSinks_json [OF st(1) good json] by blast
  have p: "plain ''path''" "plain ''prefix''" by simp_all
  have g: "bind_ok (bc_PrometheusBindAddr c)" "bind_ok (bc_StatsBindAddr c)" "bind_ok (bc_ReadyBindAddr c)"
    "plain (match_value lib (ta_PrometheusScrapePath a))" "plain (match_value lib ''/stats'')" "plain (match_value lib ''/ready'')"
    "plain (bc_StatsFlushInterval c)" "plain (telemetry_socket a (bc_TelemetryCollectorBindSocketDir c))"
    using good by (simp_all add: good_config_def)
  let ?a4 = "static_stage c omit a1"
  have s1: "same_scalars a a1" using a1 by (simp add: same_scalars_def)
  have s4: "same_scalars a ?a4" using same_scalars_trans [OF s1 static_stage_same(1)] .
  have s5: "same_scalars a a5" using same_scalars_trans [OF s4] maybe_listener_same [OF st(2)] by blast
  have s6: "same_scalars a a6" using same_scalars_trans [OF s5] maybe_listener_same [OF st(3)] by blast
  have s7: "same_scalars a a7" using same_scalars_trans [OF s6] maybe_listener_same [OF st(4)] by blast
  have f: "ta_StatsFlushInterval a7 = ta_StatsFlushInterval a" "ta_StatsFlushInterval a6 = ta_StatsFlushInterval a"
    "ta_StatsFlushInterval a5 = ta_StatsFlushInterval a" "ta_StatsFlushInterval ?a4 = ta_StatsFlushInterval a"
    using maybe_listener_same [OF st(2)] maybe_listener_same [OF st(3)] maybe_listener_same [OF st(4)] static_stage_same(2) a1 by simp_all
  have fl: "plain (ta_StatsFlushInterval a)" using pa by (simp add: plain_args_def)
  have p1: "plain_args a1" using plain_args_same [OF s1 _ pa] fl a1 by simp
  have p4: "plain_args ?a4" using plain_args_same [OF s4 _ pa] fl f by simp
  have p5: "plain_args a5" using plain_args_same [OF s5 _ pa] fl f by simp
  have p6: "plain_args a6" using plain_args_same [OF s6 _ pa] fl f by simp
  have j1: "json_args a1" using json a1 by (simp add: json_args_def)
  have j4: "json_args ?a4" by (rule static_stage_json [OF good j1 p1])
  have scrape: "ta_PrometheusScrapePath ?a4 = ta_PrometheusScrapePath a" "ta_PrometheusBackendPort ?a4 = ta_PrometheusBackendPort a"
    using s4 by (simp_all add: same_scalars_def)
  have "ta_PrometheusBackendPort a = [] \<or> number_text (ta_PrometheusBackendPort a)" using pa by (simp add: plain_args_def)
  then have j5: "json_args a5" using maybe_listener_json [OF st(2) j4 p4 g(1)] g(4) p scrape by simp
  have j6: "json_args a6" using maybe_listener_json [OF st(3) j5 p5 g(2)] g(5) p by simp
  have j7: "json_args a7" using maybe_listener_json [OF st(4) j6 p6 g(3)] g(6) p by simp
  have "telemetry_socket a7 d = telemetry_socket a d" for d using s7 by (simp add: telemetry_socket_def same_scalars_def)
  then have "json_args a'" using final_stage_json [OF good j7] g(8) st(5) by simp
  moreover have s': "same_scalars a a'" using same_scalars_trans [OF s7 final_stage_same(1)] st(5) by simp
  moreover have "plain_args a'" using plain_args_same [OF s' _ pa] final_stage_same(2) [of lib c a7] st(5) f(1) fl g(7) by simp
  ultimately show ?thesis by blast
qed

section \<open>The template\<close>

lemma kv_intro: "plain k \<Longrightarrow> denotes s v \<Longrightarrow> denotes_kv (k, s) (k, v)"
  by (simp add: denotes_kv_def)

lemma kvs_choose:
  assumes "list_all (\<lambda>kv. plain (fst kv) \<and> valid (snd kv)) kvs"
  shows "\<exists>ms. list_all2 denotes_kv kvs ms \<and> map fst ms = map fst kvs"
proof -
  have "list_all (\<lambda>kv. \<exists>m. denotes_kv kv m) kvs"
    using assms by (auto simp: list_all_iff denotes_kv_def valid_def)
  then obtain ms where ms: "list_all2 denotes_kv kvs ms" using list_all2_choose by blast
  then have "map fst ms = map fst kvs"
    by (induction rule: list_all2_induct) (auto simp: denotes_kv_def)
  with ms show ?thesis by blast
qed

text \<open>An address with a port, as it appears in the admin and agent sections.\<close>

definition socket_json :: "string \<Rightarrow> string \<Rightarrow> json" where
  "socket_json addr port = JObj [(''socket_address'', JObj [(''address'', JStr addr), (''port_value'', JNum port)])]"

lemma denotes_socket:
  "plain addr \<Longrightarrow> number_text port \<Longrightarrow>
   denotes (obj [(''socket_address'', obj [(''address'', quote addr), (''port_value'', port)])]) (socket_json addr port)"
  unfolding socket_json_def by (intro denotes_obj) (auto intro!: kv_intro denotes_obj denotes_quote d_num)

definition endpoint_json :: "BootstrapTplArgs \<Rightarrow> json" where
  "endpoint_json a =
     (if g_AgentSocket (ta_GRPC a) \<noteq> [] then JObj [(''pipe'', JObj [(''path'', JStr (g_AgentSocket (ta_GRPC a)))])]
      else socket_json (g_AgentAddress (ta_GRPC a)) (g_AgentPort (ta_GRPC a)))"

lemma plain_more [simp]: "plain ''pipe''" "plain ''endpoint''" "plain ''lbEndpoints''" "plain ''endpoints''" "plain ''clusterName''"
  "plain ''loadAssignment''" "plain ''cluster''" "plain ''id''" "plain ''metadata''" "plain ''namespace''" "plain ''partition''"
  "plain ''node_name''" "plain ''admin''" "plain ''node''" "plain ''clusters''" "plain ''static_resources''"
  by (simp_all add: plain_def plain_char_def)

lemma denotes_endpoint:
  assumes "plain_args a"
  shows "denotes (obj [if g_AgentSocket (ta_GRPC a) \<noteq> []
            then (''pipe'', obj [(''path'', quote (g_AgentSocket (ta_GRPC a)))])
            else (''socket_address'', obj [(''address'', quote (g_AgentAddress (ta_GRPC a))), (''port_value'', g_AgentPort (ta_GRPC a))])])
          (endpoint_json a)"
  using assms denotes_socket
  by (cases "g_AgentSocket (ta_GRPC a) = []")
     (auto simp: endpoint_json_def plain_args_def intro!: denotes_obj kv_intro denotes_quote)

lemma admin_denotes:
  assumes "plain_args a"
  shows "\<exists>v. denotes (admin_json a) v \<and> lookup v [Key ''address''] = Some (socket_json (ta_AdminBindAddress a) (ta_AdminBindPort a))"
proof -
  let ?log = "if ta_AdminAccessLogConfig a = [] then (''access_log_path'', quote (ta_AdminAccessLogPath a))
           else (''access_log'', arr (ta_AdminAccessLogConfig a))"
  have "plain (fst ?log) \<and> valid (snd ?log)"
    using assms by (simp add: plain_args_def json_intros) (simp add: plain_def plain_char_def)
  then obtain x where x: "denotes_kv ?log (fst ?log, x)" by (auto simp: valid_def denotes_kv_def)
  have "denotes (admin_json a) (JObj [(fst ?log, x), (''address'', socket_json (ta_AdminBindAddress a) (ta_AdminBindPort a))])"
    unfolding admin_json_def using x assms
    by (intro denotes_obj) (auto simp: plain_args_def intro!: kv_intro denotes_socket)
  moreover have "fst ?log \<noteq> ''address''" by simp
  ultimately show ?thesis
    by (intro exI [of _ "JObj [(fst ?log, x), (''address'', socket_json (ta_AdminBindAddress a) (ta_AdminBindPort a))]"]) auto
qed

lemma node_denotes:
  assumes "plain_args a"
  shows "\<exists>m. denotes (node_json a)
      (JObj [(''cluster'', JStr (ta_ProxyCluster a)), (''id'', JStr (ta_ProxyID a)), (''metadata'', JObj m)])
    \<and> map_of m ''namespace'' = Some (JStr (default_or (ta_Namespace a)))
    \<and> map_of m ''partition'' = Some (JStr (default_or (ta_Partition a)))"
proof -
  let ?m = "(if ta_NodeName a \<noteq> [] then [(''node_name'', JStr (ta_NodeName a))] else [])
     @ [(''namespace'', JStr (default_or (ta_Namespace a))), (''partition'', JStr (default_or (ta_Partition a)))]"
  have "denotes (node_json a) (JObj [(''cluster'', JStr (ta_ProxyCluster a)), (''id'', JStr (ta_ProxyID a)), (''metadata'', JObj ?m)])"
    unfolding node_json_def using assms
    by (intro denotes_obj) (auto simp: plain_args_def plain_default_or intro!: kv_intro denotes_obj denotes_quote)
  then show ?thesis by (intro exI [of _ ?m]) simp
qed

text \<open>Where a cluster holds the address of its only endpoint.\<close>

definition agent_endpoint :: "step list" where
  "agent_endpoint = [Key ''loadAssignment'', Key ''endpoints'', At 0, Key ''lbEndpoints'', At 0, Key ''endpoint'', Key ''address'']"

lemma agent_denotes:
  assumes "plain_args a"
  shows "\<exists>v. denotes (agent_cluster_json a) v
    \<and> lookup v [Key ''name''] = Some (JStr (ta_LocalAgentClusterName a))
    \<and> lookup v agent_endpoint = Some (endpoint_json a)"
proof -
  let ?tls = "if g_AgentTLS (ta_GRPC a)
             then [(''transport_socket'',
                     obj [(''name'', quote ''tls''),
                          (''typed_config'',
                            obj [(''@type'', quote ''type.googleapis.com/envoy.extensions.transport_sockets.tls.v3.UpstreamTlsContext''),
                                 (''common_tls_context'',
                                   obj [(''validation_context'', obj [(''trusted_ca'', obj [(''inline_string'', quote (ta_AgentCAPEM a))])])])])])]
             else []"
  let ?mid = "[(''ignore_health_on_host_removal'', ''false''), (''connect_timeout'', quote ''1s''), (''type'', quote ''STATIC'')] @ ?tls
     @ [(''http2_protocol_options'', obj [])]"
  let ?la = "JObj [(''clusterName'', JStr (ta_LocalAgentClusterName a)), (''endpoints'',
      JArr [JObj [(''lbEndpoints'', JArr [JObj [(''endpoint'', JObj [(''address'', endpoint_json a)])]])]])]"
  have "list_all (\<lambda>kv. plain (fst kv) \<and> valid (snd kv)) ?mid"
    using assms by (simp add: json_intros plain_args_def) (simp add: plain_def plain_char_def json_intros)
  from kvs_choose [OF this] obtain ms where ms: "list_all2 denotes_kv ?mid ms" "map fst ms = map fst ?mid" by blast
  have la: "denotes (obj [(''clusterName'', quote (ta_LocalAgentClusterName a)),
                    (''endpoints'', arr [obj [(''lbEndpoints'', arr [obj [(''endpoint'', obj [(''address'',
                            obj [if g_AgentSocket (ta_GRPC a) \<noteq> []
                                 then (''pipe'', obj [(''path'', quote (g_AgentSocket (ta_GRPC a)))])
                                 else (''socket_address'', obj [(''address'', quote (g_AgentAddress (ta_GRPC a))), (''port_value'', g_AgentPort (ta_GRPC a))])])])]])]])]) ?la"
    using assms denotes_endpoint [OF assms]
    by (intro denotes_obj) (auto simp: plain_args_def intro!: kv_intro denotes_obj denotes_arr denotes_quote)
  let ?v = "JObj ((''name'', JStr (ta_LocalAgentClusterName a)) # ms @ [(''loadAssignment'', ?la)])"
  have split: "agent_cluster_json a = obj ((''name'', quote (ta_LocalAgentClusterName a)) # ?mid @ [(''loadAssignment'',
      obj [(''clusterName'', quote (ta_LocalAgentClusterName a)),
                    (''endpoints'', arr [obj [(''lbEndpoints'', arr [obj [(''endpoint'', obj [(''address'',
                            obj [if g_AgentSocket (ta_GRPC a) \<noteq> []
                                 then (''pipe'', obj [(''path'', quote (g_AgentSocket (ta_GRPC a)))])
                                 else (''socket_address'', obj [(''address'', quote (g_AgentAddress (ta_GRPC a))), (''port_value'', g_AgentPort (ta_GRPC a))])])])]])]])])])"
    by (simp add: agent_cluster_json_def)
  have "denotes (agent_cluster_json a) ?v"
    unfolding split
    by (intro denotes_obj list_all2_Cons [THEN iffD2] conjI list_all2_appendI ms(1) kv_intro la denotes_quote)
       (use assms in \<open>simp_all add: plain_args_def\<close>)
  moreover have "map_of (ms @ [(''loadAssignment'', ?la)]) ''loadAssignment'' = Some ?la"
  proof -
    have "''loadAssignment'' \<notin> set (map fst ms)" unfolding ms(2) by (cases "g_AgentTLS (ta_GRPC a)") simp_all
    then have "map_of ms ''loadAssignment'' = None" by (simp add: map_of_eq_None_iff)
    then show ?thesis by (simp add: map_add_def)
  qed
  ultimately show ?thesis by (intro exI [of _ ?v]) (simp add: agent_endpoint_def)
qed

lemma static_denotes:
  assumes "plain_args a" and "json_args a"
    and cs: "if ta_StaticClustersJSON a = [] then cs = [] else denotes_seq (ta_StaticClustersJSON a) cs"
  shows "\<exists>c ms. denotes (static_resources_json a) (JObj ((''clusters'', JArr (c # cs)) # ms)) \<and> denotes (agent_cluster_json a) c
    \<and> lookup c [Key ''name''] = Some (JStr (ta_LocalAgentClusterName a))
    \<and> lookup c agent_endpoint = Some (endpoint_json a)"
proof -
  obtain c where c: "denotes (agent_cluster_json a) c" "lookup c [Key ''name''] = Some (JStr (ta_LocalAgentClusterName a))"
    "lookup c agent_endpoint = Some (endpoint_json a)"
    using agent_denotes [OF assms(1)] by blast
  let ?rest = "if ta_StaticClustersJSON a \<noteq> [] then [ta_StaticClustersJSON a] else []"
  have arr: "denotes (arr (agent_cluster_json a # ?rest)) (JArr (c # cs))"
    using denotes_arr_fragments [of "agent_cluster_json a # ?rest" "[c] # (if ta_StaticClustersJSON a \<noteq> [] then [cs] else [])"]
      seq_one [OF c(1)] cs by (cases "ta_StaticClustersJSON a = []") auto
  let ?kvs = "(if ta_StaticListenersJSON a \<noteq> [] then [(''listeners'', arr [ta_StaticListenersJSON a])] else [])
          @ (if ta_StaticSecretsJSON a \<noteq> [] then [(''secrets'', arr [ta_StaticSecretsJSON a])] else [])"
  have "list_all (\<lambda>kv. plain (fst kv) \<and> valid (snd kv)) ?kvs"
    using assms(2) by (simp add: json_args_def valid_arr_fragment) (simp add: plain_def plain_char_def)
  from kvs_choose [OF this] obtain ms where ms: "list_all2 denotes_kv ?kvs ms" by blast
  have "denotes (static_resources_json a) (JObj ((''clusters'', JArr (c # cs)) # ms))"
    unfolding static_resources_json_def
    by (intro denotes_obj list_all2_Cons [THEN iffD2] conjI ms kv_intro arr) simp
  with c show ?thesis by blast
qed

lemma template_denotes:
  assumes "plain_args a" and "json_args a"
    and "if ta_StaticClustersJSON a = [] then cs = [] else denotes_seq (ta_StaticClustersJSON a) cs"
  shows "\<exists>v c. denotes (bootstrapTemplate a) v
    \<and> lookup v [Key ''admin'', Key ''address''] = Some (socket_json (ta_AdminBindAddress a) (ta_AdminBindPort a))
    \<and> lookup v [Key ''node'', Key ''id''] = Some (JStr (ta_ProxyID a))
    \<and> lookup v [Key ''node'', Key ''cluster''] = Some (JStr (ta_ProxyCluster a))
    \<and> lookup v [Key ''node'', Key ''metadata'', Key ''namespace''] = Some (JStr (default_or (ta_Namespace a)))
    \<and> lookup v [Key ''static_resources'', Key ''clusters''] = Some (JArr (c # cs))
    \<and> lookup c [Key ''name''] = Some (JStr (ta_LocalAgentClusterName a))
    \<and> lookup c agent_endpoint = Some (endpoint_json a)"
proof -
  obtain ad where ad: "denotes (admin_json a) ad" "lookup ad [Key ''address''] = Some (socket_json (ta_AdminBindAddress a) (ta_AdminBindPort a))"
    using admin_denotes [OF assms(1)] by blast
  obtain m where nd: "denotes (node_json a)
      (JObj [(''cluster'', JStr (ta_ProxyCluster a)), (''id'', JStr (ta_ProxyID a)), (''metadata'', JObj m)])"
    "map_of m ''namespace'' = Some (JStr (default_or (ta_Namespace a)))"
    using node_denotes [OF assms(1)] by blast
  obtain c ms where st: "denotes (static_resources_json a) (JObj ((''clusters'', JArr (c # cs)) # ms))"
    "lookup c [Key ''name''] = Some (JStr (ta_LocalAgentClusterName a))"
    "lookup c agent_endpoint = Some (endpoint_json a)"
    using static_denotes [OF assms] by blast
  let ?lay = "obj [(''layers'', arr [obj [(''name'', quote ''base''),
                    (''static_layer'', obj [(''re2.max_program_size.error_level'', ''1048576'')])]])]"
  let ?kvs = "(if ta_StatsSinksJSON a \<noteq> [] then [(''stats_sinks'', arr [ta_StatsSinksJSON a])] else [])
          @ (if ta_StatsConfigJSON a \<noteq> [] then [(''stats_config'', ta_StatsConfigJSON a)] else [])
          @ (if ta_StatsFlushInterval a \<noteq> [] then [(''stats_flush_interval'', quote (ta_StatsFlushInterval a))] else [])
          @ (if ta_TracingConfigJSON a \<noteq> [] then [(''tracing'', ta_TracingConfigJSON a)] else [])
          @ [(''dynamic_resources'', dynamic_resources_json a)]"
  have "number_text ''1048576''" by (rule num_int) (simp add: int_part_def digits_def is_digit_def)
  then have "valid ?lay" by (intro json_intros) (simp add: json_intros valid_number plain_def plain_char_def)
  then obtain lay where lay: "denotes ?lay lay" by (auto simp: valid_def)
  have dyn: "valid (dynamic_resources_json a)"
    using assms(1) unfolding dynamic_resources_json_def ads_json_def plain_args_def
    by (intro json_intros) (simp add: json_intros plain_def plain_char_def)
  have "list_all (\<lambda>kv. plain (fst kv) \<and> valid (snd kv)) ?kvs"
    using assms dyn by (simp add: json_args_def plain_args_def valid_arr_fragment json_intros) (auto simp: plain_def plain_char_def)
  from kvs_choose [OF this] obtain ks where ks: "list_all2 denotes_kv ?kvs ks" by blast
  let ?v = "JObj ([(''admin'', ad), (''node'', JObj [(''cluster'', JStr (ta_ProxyCluster a)), (''id'', JStr (ta_ProxyID a)), (''metadata'', JObj m)]),
      (''layered_runtime'', lay), (''static_resources'', JObj ((''clusters'', JArr (c # cs)) # ms))] @ ks)"
  have "denotes (bootstrapTemplate a) ?v"
    unfolding bootstrapTemplate_def
    by (intro denotes_obj list_all2_appendI ks list_all2_Cons [THEN iffD2] conjI kv_intro ad(1) nd(1) lay st(1) list.rel_inject(1))
       (simp_all add: plain_def plain_char_def)
  with ad(2) nd(2) st(2,3) show ?thesis by (intro exI [of _ ?v] exI [of _ c]) simp
qed

section \<open>Cluster names\<close>

text \<open>
  A cluster definition and its name: an object with one member that the decoder takes for the
  name, whatever its case.
\<close>

definition name_members :: "(string \<times> json) list \<Rightarrow> (string \<times> json) list" where
  "name_members ms = filter (\<lambda>m. ToLower (fst m) = ''name'') ms"

definition named :: "json \<Rightarrow> string \<Rightarrow> bool" where
  "named v n \<longleftrightarrow> (case v of JObj ms \<Rightarrow> name_members ms = [(''name'', JStr n)] | _ \<Rightarrow> False)"

text \<open>A possibly empty fragment with the names of the clusters it holds.\<close>

definition holds_clusters :: "string \<Rightarrow> string list \<Rightarrow> bool" where
  "holds_clusters s ns \<longleftrightarrow> (s = [] \<and> ns = []) \<or> (s \<noteq> [] \<and> (\<exists>vs. denotes_seq s vs \<and> list_all2 named vs ns))"

text \<open>
  What the generator relies on of the JSON decoder: it finds the names of the clusters of a
  well-formed list.
\<close>

locale cluster_decoder =
  fixes names :: "string \<Rightarrow> string list result"
  assumes names_empty: "names ''[]'' = Inr []"
    and names_seq: "denotes_seq s vs \<Longrightarrow> list_all2 named vs ns \<Longrightarrow> names (''['' @ s @ '']'') = Inr ns"
begin

lemma names_fragment: "holds_clusters s ns \<Longrightarrow> names (''['' @ s @ '']'') = Inr ns"
  using names_empty names_seq by (auto simp: holds_clusters_def)

end

text \<open>The decoder computed with the parser.\<close>

definition name_of :: "json \<Rightarrow> string option" where
  "name_of v =
     (case v of
        JObj ms \<Rightarrow> (case name_members ms of
                       [] \<Rightarrow> Some []
                     | xs \<Rightarrow> (case snd (last xs) of JStr n \<Rightarrow> Some n | _ \<Rightarrow> None))
      | JNull \<Rightarrow> Some []
      | _ \<Rightarrow> None)"

definition decode_names :: "string \<Rightarrow> string list result" where
  "decode_names s =
     (case parse_json s of
        Some (JArr vs) \<Rightarrow> (if None \<in> set (map name_of vs) then Inl (Err ''type'') else Inr (map (the \<circ> name_of) vs))
      | _ \<Rightarrow> Inl (Err ''syntax''))"

lemma name_of_named: "named v n \<Longrightarrow> name_of v = Some n"
  by (auto simp: named_def name_of_def split: json.split_asm)

interpretation parsed: cluster_decoder decode_names
proof
  show "decode_names ''[]'' = Inr []"
    using parse_json_complete [OF d_arr_empty [of "[]"], of "[]" "[]"] by (simp add: decode_names_def)
next
  fix s vs ns
  assume seq: "denotes_seq s vs" and nm: "list_all2 named vs ns"
  have "parse_json (''['' @ s @ '']'') = Some (JArr vs)"
    using parse_json_complete [OF d_arr [OF seq], of "[]" "[]"] by simp
  moreover have "map name_of vs = map Some ns"
    using nm by (induction rule: list_all2_induct) (simp_all add: name_of_named)
  then have "None \<notin> set (map name_of vs)" "map (the \<circ> name_of) vs = ns"
    by (auto, metis (no_types, lifting) list.map_comp map_idI option.sel comp_apply)
  ultimately show "decode_names (''['' @ s @ '']'') = Inr ns" by (simp add: decode_names_def)
qed

lemma name_members_choose: "list_all2 denotes_kv kvs ms \<Longrightarrow> list_all (\<lambda>kv. ToLower (fst kv) \<noteq> ''name'') kvs \<Longrightarrow> name_members ms = []"
  by (induction rule: list_all2_induct) (auto simp: name_members_def denotes_kv_def)

lemma ToLower_name: "ToLower ''name'' = ''name''"
  by (simp add: ToLower_def lower_char_def)

lemma named_obj:
  assumes "plain n" and "list_all (\<lambda>kv. plain (fst kv) \<and> valid (snd kv)) kvs" and "list_all (\<lambda>kv. ToLower (fst kv) \<noteq> ''name'') kvs"
  shows "holds_clusters (obj ((''name'', quote n) # kvs)) [n]"
proof -
  obtain ms where ms: "list_all2 denotes_kv kvs ms" using kvs_choose [OF assms(2)] by blast
  then have "denotes (obj ((''name'', quote n) # kvs)) (JObj ((''name'', JStr n) # ms))"
    using assms(1) by (intro denotes_obj) (auto intro!: kv_intro denotes_quote)
  moreover have "named (JObj ((''name'', JStr n) # ms)) n"
    using name_members_choose [OF ms assms(3)] by (simp add: named_def name_members_def ToLower_name)
  ultimately show ?thesis
    unfolding holds_clusters_def using seq_one by (intro disjI2 conjI exI [of _ "[JObj ((''name'', JStr n) # ms)]"]) simp_all
qed

lemma cluster_json_name:
  "plain n \<Longrightarrow> plain a \<Longrightarrow> number_text p \<Longrightarrow> holds_clusters (cluster_json n a p) [n]"
  unfolding cluster_json_def
  by (rule named_obj) (simp_all add: json_intros valid_number plain_def plain_char_def ToLower_def lower_char_def)

lemma holds_append:
  assumes "holds_clusters s ns" and "holds_clusters t ms" and "t \<noteq> []"
  shows "holds_clusters (append_fragment s t) (ns @ ms)"
proof (cases "s = []")
  case True
  with assms show ?thesis by (simp add: append_fragment_def holds_clusters_def)
next
  case False
  then obtain vs us where "denotes_seq s vs" "list_all2 named vs ns" "denotes_seq t us" "list_all2 named us ms"
    using assms by (auto simp: holds_clusters_def)
  with False seq_append [of s vs t us] show ?thesis
    unfolding holds_clusters_def append_fragment_def by (intro disjI2 conjI exI [of _ "vs @ us"]) (simp_all add: list_all2_appendI)
qed

lemma contains_names:
  assumes "cluster_decoder (l_clusterNames lib)" and "holds_clusters s ns"
  shows "containsSelfAdminCluster lib s = Inr (''self_admin'' \<in> set ns)"
  using cluster_decoder.names_fragment [OF assms] by (simp add: containsSelfAdminCluster_def selfAdminName_def)

definition add_cluster :: "string \<Rightarrow> string list \<Rightarrow> string list" where
  "add_cluster n ns = (if ns = [] then [n] else if ''self_admin'' \<in> set ns then ns else ns @ [n])"

lemma denotes_seq_nonempty: "denotes_seq s vs \<Longrightarrow> vs \<noteq> []"
  by (cases rule: denotes_seq.cases) auto

lemma maybe_listener_clusters:
  assumes dec: "cluster_decoder (l_clusterNames lib)" and run: "maybe_listener lib ba n mt mv pr bp a = Inr a'"
    and pa: "plain_args a" and bp: "bp = [] \<or> number_text bp" and ns: "holds_clusters (ta_StaticClustersJSON a) ns"
  shows "holds_clusters (ta_StaticClustersJSON a')
    (if ba = [] then ns else add_cluster (if bp = [] then ''self_admin'' else ''prometheus_backend'') ns)"
proof (cases "ba = []")
  case True
  with run ns show ?thesis by (simp add: maybe_listener_def)
next
  case False
  let ?n = "if bp = [] then ''self_admin'' else ''prometheus_backend''"
  let ?c = "cluster_json ?n (ta_AdminBindAddress a) (if bp = [] then ta_AdminBindPort a else bp)"
  have gen: "generateListenerConfig lib ba n mt mv pr bp a = Inr a'" using run False by (simp add: maybe_listener_def)
  have ex: "containsSelfAdminCluster lib (ta_StaticClustersJSON a) = Inr (''self_admin'' \<in> set ns)"
    by (rule contains_names [OF dec ns])
  have a': "ta_StaticClustersJSON a' = (if ta_StaticClustersJSON a = [] then ?c
      else if ''self_admin'' \<notin> set ns then ta_StaticClustersJSON a @ comma_nl @ ?c else ta_StaticClustersJSON a)"
    using gen ex unfolding generateListenerConfig_def
    by (cases "SplitHostPort ba"; cases "bp = []") (auto simp: Let_def selfAdminName_def)
  have c: "holds_clusters ?c [?n]"
    using pa bp by (intro cluster_json_name) (auto simp: plain_args_def)
  have cne: "?c \<noteq> []" by (simp add: cluster_json_def)
  have "ta_StaticClustersJSON a = [] \<longleftrightarrow> ns = []"
    using ns denotes_seq_nonempty by (auto simp: holds_clusters_def)
  then show ?thesis
    using False a' ns c holds_append [OF ns c cne] by (auto simp: add_cluster_def append_fragment_def)
qed

lemma telemetry_clusters:
  assumes "holds_clusters (ta_StaticClustersJSON a) ns" and "plain (telemetry_socket a dir)"
  shows "holds_clusters (ta_StaticClustersJSON (appendTelemetryCollectorConfig dir a)) (ns @ [''consul_telemetry_collector_loopback''])"
  unfolding appendTelemetryCollectorConfig_def
  using assms
  by simp (rule holds_append [OF _ named_obj], simp_all add: json_intros plain_def plain_char_def ToLower_def lower_char_def)

text \<open>With a certificate every listener adds the same two secrets again.\<close>

lemma secrets_repeated:
  assumes "generateListenerConfig lib ba1 n1 mt1 mv1 pr1 bp1 a = Inr a1" and "generateListenerConfig lib ba2 n2 mt2 mv2 pr2 bp2 a1 = Inr a2"
    and "ta_StaticSecretsJSON a = []" and "ta_PrometheusCertFile a \<noteq> []"
  shows "ta_StaticSecretsJSON a2 = secrets_json a @ comma_nl @ secrets_json a"
proof -
  have step: "ta_StaticSecretsJSON y = append_fragment (ta_StaticSecretsJSON x) (secrets_json x)"
    if "generateListenerConfig lib ba n mt mv pr bp x = Inr y" for ba n mt mv pr bp x y
    using that unfolding generateListenerConfig_def by (auto simp: Let_def split: sum.split_asm prod.split_asm)
  have "secrets_json a1 = secrets_json a" using listener_frame [OF assms(1)] by (auto simp: secrets_json_def)
  moreover have "secrets_json a \<noteq> []" using assms(4) by (simp add: secrets_json_def)
  ultimately show ?thesis using step [OF assms(1)] step [OF assms(2)] assms(3) by (simp add: append_fragment_def)
qed

section \<open>The clusters of a configuration\<close>

text \<open>
  The cluster names after the listeners and the telemetry collector are configured, from the
  user's own, and the clusters that the generated listeners and sinks send to.
\<close>

definition declared :: "BootstrapConfig \<Rightarrow> string \<Rightarrow> string list \<Rightarrow> string list" where
  "declared c bp us =
     (let n1 = (if bc_PrometheusBindAddr c = [] then us
                else add_cluster (if bp = [] then ''self_admin'' else ''prometheus_backend'') us);
          n2 = (if bc_StatsBindAddr c = [] then n1 else add_cluster ''self_admin'' n1);
          n3 = (if bc_ReadyBindAddr c = [] then n2 else add_cluster ''self_admin'' n2)
      in n3 @ (if bc_TelemetryCollectorBindSocketDir c = [] then [] else [''consul_telemetry_collector_loopback'']))"

definition targets :: "BootstrapConfig \<Rightarrow> string \<Rightarrow> string list" where
  "targets c bp =
     (if bc_PrometheusBindAddr c = [] then [] else [if bp = [] then ''self_admin'' else ''prometheus_backend''])
     @ (if bc_StatsBindAddr c = [] then [] else [''self_admin'']) @ (if bc_ReadyBindAddr c = [] then [] else [''self_admin''])
     @ (if bc_TelemetryCollectorBindSocketDir c = [] then [] else [''consul_telemetry_collector_loopback''])"

lemma declared_distinct:
  assumes "distinct us" "set (targets c bp) \<inter> set us = {}"
  shows "distinct (declared c bp us)"
  using assms by (auto simp: declared_def targets_def Let_def add_cluster_def)

lemma declared_targets:
  assumes "''self_admin'' \<notin> set us"
  shows "set (targets c bp) \<subseteq> set (declared c bp us)"
  using assms by (auto simp: declared_def targets_def Let_def add_cluster_def)

lemma declared_user: "set us \<subseteq> set (declared c bp us)"
  by (auto simp: declared_def Let_def add_cluster_def)

lemma final_stage_clusters:
  assumes "holds_clusters (ta_StaticClustersJSON a) ns" and "plain (telemetry_socket a (bc_TelemetryCollectorBindSocketDir c))"
  shows "holds_clusters (ta_StaticClustersJSON (final_stage lib c a))
    (ns @ (if bc_TelemetryCollectorBindSocketDir c = [] then [] else [''consul_telemetry_collector_loopback'']))"
proof -
  let ?a9 = "let a8 = (if bc_TracingConfigJSON c \<noteq> [] then a\<lparr>ta_TracingConfigJSON := bc_TracingConfigJSON c\<rparr> else a)
    in if bc_StatsFlushInterval c \<noteq> [] then a8\<lparr>ta_StatsFlushInterval := bc_StatsFlushInterval c\<rparr> else a8"
  have h: "holds_clusters (ta_StaticClustersJSON ?a9) ns" using assms(1) by (simp add: Let_def)
  have "telemetry_socket ?a9 d = telemetry_socket a d" for d by (simp add: telemetry_socket_def Let_def)
  with assms(2) telemetry_clusters [OF h]
  have "holds_clusters (ta_StaticClustersJSON (appendTelemetryCollectorConfig (bc_TelemetryCollectorBindSocketDir c) ?a9))
    (ns @ [''consul_telemetry_collector_loopback''])" by presburger
  with h show ?thesis
    unfolding final_stage_def Let_def by (cases "bc_TelemetryCollectorBindSocketDir c = []") simp_all
qed

lemma ConfigureArgs_clusters:
  assumes dec: "cluster_decoder (l_clusterNames lib)" and conf: "ConfigureArgs lib c omit a = Inr a'"
    and good: "good_config lib c a" and json: "json_args a" and pa: "plain_args a" and none: "ta_StaticClustersJSON a = []"
    and us: "holds_clusters (bc_StaticClustersJSON c) us"
  shows "holds_clusters (ta_StaticClustersJSON a') (declared c (ta_PrometheusBackendPort a) us)"
proof -
  obtain a1 a5 a6 a7 where st: "generateStatsSinks lib c a = Inr a1"
    "maybe_listener lib (bc_PrometheusBindAddr c) ''envoy_prometheus_metrics'' ''path'' (ta_PrometheusScrapePath (static_stage c omit a1))
       ''/stats/prometheus'' (ta_PrometheusBackendPort (static_stage c omit a1)) (static_stage c omit a1) = Inr a5"
    "maybe_listener lib (bc_StatsBindAddr c) ''envoy_metrics'' ''prefix'' ''/stats'' ''/stats'' [] a5 = Inr a6"
    "maybe_listener lib (bc_ReadyBindAddr c) ''envoy_ready'' ''path'' ''/ready'' ''/ready'' [] a6 = Inr a7"
    "a' = final_stage lib c a7"
    by (rule ConfigureArgs_stages [OF conf])
  obtain s where a1: "a1 = a\<lparr>ta_StatsSinksJSON := s\<rparr>" using generateStatsSinks_json [OF st(1) good json] by blast
  let ?a4 = "static_stage c omit a1"
  have s4: "same_scalars a ?a4" "ta_StatsFlushInterval ?a4 = ta_StatsFlushInterval a"
    using same_scalars_trans [OF _ static_stage_same(1), of a a1] static_stage_same(2) a1 by (simp_all add: same_scalars_def)
  have s5: "same_scalars a a5" "ta_StatsFlushInterval a5 = ta_StatsFlushInterval a"
    using same_scalars_trans [OF s4(1)] maybe_listener_same [OF st(2)] s4(2) by auto
  have s6: "same_scalars a a6" "ta_StatsFlushInterval a6 = ta_StatsFlushInterval a"
    using same_scalars_trans [OF s5(1)] maybe_listener_same [OF st(3)] s5(2) by auto
  have s7: "same_scalars a a7" using same_scalars_trans [OF s6(1)] maybe_listener_same [OF st(4)] by blast
  have fl: "plain (ta_StatsFlushInterval a)" using pa by (simp add: plain_args_def)
  have p: "plain_args ?a4" "plain_args a5" "plain_args a6"
    using plain_args_same [OF s4(1) _ pa] plain_args_same [OF s5(1) _ pa] plain_args_same [OF s6(1) _ pa] fl s4 s5 s6 by simp_all
  have bp: "ta_PrometheusBackendPort ?a4 = ta_PrometheusBackendPort a" using s4(1) by (simp add: same_scalars_def)
  have n: "ta_PrometheusBackendPort a = [] \<or> number_text (ta_PrometheusBackendPort a)" using pa by (simp add: plain_args_def)
  have h4: "holds_clusters (ta_StaticClustersJSON ?a4) us"
    using us none a1 by (auto simp: static_stage_def Let_def holds_clusters_def)
  note h5 = maybe_listener_clusters [OF dec st(2) p(1) _ h4, unfolded bp, OF n]
  note h6 = maybe_listener_clusters [OF dec st(3) p(2) disjI1 [OF refl] h5, unfolded if_P [OF refl]]
  note h7 = maybe_listener_clusters [OF dec st(4) p(3) disjI1 [OF refl] h6, unfolded if_P [OF refl]]
  have "telemetry_socket a7 d = telemetry_socket a d" for d using s7 by (simp add: telemetry_socket_def same_scalars_def)
  then have "plain (telemetry_socket a7 (bc_TelemetryCollectorBindSocketDir c))" using good by (simp add: good_config_def)
  from final_stage_clusters [OF h7 this] show ?thesis unfolding declared_def Let_def st(5) .
qed

section \<open>The generated bootstrap\<close>

text \<open>What is relied on of \<open>json.Indent\<close>: it succeeds on JSON text and only changes insignificant whitespace.\<close>

definition indent_keeps :: "lib \<Rightarrow> bool" where
  "indent_keeps lib \<longleftrightarrow> (\<forall>s v. denotes s v \<longrightarrow> (\<exists>t. l_Indent lib s = Inr t \<and> denotes t v))"

definition well_formed_input :: "lib \<Rightarrow> BootstrapConfig \<Rightarrow> BootstrapTplArgs \<Rightarrow> bool" where
  "well_formed_input lib c a \<longleftrightarrow> plain_args a \<and> json_args a \<and> good_config lib c a \<and> bc_OverrideJSONTpl c = []"

text \<open>The proxy's identity and the admin address of the arguments, in their places.\<close>

definition identifies :: "json \<Rightarrow> BootstrapTplArgs \<Rightarrow> bool" where
  "identifies v a \<longleftrightarrow>
     lookup v [Key ''admin'', Key ''address''] = Some (socket_json (ta_AdminBindAddress a) (ta_AdminBindPort a))
     \<and> lookup v [Key ''node'', Key ''id''] = Some (JStr (ta_ProxyID a))
     \<and> lookup v [Key ''node'', Key ''cluster''] = Some (JStr (ta_ProxyCluster a))
     \<and> lookup v [Key ''node'', Key ''metadata'', Key ''namespace''] = Some (JStr (default_or (ta_Namespace a)))"

definition clusters_are :: "json \<Rightarrow> json list \<Rightarrow> bool" where
  "clusters_are v cs \<longleftrightarrow> lookup v [Key ''static_resources'', Key ''clusters''] = Some (JArr cs)"

definition agent_cluster :: "json \<Rightarrow> BootstrapTplArgs \<Rightarrow> bool" where
  "agent_cluster x a \<longleftrightarrow>
     lookup x [Key ''name''] = Some (JStr (ta_LocalAgentClusterName a)) \<and> lookup x agent_endpoint = Some (endpoint_json a)"

lemma declared_subset: "set (declared c bp us) \<subseteq> set us \<union> set (targets c bp)"
  by (auto simp: declared_def targets_def Let_def add_cluster_def)

lemma holds_clusters_values: "holds_clusters s ns \<Longrightarrow> \<exists>cs. (if s = [] then cs = [] else denotes_seq s cs) \<and> list_all2 named cs ns"
  by (auto simp: holds_clusters_def)

lemma json_args_values: "json_args a \<Longrightarrow> \<exists>cs. if ta_StaticClustersJSON a = [] then cs = [] else denotes_seq (ta_StaticClustersJSON a) cs"
  by (auto simp: json_args_def fragment_def)

lemma GenerateJSON_configured:
  assumes "GenerateJSON lib c a omit = Inr t" and "well_formed_input lib c a"
  shows "\<exists>a'. ConfigureArgs lib c omit a = Inr a' \<and> l_Indent lib (bootstrapTemplate a') = Inr t \<and> json_args a' \<and> plain_args a' \<and> same_scalars a a'"
proof -
  have w: "plain_args a" "json_args a" "good_config lib c a" "bc_OverrideJSONTpl c = []"
    using assms(2) by (simp_all add: well_formed_input_def)
  obtain a' where conf: "ConfigureArgs lib c omit a = Inr a'" and ex: "l_Indent lib (bootstrapTemplate a') = Inr t"
    using assms(1) w(4) by (auto simp: GenerateJSON_def execute_template_def split: if_split_asm sum.split_asm)
  with ConfigureArgs_json [OF conf w(3,2,1)] show ?thesis by blast
qed

lemma template_holds:
  assumes "plain_args a'" "json_args a'" "same_scalars a a'"
    and "if ta_StaticClustersJSON a' = [] then cs = [] else denotes_seq (ta_StaticClustersJSON a') cs"
  shows "\<exists>v x. denotes (bootstrapTemplate a') v \<and> identifies v a \<and> clusters_are v (x # cs) \<and> agent_cluster x a"
proof -
  have same: "ta_AdminBindAddress a' = ta_AdminBindAddress a" "ta_AdminBindPort a' = ta_AdminBindPort a" "ta_ProxyID a' = ta_ProxyID a"
    "ta_ProxyCluster a' = ta_ProxyCluster a" "ta_Namespace a' = ta_Namespace a" "ta_LocalAgentClusterName a' = ta_LocalAgentClusterName a"
    "endpoint_json a' = endpoint_json a"
    using assms(3) by (simp_all add: same_scalars_def endpoint_json_def)
  from template_denotes [OF assms(1,2,4)] show ?thesis
    unfolding same identifies_def clusters_are_def agent_cluster_def by blast
qed

lemma GenerateJSON_holds:
  assumes "GenerateJSON lib c a omit = Inr t" and "well_formed_input lib c a" and "indent_keeps lib" and "ConfigureArgs lib c omit a = Inr a'"
    and "if ta_StaticClustersJSON a' = [] then cs = [] else denotes_seq (ta_StaticClustersJSON a') cs"
  shows "\<exists>v x. parse_json t = Some v \<and> denotes t v \<and> identifies v a \<and> clusters_are v (x # cs) \<and> agent_cluster x a"
proof -
  have a': "json_args a'" "plain_args a'" "same_scalars a a'" "l_Indent lib (bootstrapTemplate a') = Inr t"
    using GenerateJSON_configured [OF assms(1,2)] assms(4) by auto
  obtain v x where v: "denotes (bootstrapTemplate a') v" "identifies v a" "clusters_are v (x # cs)" "agent_cluster x a"
    using template_holds [OF a'(2,1,3) assms(5)] by blast
  from assms(3) v(1) obtain t' where "l_Indent lib (bootstrapTemplate a') = Inr t'" "denotes t' v"
    unfolding indent_keeps_def by blast
  with a'(4) have t: "denotes t v" by simp
  with parse_json_complete [OF t, of "[]" "[]"] v(2-) show ?thesis by auto
qed

text \<open>C5: for well-formed inputs and without a template of the user's, the bootstrap that
  \<open>GenerateJSON\<close> returns is JSON text, and it holds the proxy's identity, the admin listener's
  address and, as the first static cluster, the xDS server's address; it fails only if TLS to
  the agent has no CA or the configuration is refused.\<close>

theorem bootstrap_json_well_formed:
  assumes "well_formed_input lib c a" and "indent_keeps lib"
  shows "case GenerateJSON lib c a omit of
      Inl e \<Rightarrow> (g_AgentTLS (ta_GRPC a) \<and> ta_AgentCAPEM a = []) \<or> ConfigureArgs lib c omit a = Inl e
    | Inr t \<Rightarrow> (\<exists>v x cs. parse_json t = Some v \<and> denotes t v \<and> identifies v a \<and> clusters_are v (x # cs) \<and> agent_cluster x a)"
proof (cases "GenerateJSON lib c a omit")
  case (Inl e)
  show ?thesis
  proof (cases "ConfigureArgs lib c omit a")
    case (Inr a')
    have w: "plain_args a" "json_args a" "good_config lib c a" "bc_OverrideJSONTpl c = []"
      using assms(1) by (simp_all add: well_formed_input_def)
    have a': "plain_args a'" "json_args a'" using ConfigureArgs_json [OF Inr w(3,2,1)] by auto
    obtain t where "l_Indent lib (bootstrapTemplate a') = Inr t"
      using template_denotes [OF a'] json_args_values [OF a'(2)] assms(2) unfolding indent_keeps_def by blast
    with Inl Inr w(4) show ?thesis by (auto simp: GenerateJSON_def execute_template_def split: if_split_asm)
  qed (use Inl in \<open>auto simp: GenerateJSON_def split: if_split_asm\<close>)
next
  case (Inr t)
  obtain a' where a': "ConfigureArgs lib c omit a = Inr a'" "json_args a'" using GenerateJSON_configured [OF Inr assms(1)] by blast
  obtain cs where "if ta_StaticClustersJSON a' = [] then cs = [] else denotes_seq (ta_StaticClustersJSON a') cs"
    using json_args_values [OF a'(2)] by blast
  from GenerateJSON_holds [OF Inr assms a'(1) this] Inr show ?thesis by auto
qed


text \<open>A static cluster of the user's named \<open>self_admin\<close> keeps the generator from adding
  the \<open>prometheus_backend\<close> cluster, although the Prometheus listener it generates routes to it:
  the check asks for the wrong name.\<close>

lemma prometheus_backend_missing:
  assumes "well_formed_input lib c a" and "indent_keeps lib" and "cluster_decoder (l_clusterNames lib)"
    and "ta_StaticClustersJSON a = []" and "holds_clusters (bc_StaticClustersJSON c) us"
    and "''self_admin'' \<in> set us" and "''prometheus_backend'' \<notin> set us"
    and "bc_PrometheusBindAddr c \<noteq> []" and "ta_PrometheusBackendPort a \<noteq> []" and "GenerateJSON lib c a omit = Inr t"
  shows "''prometheus_backend'' \<in> set (targets c (ta_PrometheusBackendPort a))
    \<and> (\<exists>v x cs ns. parse_json t = Some v \<and> clusters_are v (x # cs) \<and> agent_cluster x a \<and> list_all2 named cs ns
         \<and> ''prometheus_backend'' \<notin> set ns)"
proof -
  let ?ns = "declared c (ta_PrometheusBackendPort a) us"
  have w: "plain_args a" "json_args a" "good_config lib c a" using assms(1) by (simp_all add: well_formed_input_def)
  obtain a' where conf: "ConfigureArgs lib c omit a = Inr a'" using GenerateJSON_configured [OF assms(10,1)] by blast
  have "holds_clusters (ta_StaticClustersJSON a') ?ns" by (rule ConfigureArgs_clusters [OF assms(3) conf w(3,2,1) assms(4,5)])
  then obtain cs where cs: "if ta_StaticClustersJSON a' = [] then cs = [] else denotes_seq (ta_StaticClustersJSON a') cs" "list_all2 named cs ?ns"
    using holds_clusters_values by blast
  have "''prometheus_backend'' \<notin> set ?ns" using assms(6,7) by (auto simp: declared_def Let_def add_cluster_def)
  with GenerateJSON_holds [OF assms(10,1,2) conf cs(1)] cs(2) assms(8,9) show ?thesis by (auto simp: targets_def)
qed

text \<open>A configuration with a Prometheus listener and a telemetry collector.\<close>

definition example_lib :: lib where
  "example_lib =
     \<lparr>l_Getenv = (\<lambda>_. []), l_Parse = (\<lambda>_. Inl (Err ''url'')),
      l_ParseRequestURI = (\<lambda>s. Inr \<lparr>u_Scheme = [], u_Hostname = [], u_Port = [], u_Path = s, u_RawQuery = []\<rparr>),
      l_clusterNames = decode_names, 
      l_Execute = (\<lambda>_ _. Inl (Err ''template'')), l_Indent = Inr\<rparr>"

definition example_config :: "string \<Rightarrow> BootstrapConfig" where
  "example_config clusters =
     \<lparr>bc_StatsdURL = [], bc_DogstatsdURL = [], bc_StatsTags = [''zone=a''], bc_TelemetryCollectorBindSocketDir = ''/tmp'',
      bc_PrometheusBindAddr = ''0.0.0.0:20200'', bc_StatsBindAddr = [], bc_ReadyBindAddr = [], bc_OverrideJSONTpl = [],
      bc_StaticClustersJSON = clusters, bc_StaticListenersJSON = [], bc_StatsSinksJSON = [], bc_StatsConfigJSON = [],
      bc_StatsFlushInterval = ''5s'', bc_TracingConfigJSON = []\<rparr>"

definition example_args :: BootstrapTplArgs where
  "example_args =
     \<lparr>ta_GRPC = \<lparr>g_AgentAddress = ''127.0.0.1'', g_AgentPort = ''8502'', g_AgentTLS = False, g_AgentSocket = []\<rparr>,
      ta_ProxyCluster = ''web'', ta_ProxyID = ''web-proxy'', ta_NodeName = ''node-1'', ta_ProxySourceService = ''web'', ta_AgentCAPEM = [],
      ta_AdminAccessLogConfig = [], ta_AdminAccessLogPath = ''/dev/null'', ta_AdminBindAddress = ''127.0.0.1'', ta_AdminBindPort = ''19000'',
      ta_LocalAgentClusterName = ''consul-dataplane'', ta_Token = [], ta_StaticClustersJSON = [], ta_StaticListenersJSON = [],
      ta_StatsSinksJSON = [], ta_StatsConfigJSON = [], ta_StaticSecretsJSON = [], ta_StatsFlushInterval = [], ta_TracingConfigJSON = [],
      ta_Namespace = [], ta_Partition = [], ta_Datacenter = ''dc1'', ta_PrometheusBackendPort = ''20100'', ta_PrometheusScrapePath = ''/metrics'',
      ta_PrometheusCAFile = [], ta_PrometheusCAPath = [], ta_PrometheusCertFile = [], ta_PrometheusKeyFile = []\<rparr>"

lemma example_plain: "plain_args example_args" and example_json: "json_args example_args"
proof -
  have n: "number_text ''19000''" "number_text ''8502''" "number_text ''20100''"
    by (rule num_int, simp add: int_part_def digits_def is_digit_def)+
  show "plain_args example_args"
    using n by (simp add: plain_args_def example_args_def) (simp add: plain_def plain_char_def)
  show "json_args example_args" by (simp add: json_args_def example_args_def fragment_def)
qed

lemma example_bind: "SplitHostPort ''0.0.0.0:20200'' = Inr (''0.0.0.0'', ''20200'')"
  by code_simp

lemma example_good: "fragment clusters \<Longrightarrow> good_config example_lib (example_config clusters) example_args"
proof -
  assume "fragment clusters"
  moreover have "number_text ''20200''" by (rule num_int) (simp add: int_part_def digits_def is_digit_def)
  moreover have "SplitHostPort [] = Inl (Err ''missing port in address'')" by code_simp
  ultimately show ?thesis
    by (simp add: good_config_def example_config_def example_lib_def example_args_def fragment_def sink_ok_def bind_ok_def example_bind
        match_value_def HasPrefix_def plain_def plain_char_def)
qed

lemma example_lib_laws: "indent_keeps example_lib" "cluster_decoder (l_clusterNames example_lib)"
  using parsed.cluster_decoder_axioms by (simp_all add: indent_keeps_def example_lib_def)

lemma example_generates:
  assumes "holds_clusters clusters us"
  shows "\<exists>t. GenerateJSON example_lib (example_config clusters) example_args False = Inr t"
proof -
  let ?c = "example_config clusters"
  let ?a = "static_stage ?c False example_args"
  have sinks: "generateStatsSinks example_lib ?c example_args = Inr example_args"
    by (simp add: generateStatsSinks_def sink_if_set_def example_config_def)
  have "ta_StaticClustersJSON ?a = clusters"
    by (simp add: static_stage_def example_config_def example_args_def Let_def)
  then have "containsSelfAdminCluster example_lib (ta_StaticClustersJSON ?a) = Inr (''self_admin'' \<in> set us)"
    using contains_names [OF example_lib_laws(2) assms] by simp
  then obtain a5 where "maybe_listener example_lib (bc_PrometheusBindAddr ?c) ''envoy_prometheus_metrics'' ''path'' (ta_PrometheusScrapePath ?a)
      ''/stats/prometheus'' (ta_PrometheusBackendPort ?a) ?a = Inr a5"
    using example_bind by (auto simp: maybe_listener_def generateListenerConfig_def Let_def example_config_def)
  then have "ConfigureArgs example_lib ?c False example_args = Inr (final_stage example_lib ?c a5)"
    by (rule ConfigureArgs_from_stages [OF sinks]) (simp_all add: maybe_listener_def example_config_def)
  then show ?thesis
    by (simp add: GenerateJSON_def execute_template_def example_config_def) (simp add: example_lib_def example_args_def)
qed

lemma example_well_formed: "fragment clusters \<Longrightarrow> well_formed_input example_lib (example_config clusters) example_args"
  using example_good example_plain example_json by (simp add: well_formed_input_def example_config_def)

theorem bootstrap_json_well_formed_witness:
  "\<exists>t v x cs. GenerateJSON example_lib (example_config []) example_args False = Inr t \<and> parse_json t = Some v \<and> identifies v example_args
     \<and> clusters_are v (x # cs) \<and> lookup x agent_endpoint = Some (socket_json ''127.0.0.1'' ''8502'')"
proof -
  obtain t where "GenerateJSON example_lib (example_config []) example_args False = Inr t"
    using example_generates [of "[]" "[]"] by (auto simp: holds_clusters_def)
  moreover have "endpoint_json example_args = socket_json ''127.0.0.1'' ''8502''" by (simp add: endpoint_json_def example_args_def)
  ultimately show ?thesis
    using bootstrap_json_well_formed [OF example_well_formed example_lib_laws(1), of "[]" False]
    by (auto simp: fragment_def agent_cluster_def)
qed


lemma prometheus_backend_missing_witness:
  "\<exists>t v x cs ns. GenerateJSON example_lib (example_config (obj [(''name'', quote ''self_admin'')])) example_args False = Inr t
     \<and> parse_json t = Some v \<and> clusters_are v (x # cs) \<and> list_all2 named cs ns \<and> ''prometheus_backend'' \<notin> set ns"
proof -
  let ?s = "obj [(''name'', quote ''self_admin'')]"
  have h: "holds_clusters ?s [''self_admin'']" by (rule named_obj) simp_all
  obtain t where t: "GenerateJSON example_lib (example_config ?s) example_args False = Inr t"
    using example_generates [OF h] by blast
  have f: "fragment ?s" using h by (auto simp: holds_clusters_def fragment_def)
  have n: "ta_StaticClustersJSON example_args = []" "bc_StaticClustersJSON (example_config ?s) = ?s"
    "bc_PrometheusBindAddr (example_config ?s) \<noteq> []" "ta_PrometheusBackendPort example_args \<noteq> []"
    by (simp_all add: example_args_def example_config_def)
  have us: "holds_clusters (bc_StaticClustersJSON (example_config ?s)) [''self_admin'']" using h n(2) by simp
  have "\<exists>v x cs ns. parse_json t = Some v \<and> clusters_are v (x # cs) \<and> agent_cluster x example_args \<and> list_all2 named cs ns
         \<and> ''prometheus_backend'' \<notin> set ns"
    using prometheus_backend_missing [OF example_well_formed [OF f] example_lib_laws n(1) us _ _ n(3,4) t] by simp
  with t show ?thesis by blast
qed

end
