(* ===== verification/Dataplane_Config.thy ===== *)
theory Dataplane_Config
  imports Go_Net
begin

text \<open>
  The configuration of a dataplane, \<open>pkg/consuldp/config.go\<close>, with its two loaders
  (\<open>TLSConfig.Load\<close>, \<open>CredentialsConfig.ToDiscoveryCredentials\<close>), and its validation
  (\<open>validateConfig\<close> of \<open>pkg/consuldp/consul_dataplane.go\<close>), nil dereferences included.
  A Go pointer is an option; field names carry a prefix of their struct.
\<close>

section \<open>Data\<close>

type_synonym CredentialsType = string
type_synonym ModeType = string

definition CredentialsTypeNone :: CredentialsType where "CredentialsTypeNone = []"
definition CredentialsTypeStatic :: CredentialsType where "CredentialsTypeStatic = ''static''"
definition CredentialsTypeLogin :: CredentialsType where "CredentialsTypeLogin = ''login''"

definition ModeTypeSidecar :: ModeType where "ModeTypeSidecar = ''sidecar''"
definition ModeTypeDNSProxy :: ModeType where "ModeTypeDNSProxy = ''dns-proxy''"

record DNSServerConfig =
  dns_BindAddr :: string
  dns_Port :: int

record TLSConfig =
  tls_Disabled :: bool
  tls_CACertsPath :: string
  tls_ServerName :: string
  tls_CertFile :: string
  tls_KeyFile :: string
  tls_InsecureSkipVerify :: bool

record StaticCredentialsConfig =
  sc_Token :: string

record LoginCredentialsConfig =
  lc_AuthMethod :: string
  lc_Namespace :: string
  lc_Partition :: string
  lc_Datacenter :: string
  lc_BearerToken :: string
  lc_BearerTokenPath :: string
  lc_Meta :: "string \<rightharpoonup> string"

record CredentialsConfig =
  cred_Type :: CredentialsType
  cred_Static :: StaticCredentialsConfig
  cred_Login :: LoginCredentialsConfig

record ConsulConfig =
  cc_Addresses :: string
  cc_GRPCPort :: int
  cc_Credentials :: "CredentialsConfig option"
  cc_ServerWatchDisabled :: bool
  cc_TLS :: "TLSConfig option"

record LoggingConfig =
  log_Name :: string
  log_Level :: string
  log_JSON :: bool

record ProxyDetails =
  pd_NodeName :: string
  pd_NodeID :: string
  pd_ProxyID :: string
  pd_Namespace :: string
  pd_Partition :: string

text \<open>Durations are int64 nanoseconds.\<close>

record PrometheusTelemetryConfig =
  prom_RetentionTime :: int
  prom_CACertsPath :: string
  prom_KeyFile :: string
  prom_CertFile :: string
  prom_ServiceMetricsURL :: string
  prom_ScrapePath :: string
  prom_MergePort :: int

record TelemetryConfig =
  tel_UseCentralConfig :: bool
  tel_Prometheus :: PrometheusTelemetryConfig

record EnvoyConfig =
  en_ExecutablePath :: string
  en_AdminBindAddress :: string
  en_AdminBindPort :: int
  en_ReadyBindAddress :: string
  en_ReadyBindPort :: int
  en_Concurrency :: int
  en_DrainTimeSeconds :: int
  en_DrainStrategy :: string
  en_ShutdownDrainListenersEnabled :: bool
  en_ShutdownGracePeriodSeconds :: int
  en_GracefulShutdownPath :: string
  en_StartupGracePeriodSeconds :: int
  en_GracefulStartupPath :: string
  en_GracefulAddr :: string
  en_GracefulPort :: int
  en_DumpEnvoyConfigOnExitEnabled :: bool
  en_ExtraArgs :: "string list"

record XDSServerConfig =
  xds_BindAddress :: string
  xds_BindPort :: int

record Config =
  cfg_Mode :: ModeType
  cfg_DNSServer :: "DNSServerConfig option"
  cfg_Consul :: "ConsulConfig option"
  cfg_Proxy :: "ProxyDetails option"
  cfg_Logging :: "LoggingConfig option"
  cfg_Telemetry :: "TelemetryConfig option"
  cfg_Envoy :: "EnvoyConfig option"
  cfg_XDSServer :: "XDSServerConfig option"

section \<open>Loaders\<close>

text \<open>
  The parts of \<open>crypto/tls\<close> and of the discovery and root-certificate libraries the
  loaders fill in; pools and certificates are opaque.
\<close>

record tls_Config =
  tc_ServerName :: string
  tc_InsecureSkipVerify :: bool
  tc_RootCAs :: "nat option"
  tc_Certificates :: "nat list"

record rootcerts_Config =
  rc_CAFile :: string
  rc_CAPath :: string

text \<open>
  \<open>isDir\<close> is the answer of \<open>os.Stat\<close>, \<open>configureTLS\<close> is \<open>rootcerts.ConfigureTLS\<close> and
  \<open>loadKeyPair\<close> is \<open>tls.LoadX509KeyPair\<close>. A disabled configuration loads as nil.
\<close>

definition Load :: "(string \<Rightarrow> bool result) \<Rightarrow> (rootcerts_Config \<Rightarrow> tls_Config \<Rightarrow> tls_Config result)
    \<Rightarrow> (string \<Rightarrow> string \<Rightarrow> nat result) \<Rightarrow> TLSConfig \<Rightarrow> tls_Config option result" where
  "Load isDir configureTLS loadKeyPair t =
     (if tls_Disabled t then Inr None
      else
        (let tlsCfg = \<lparr>tc_ServerName = tls_ServerName t, tc_InsecureSkipVerify = tls_InsecureSkipVerify t,
                       tc_RootCAs = None, tc_Certificates = []\<rparr>;
             path = tls_CACertsPath t
         in case (if path = [] then Inr \<lparr>rc_CAFile = [], rc_CAPath = []\<rparr>
                  else case isDir path of
                    Inl e \<Rightarrow> Inl (Wrap ''failed to read CA certs'' e)
                  | Inr True \<Rightarrow> Inr \<lparr>rc_CAFile = [], rc_CAPath = path\<rparr>
                  | Inr False \<Rightarrow> Inr \<lparr>rc_CAFile = path, rc_CAPath = []\<rparr>) of
              Inl e \<Rightarrow> Inl e
            | Inr rootCfg \<Rightarrow>
                (case configureTLS rootCfg tlsCfg of
                   Inl e \<Rightarrow> Inl (Wrap ''failed to configure CA certs'' e)
                 | Inr tlsCfg' \<Rightarrow>
                     if tls_CertFile t \<noteq> [] \<and> tls_KeyFile t \<noteq> []
                     then (case loadKeyPair (tls_CertFile t) (tls_KeyFile t) of
                             Inl e \<Rightarrow> Inl (Wrap ''failed to configure TLS cert'' e)
                           | Inr cert \<Rightarrow> Inr (Some (tlsCfg'\<lparr>tc_Certificates := [cert]\<rparr>)))
                     else Inr (Some tlsCfg'))))"

record LoginCredential =
  dl_AuthMethod :: string
  dl_Namespace :: string
  dl_Partition :: string
  dl_Datacenter :: string
  dl_BearerToken :: string
  dl_Meta :: "string \<rightharpoonup> string"

text \<open>\<open>discovery.Credentials\<close>: a tag with the variant it selects.\<close>

datatype Credentials = NoCredentials | StaticTokenCredential string | LoginCredentials LoginCredential

definition ToDiscoveryCredentials :: "(string \<Rightarrow> string result) \<Rightarrow> CredentialsConfig \<Rightarrow> Credentials result" where
  "ToDiscoveryCredentials readFile c =
     (if cred_Type c = CredentialsTypeNone then Inr NoCredentials
      else if cred_Type c = CredentialsTypeStatic then Inr (StaticTokenCredential (sc_Token (cred_Static c)))
      else if cred_Type c = CredentialsTypeLogin then
        (let l = cred_Login c;
             d = \<lparr>dl_AuthMethod = lc_AuthMethod l, dl_Namespace = lc_Namespace l, dl_Partition = lc_Partition l,
                  dl_Datacenter = lc_Datacenter l, dl_BearerToken = lc_BearerToken l, dl_Meta = lc_Meta l\<rparr>
         in if dl_BearerToken d = [] \<and> lc_BearerTokenPath l \<noteq> []
            then (case readFile (lc_BearerTokenPath l) of
                    Inl e \<Rightarrow> Inl (Wrap ''failed to read bearer token from file'' e)
                  | Inr bearer \<Rightarrow> Inr (LoginCredentials (d\<lparr>dl_BearerToken := bearer\<rparr>)))
            else Inr (LoginCredentials d))
      else Inl (Err (''unknown credential type: '' @ cred_Type c)))"

section \<open>Validation\<close>

text \<open>A field of a struct behind a pointer, Go's \<open>&&\<close>, and its \<open>switch\<close> over conditions that return errors.\<close>

definition field :: "'a option \<Rightarrow> ('a \<Rightarrow> 'b) \<Rightarrow> 'b outcome" where
  "field p f = bind_outcome (deref p) (\<lambda>a. Ok (f a))"

fun both :: "bool outcome \<Rightarrow> bool outcome \<Rightarrow> bool outcome" where
  "both (Ok False) b = Ok False"
| "both (Ok True) b = b"
| "both r b = r"

fun switch :: "(bool outcome \<times> string) list \<Rightarrow> unit outcome" where
  "switch [] = Ok ()"
| "switch ((c, msg) # cs) =
     bind_outcome c (\<lambda>holds. if holds then Error (Err msg) else switch cs)"

definition validate_switch :: "Config \<Rightarrow> unit outcome" where
  "validate_switch c =
     (let sidecar = Ok (cfg_Mode c = ModeTypeSidecar) in
      switch
       [(if cfg_Consul c = None then Ok True else field (cfg_Consul c) (\<lambda>k. cc_Addresses k = []),
         ''consul addresses not specified''),
        (field (cfg_Consul c) (\<lambda>k. cc_GRPCPort k = 0), ''consul server gRPC port not specified''),
        (both sidecar (Ok (cfg_Proxy c = None)), ''proxy details not specified''),
        (both sidecar (field (cfg_Proxy c) (\<lambda>p. pd_ProxyID p = [])), ''proxy ID not specified''),
        (both sidecar (Ok (cfg_Envoy c = None)), ''envoy settings not specified''),
        (both sidecar (field (cfg_Envoy c) (\<lambda>e. en_AdminBindAddress e = [])), ''envoy admin bind address not specified''),
        (both sidecar (field (cfg_Envoy c) (\<lambda>e. en_AdminBindPort e = 0)), ''envoy admin bind port not specified''),
        (Ok (cfg_Logging c = None), ''logging settings not specified''),
        (both sidecar (field (cfg_XDSServer c) (\<lambda>x. xds_BindAddress x = [])), ''envoy xDS bind address not specified''),
        (both sidecar (field (cfg_XDSServer c) (\<lambda>x. \<not> HasPrefix (xds_BindAddress x) ''unix://''
            \<and> \<not> IsLoopback (ParseIP (xds_BindAddress x)))), ''non-local xDS bind address not allowed''),
        (both sidecar (field (cfg_DNSServer c) (\<lambda>d. dns_Port d \<noteq> - 1 \<and> \<not> IsLoopback (ParseIP (dns_BindAddr d)))),
         ''non-local DNS proxy bind address not allowed when running as a sidecar''),
        (both (Ok (cfg_Mode c = ModeTypeDNSProxy \<and> cfg_Proxy c \<noteq> None))
           (field (cfg_Proxy c) (\<lambda>p. pd_Namespace p \<noteq> [] \<and> pd_Namespace p \<noteq> ''default'')),
         ''namespace must be empty or set to '' @ [CHR 0x27] @ ''default'' @ [CHR 0x27] @ '' when running in dns-proxy mode'')])"

definition validate_telemetry :: "TelemetryConfig option \<Rightarrow> unit outcome" where
  "validate_telemetry t =
     (case t of
        None \<Rightarrow> Ok ()
      | Some tel \<Rightarrow>
          (let prom = tel_Prometheus tel in
           if (prom_KeyFile prom \<noteq> [] \<or> prom_CertFile prom \<noteq> [] \<or> prom_CACertsPath prom \<noteq> [])
              \<and> (prom_KeyFile prom = [] \<or> prom_CertFile prom = [] \<or> prom_CACertsPath prom = [])
           then Error (Err (''Must provide -telemetry-prom-ca-certs-path, -telemetry-prom-cert-file, ''
                  @ ''and -telemetry-prom-key-file to enable TLS for prometheus metrics''))
           else if prom_RetentionTime prom \<le> 0
           then Error (Err ''-telemetry-prom-retention-time must be greater than zero'')
           else if prom_ScrapePath prom = []
           then Error (Err ''-telemetry-prom-scrape-path must not be empty'')
           else Ok ()))"

definition validateConfig :: "Config \<Rightarrow> unit outcome" where
  "validateConfig c =
     bind_outcome (validate_switch c) (\<lambda>_.
     bind_outcome (deref (cfg_Consul c)) (\<lambda>consul.
     bind_outcome (deref (cc_Credentials consul)) (\<lambda>creds.
       if cred_Type creds = CredentialsTypeLogin \<and> lc_BearerToken (cred_Login creds) = []
          \<and> lc_BearerTokenPath (cred_Login creds) = []
       then Error (Err ''bearer token (or path to a file containing a bearer token) is required for login'')
       else validate_telemetry (cfg_Telemetry c))))"

section \<open>The declarative specification\<close>

definition local_address :: "string \<Rightarrow> bool" where
  "local_address a \<longleftrightarrow> IsLoopback (ParseIP a)"

definition sidecar_valid :: "Config \<Rightarrow> bool" where
  "sidecar_valid c \<longleftrightarrow>
     (case (cfg_Proxy c, cfg_Envoy c, cfg_XDSServer c, cfg_DNSServer c) of
        (Some p, Some e, Some x, Some d) \<Rightarrow>
          pd_ProxyID p \<noteq> [] \<and> en_AdminBindAddress e \<noteq> [] \<and> en_AdminBindPort e \<noteq> 0
          \<and> xds_BindAddress x \<noteq> []
          \<and> (HasPrefix (xds_BindAddress x) ''unix://'' \<or> local_address (xds_BindAddress x))
          \<and> (dns_Port d = - 1 \<or> local_address (dns_BindAddr d))
      | _ \<Rightarrow> False)"

definition prometheus_valid :: "PrometheusTelemetryConfig \<Rightarrow> bool" where
  "prometheus_valid prom \<longleftrightarrow>
     ((prom_KeyFile prom = []) = (prom_CertFile prom = []) \<and> (prom_KeyFile prom = []) = (prom_CACertsPath prom = []))
     \<and> prom_RetentionTime prom > 0 \<and> prom_ScrapePath prom \<noteq> []"

definition valid_config :: "Config \<Rightarrow> bool" where
  "valid_config c \<longleftrightarrow>
     (case cfg_Consul c of
        None \<Rightarrow> False
      | Some k \<Rightarrow>
          cc_Addresses k \<noteq> [] \<and> cc_GRPCPort k \<noteq> 0
          \<and> (case cc_Credentials k of
               None \<Rightarrow> False
             | Some cr \<Rightarrow> cred_Type cr \<noteq> CredentialsTypeLogin \<or> lc_BearerToken (cred_Login cr) \<noteq> []
                          \<or> lc_BearerTokenPath (cred_Login cr) \<noteq> []))
     \<and> cfg_Logging c \<noteq> None
     \<and> (cfg_Mode c = ModeTypeSidecar \<longrightarrow> sidecar_valid c)
     \<and> (cfg_Mode c = ModeTypeDNSProxy \<longrightarrow>
          (case cfg_Proxy c of None \<Rightarrow> True | Some p \<Rightarrow> pd_Namespace p \<in> {[], ''default''}))
     \<and> (case cfg_Telemetry c of None \<Rightarrow> True | Some t \<Rightarrow> prometheus_valid (tel_Prometheus t))"

section \<open>Lemmas\<close>

lemma both_Ok_False_iff [go_simps]:
  "both a b = Ok False \<longleftrightarrow> a = Ok False \<or> (a = Ok True \<and> b = Ok False)"
  by (cases "(a, b)" rule: both.cases) auto

lemma field_Ok_iff [go_simps]: "field p f = Ok b \<longleftrightarrow> (\<exists>a. p = Some a \<and> f a = b)"
  by (cases p) (auto simp: field_def)

lemma switch_Ok_iff [go_simps]:
  "switch cs = Ok () \<longleftrightarrow> (\<forall>x \<in> set cs. fst x = Ok False)"
proof (induction cs)
  case (Cons x cs)
  obtain c msg where "x = (c, msg)" by fastforce
  with Cons show ?case by (cases c) auto
qed simp

lemma validate_telemetry_iff [go_simps]:
  "validate_telemetry t = Ok () \<longleftrightarrow> (case t of None \<Rightarrow> True | Some tel \<Rightarrow> prometheus_valid (tel_Prometheus tel))"
  by (cases t) (auto simp: validate_telemetry_def prometheus_valid_def Let_def)

lemma modes_differ [simp]: "ModeTypeDNSProxy \<noteq> ModeTypeSidecar" "ModeTypeSidecar \<noteq> ModeTypeDNSProxy"
  by (simp_all add: ModeTypeDNSProxy_def ModeTypeSidecar_def)

lemma validate_switch_iff:
  "validate_switch c = Ok () \<longleftrightarrow>
     (\<exists>k. cfg_Consul c = Some k \<and> cc_Addresses k \<noteq> [] \<and> cc_GRPCPort k \<noteq> 0)
     \<and> cfg_Logging c \<noteq> None
     \<and> (cfg_Mode c = ModeTypeSidecar \<longrightarrow> sidecar_valid c)
     \<and> (cfg_Mode c = ModeTypeDNSProxy \<longrightarrow>
          (case cfg_Proxy c of None \<Rightarrow> True | Some p \<Rightarrow> pd_Namespace p \<in> {[], ''default''}))"
proof (cases "cfg_Mode c = ModeTypeSidecar")
  case True
  then show ?thesis
    by (cases "cfg_Consul c"; cases "cfg_Proxy c"; cases "cfg_Envoy c"; cases "cfg_XDSServer c"; cases "cfg_DNSServer c")
       (auto simp: validate_switch_def Let_def go_simps sidecar_valid_def local_address_def)
next
  case False
  then show ?thesis
    by (cases "cfg_Consul c"; cases "cfg_Proxy c")
       (auto simp: validate_switch_def Let_def go_simps)
qed

lemma valid_sidecar_parts:
  assumes "valid_config c" and "cfg_Mode c = ModeTypeSidecar"
  obtains k cr p e x d where "cfg_Consul c = Some k" "cc_Credentials k = Some cr" "cfg_Proxy c = Some p" "cfg_Envoy c = Some e"
    "cfg_XDSServer c = Some x" "cfg_DNSServer c = Some d" "cfg_Logging c \<noteq> None"
  using assms by (auto simp: valid_config_def sidecar_valid_def split: option.splits)

section \<open>Properties\<close>

text \<open>A complete sidecar configuration for the witnesses.\<close>

definition sample_envoy :: EnvoyConfig where
  "sample_envoy = \<lparr>en_ExecutablePath = ''/envoy'', en_AdminBindAddress = ''127.0.0.1'', en_AdminBindPort = 19000,
     en_ReadyBindAddress = [], en_ReadyBindPort = 0, en_Concurrency = 2, en_DrainTimeSeconds = 30,
     en_DrainStrategy = ''immediate'', en_ShutdownDrainListenersEnabled = True, en_ShutdownGracePeriodSeconds = 5,
     en_GracefulShutdownPath = [], en_StartupGracePeriodSeconds = 1, en_GracefulStartupPath = [],
     en_GracefulAddr = [], en_GracefulPort = 20300, en_DumpEnvoyConfigOnExitEnabled = False, en_ExtraArgs = []\<rparr>"

definition sample_login :: LoginCredentialsConfig where
  "sample_login = \<lparr>lc_AuthMethod = ''k8s'', lc_Namespace = [], lc_Partition = [], lc_Datacenter = [],
     lc_BearerToken = [], lc_BearerTokenPath = ''/token'', lc_Meta = Map.empty\<rparr>"

definition sample_creds :: CredentialsConfig where
  "sample_creds = \<lparr>cred_Type = CredentialsTypeLogin, cred_Static = \<lparr>sc_Token = []\<rparr>, cred_Login = sample_login\<rparr>"

definition sample_tls :: TLSConfig where
  "sample_tls = \<lparr>tls_Disabled = False, tls_CACertsPath = ''/ca'', tls_ServerName = ''server'', tls_CertFile = ''/c'',
     tls_KeyFile = ''/k'', tls_InsecureSkipVerify = False\<rparr>"

definition sample_consul :: ConsulConfig where
  "sample_consul = \<lparr>cc_Addresses = ''consul'', cc_GRPCPort = 8502, cc_Credentials = Some sample_creds,
     cc_ServerWatchDisabled = False, cc_TLS = Some sample_tls\<rparr>"

definition sample_proxy_details :: ProxyDetails where
  "sample_proxy_details = \<lparr>pd_NodeName = ''node'', pd_NodeID = [], pd_ProxyID = ''web-proxy'', pd_Namespace = [], pd_Partition = []\<rparr>"

definition sample_prometheus :: PrometheusTelemetryConfig where
  "sample_prometheus = \<lparr>prom_RetentionTime = 60000000000, prom_CACertsPath = [], prom_KeyFile = [], prom_CertFile = [],
     prom_ServiceMetricsURL = [], prom_ScrapePath = ''/metrics'', prom_MergePort = 20100\<rparr>"

definition sample_cfg :: Config where
  "sample_cfg = \<lparr>cfg_Mode = ModeTypeSidecar, cfg_DNSServer = Some \<lparr>dns_BindAddr = dotted 127 0 0 1, dns_Port = 8600\<rparr>,
     cfg_Consul = Some sample_consul, cfg_Proxy = Some sample_proxy_details,
     cfg_Logging = Some \<lparr>log_Name = [], log_Level = ''info'', log_JSON = False\<rparr>,
     cfg_Telemetry = Some \<lparr>tel_UseCentralConfig = True, tel_Prometheus = sample_prometheus\<rparr>,
     cfg_Envoy = Some sample_envoy, cfg_XDSServer = Some \<lparr>xds_BindAddress = dotted 127 0 0 1, xds_BindPort = 0\<rparr>\<rparr>"

lemmas sample_defs = sample_cfg_def sample_consul_def sample_creds_def sample_login_def sample_tls_def
  sample_proxy_details_def sample_prometheus_def sample_envoy_def

lemma validate_iff: "validateConfig c = Ok () \<longleftrightarrow> valid_config c"
  by (cases "cfg_Consul c")
     (auto simp: validateConfig_def valid_config_def validate_switch_iff go_simps split: option.splits)

lemma sample_valid: "validateConfig sample_cfg = Ok ()"
proof -
  have "local_address (dotted 127 0 0 1)" "dotted 127 0 0 1 \<noteq> []"
    using loopback_dotted [of 127 0 0 1] nat_digits_props [of 127] by (simp_all add: local_address_def dotted_def)
  then show ?thesis
    unfolding validate_iff
    by (simp add: valid_config_def sidecar_valid_def prometheus_valid_def sample_defs)
qed

text \<open>C8: Validation accepts exactly the valid configurations. The sequence of checks with
  its early returns and its pointer dereferences reports no error and does not panic if and
  only if the declarative conditions on the configuration hold: addresses, port, credentials
  and logging present, all sidecar settings present and local in sidecar mode, the default
  namespace in DNS proxy mode, and consistent telemetry settings.\<close>

theorem validate_config_exact: "validateConfig c = Ok () \<longleftrightarrow> valid_config c"
  by (rule validate_iff)



text \<open>Which bearer token is used. After validation, logging in with an auth method uses
  the token of the configuration when there is one and otherwise the contents of the token
  file, with the other login settings unchanged; the only possible error is that the file
  cannot be read.\<close>

lemma login_credentials:
  assumes "validateConfig c = Ok ()" and "cfg_Consul c = Some k" and "cc_Credentials k = Some cr"
    and "cred_Type cr = CredentialsTypeLogin"
  shows "case ToDiscoveryCredentials readFile cr of
      Inl e \<Rightarrow> \<exists>e'. lc_BearerToken (cred_Login cr) = [] \<and> readFile (lc_BearerTokenPath (cred_Login cr)) = Inl e'
                 \<and> e = Wrap ''failed to read bearer token from file'' e'
    | Inr (LoginCredentials d) \<Rightarrow>
        (if lc_BearerToken (cred_Login cr) \<noteq> [] then dl_BearerToken d = lc_BearerToken (cred_Login cr)
         else readFile (lc_BearerTokenPath (cred_Login cr)) = Inr (dl_BearerToken d))
        \<and> dl_AuthMethod d = lc_AuthMethod (cred_Login cr) \<and> dl_Namespace d = lc_Namespace (cred_Login cr)
        \<and> dl_Partition d = lc_Partition (cred_Login cr) \<and> dl_Datacenter d = lc_Datacenter (cred_Login cr)
        \<and> dl_Meta d = lc_Meta (cred_Login cr)
    | Inr _ \<Rightarrow> False"
proof -
  have ty: "CredentialsTypeLogin \<noteq> CredentialsTypeNone" "CredentialsTypeLogin \<noteq> CredentialsTypeStatic"
    by (simp_all add: CredentialsTypeLogin_def CredentialsTypeNone_def CredentialsTypeStatic_def)
  have "lc_BearerToken (cred_Login cr) \<noteq> [] \<or> lc_BearerTokenPath (cred_Login cr) \<noteq> []"
    using assms by (simp add: validate_iff valid_config_def)
  then show ?thesis
    using assms(4) ty
    by (cases "lc_BearerToken (cred_Login cr) = []"; cases "readFile (lc_BearerTokenPath (cred_Login cr))")
       (simp_all add: ToDiscoveryCredentials_def Let_def)
qed

text \<open>What the TLS settings mean. Given that configuring the root certificates only sets
  the root pool, a loaded TLS configuration is nil exactly when TLS is disabled; otherwise it
  carries the server name and verification flag of the settings, its roots come from the given
  file or directory, and it has a client certificate exactly when both the certificate and
  the key file are set.\<close>

lemma tls_load:
  assumes "\<And>r t t'. configureTLS r t = Inr t' \<Longrightarrow> t' = t\<lparr>tc_RootCAs := tc_RootCAs t'\<rparr>"
    and "Load isDir configureTLS loadKeyPair t = Inr res"
  shows "case res of
      None \<Rightarrow> tls_Disabled t
    | Some cfg \<Rightarrow> \<not> tls_Disabled t \<and> tc_ServerName cfg = tls_ServerName t
        \<and> tc_InsecureSkipVerify cfg = tls_InsecureSkipVerify t
        \<and> (if tls_CertFile t = [] \<or> tls_KeyFile t = [] then tc_Certificates cfg = []
           else \<exists>cert. loadKeyPair (tls_CertFile t) (tls_KeyFile t) = Inr cert \<and> tc_Certificates cfg = [cert])
        \<and> (\<exists>r t0 t1. configureTLS r t0 = Inr t1 \<and> tc_RootCAs cfg = tc_RootCAs t1
             \<and> (if tls_CACertsPath t = [] then r = \<lparr>rc_CAFile = [], rc_CAPath = []\<rparr>
                else if isDir (tls_CACertsPath t) = Inr True then r = \<lparr>rc_CAFile = [], rc_CAPath = tls_CACertsPath t\<rparr>
                else r = \<lparr>rc_CAFile = tls_CACertsPath t, rc_CAPath = []\<rparr>))"
proof (cases "tls_Disabled t")
  case True
  then show ?thesis using assms(2) by (auto simp: Load_def)
next
  case False
  let ?t0 = "\<lparr>tc_ServerName = tls_ServerName t, tc_InsecureSkipVerify = tls_InsecureSkipVerify t,
    tc_RootCAs = None, tc_Certificates = []\<rparr>"
  from assms(2) False obtain r t1 where conf: "configureTLS r ?t0 = Inr t1"
    and r: "if tls_CACertsPath t = [] then r = \<lparr>rc_CAFile = [], rc_CAPath = []\<rparr>
       else if isDir (tls_CACertsPath t) = Inr True then r = \<lparr>rc_CAFile = [], rc_CAPath = tls_CACertsPath t\<rparr>
       else r = \<lparr>rc_CAFile = tls_CACertsPath t, rc_CAPath = []\<rparr>"
    and res: "if tls_CertFile t \<noteq> [] \<and> tls_KeyFile t \<noteq> []
       then \<exists>cert. loadKeyPair (tls_CertFile t) (tls_KeyFile t) = Inr cert \<and> res = Some (t1\<lparr>tc_Certificates := [cert]\<rparr>)
       else res = Some t1"
    by (auto simp: Load_def Let_def split: if_split_asm sum.split_asm bool.split_asm)
  have t1: "t1 = ?t0\<lparr>tc_RootCAs := tc_RootCAs t1\<rparr>" by (rule assms(1) [OF conf])
  then have f: "tc_ServerName t1 = tls_ServerName t" "tc_InsecureSkipVerify t1 = tls_InsecureSkipVerify t" "tc_Certificates t1 = []"
    by (metis tls_Config.select_convs tls_Config.update_convs(3))+
  have roots: "\<exists>r t0 t1'. configureTLS r t0 = Inr t1' \<and> tc_RootCAs t1 = tc_RootCAs t1'
             \<and> (if tls_CACertsPath t = [] then r = \<lparr>rc_CAFile = [], rc_CAPath = []\<rparr>
                else if isDir (tls_CACertsPath t) = Inr True then r = \<lparr>rc_CAFile = [], rc_CAPath = tls_CACertsPath t\<rparr>
                else r = \<lparr>rc_CAFile = tls_CACertsPath t, rc_CAPath = []\<rparr>)"
    using conf r by blast
  show ?thesis
  proof (cases "tls_CertFile t \<noteq> [] \<and> tls_KeyFile t \<noteq> []")
    case True
    with res obtain cert where "loadKeyPair (tls_CertFile t) (tls_KeyFile t) = Inr cert" "res = Some (t1\<lparr>tc_Certificates := [cert]\<rparr>)"
      by auto
    with True False f roots show ?thesis by simp
  next
    case no_pair: False
    with res have "res = Some t1" by simp
    with no_pair False f roots show ?thesis by auto
  qed
qed

end
