(* ===== verification/Metrics_Cache.thy ===== *)
theory Metrics_Cache
  imports Prelude
begin

text \<open>
  The caching metrics sink of \<open>pkg/metrics-cache/metricscache.go\<close>. First the
  operations of the \<open>Sink\<close> as the code of one goroutine runs them; then the same
  operations cut into their atomic actions, run by any number of emitting
  goroutines beside the one that installs the real sink.

  The real sink is code of the go-metrics package: the model keeps which sink is
  installed and the list of the calls made on it, in order (\<open>calls\<close>).
\<close>

section \<open>Data\<close>

type_synonym float32 = "32 word"
type_synonym label = "string \<times> string"
type_synonym sink_ref = nat

record metric =
  mkey :: "string list"
  mval :: float32
  mlabels :: "label list"

text \<open>The methods of the \<open>metrics.MetricSink\<close> interface that the cache calls.\<close>

datatype sink_call =
    CallSetGaugeWithLabels "string list" float32 "label list"
  | CallEmitKey "string list" float32
  | CallIncrCounterWithLabels "string list" float32 "label list"
  | CallAddSampleWithLabels "string list" float32 "label list"

datatype kind = Gauge | Key | Counter | Sample

fun kind_of :: "sink_call \<Rightarrow> kind" where
  "kind_of (CallSetGaugeWithLabels _ _ _) = Gauge"
| "kind_of (CallEmitKey _ _) = Key"
| "kind_of (CallIncrCounterWithLabels _ _ _) = Counter"
| "kind_of (CallAddSampleWithLabels _ _ _) = Sample"

record Sink =
  gauges :: "metric list"
  counters :: "metric list"
  samples :: "metric list"
  keys :: "metric list"
  realSink :: "sink_ref option"
  checkLock :: bool
  once_done :: bool
  calls :: "(sink_ref \<times> sink_call) list"

section \<open>Operations\<close>

definition NewSink :: Sink where
  "NewSink = \<lparr>gauges = [], counters = [], samples = [], keys = [],
     realSink = None, checkLock = True, once_done = False, calls = []\<rparr>"

definition call_real :: "sink_ref \<Rightarrow> sink_call list \<Rightarrow> Sink \<Rightarrow> Sink" where
  "call_real r cs s = s\<lparr>calls := calls s @ map (Pair r) cs\<rparr>"

definition SetGaugeWithLabels :: "string list \<Rightarrow> float32 \<Rightarrow> label list \<Rightarrow> Sink \<Rightarrow> Sink" where
  "SetGaugeWithLabels key val labels s =
     (case realSink s of
        Some r \<Rightarrow> call_real r [CallSetGaugeWithLabels key val labels] s
      | None \<Rightarrow> s\<lparr>gauges := gauges s @ [\<lparr>mkey = key, mval = val, mlabels = labels\<rparr>]\<rparr>)"

definition SetGauge :: "string list \<Rightarrow> float32 \<Rightarrow> Sink \<Rightarrow> Sink" where
  "SetGauge key val = SetGaugeWithLabels key val []"

definition EmitKey :: "string list \<Rightarrow> float32 \<Rightarrow> Sink \<Rightarrow> Sink" where
  "EmitKey key val s =
     (case realSink s of
        Some r \<Rightarrow> call_real r [CallEmitKey key val] s
      | None \<Rightarrow> s\<lparr>keys := keys s @ [\<lparr>mkey = key, mval = val, mlabels = []\<rparr>]\<rparr>)"

definition IncrCounterWithLabels :: "string list \<Rightarrow> float32 \<Rightarrow> label list \<Rightarrow> Sink \<Rightarrow> Sink" where
  "IncrCounterWithLabels key val labels s =
     (case realSink s of
        Some r \<Rightarrow> call_real r [CallIncrCounterWithLabels key val labels] s
      | None \<Rightarrow> s\<lparr>counters := counters s @ [\<lparr>mkey = key, mval = val, mlabels = labels\<rparr>]\<rparr>)"

definition IncrCounter :: "string list \<Rightarrow> float32 \<Rightarrow> Sink \<Rightarrow> Sink" where
  "IncrCounter key val = IncrCounterWithLabels key val []"

definition AddSampleWithLabels :: "string list \<Rightarrow> float32 \<Rightarrow> label list \<Rightarrow> Sink \<Rightarrow> Sink" where
  "AddSampleWithLabels key val labels s =
     (case realSink s of
        Some r \<Rightarrow> call_real r [CallAddSampleWithLabels key val labels] s
      | None \<Rightarrow> s\<lparr>samples := samples s @ [\<lparr>mkey = key, mval = val, mlabels = labels\<rparr>]\<rparr>)"

definition AddSample :: "string list \<Rightarrow> float32 \<Rightarrow> Sink \<Rightarrow> Sink" where
  "AddSample key val = AddSampleWithLabels key val []"

text \<open>The calls that replaying a cached slice makes, one slice per kind.\<close>

definition sample_call :: "metric \<Rightarrow> sink_call" where
  "sample_call m = CallAddSampleWithLabels (mkey m) (mval m) (mlabels m)"

definition gauge_call :: "metric \<Rightarrow> sink_call" where
  "gauge_call m = CallSetGaugeWithLabels (mkey m) (mval m) (mlabels m)"

definition counter_call :: "metric \<Rightarrow> sink_call" where
  "counter_call m = CallIncrCounterWithLabels (mkey m) (mval m) (mlabels m)"

definition key_call :: "metric \<Rightarrow> sink_call" where
  "key_call m = CallEmitKey (mkey m) (mval m)"

text \<open>The four loops of \<open>replay\<close>, each of which empties its slice.\<close>

definition replay_samples :: "sink_ref \<Rightarrow> Sink \<Rightarrow> Sink" where
  "replay_samples r s = (call_real r (map sample_call (samples s)) s)\<lparr>samples := []\<rparr>"

definition replay_gauges :: "sink_ref \<Rightarrow> Sink \<Rightarrow> Sink" where
  "replay_gauges r s = (call_real r (map gauge_call (gauges s)) s)\<lparr>gauges := []\<rparr>"

definition replay_counters :: "sink_ref \<Rightarrow> Sink \<Rightarrow> Sink" where
  "replay_counters r s = (call_real r (map counter_call (counters s)) s)\<lparr>counters := []\<rparr>"

definition replay_keys :: "sink_ref \<Rightarrow> Sink \<Rightarrow> Sink" where
  "replay_keys r s = (call_real r (map key_call (keys s)) s)\<lparr>keys := []\<rparr>"

definition replay :: "Sink \<Rightarrow> Sink" where
  "replay s =
     (case realSink s of
        None \<Rightarrow> s
      | Some r \<Rightarrow> replay_keys r (replay_counters r (replay_gauges r (replay_samples r s))))"

definition SetSink :: "sink_ref option \<Rightarrow> Sink \<Rightarrow> Sink" where
  "SetSink newSink s =
     (if once_done s then s
      else replay (s\<lparr>once_done := True, checkLock := False, realSink := newSink\<rparr>))"

text \<open>A client of the sink: the calls of its public interface.\<close>

datatype sink_op =
    OpSetGauge "string list" float32
  | OpSetGaugeWithLabels "string list" float32 "label list"
  | OpEmitKey "string list" float32
  | OpIncrCounter "string list" float32
  | OpIncrCounterWithLabels "string list" float32 "label list"
  | OpAddSample "string list" float32
  | OpAddSampleWithLabels "string list" float32 "label list"
  | OpSetSink "sink_ref option"

fun apply_op :: "sink_op \<Rightarrow> Sink \<Rightarrow> Sink" where
  "apply_op (OpSetGauge k v) s = SetGauge k v s"
| "apply_op (OpSetGaugeWithLabels k v l) s = SetGaugeWithLabels k v l s"
| "apply_op (OpEmitKey k v) s = EmitKey k v s"
| "apply_op (OpIncrCounter k v) s = IncrCounter k v s"
| "apply_op (OpIncrCounterWithLabels k v l) s = IncrCounterWithLabels k v l s"
| "apply_op (OpAddSample k v) s = AddSample k v s"
| "apply_op (OpAddSampleWithLabels k v l) s = AddSampleWithLabels k v l s"
| "apply_op (OpSetSink r) s = SetSink r s"

definition run_ops :: "sink_op list \<Rightarrow> Sink \<Rightarrow> Sink" where
  "run_ops ops s = fold apply_op ops s"

text \<open>What an operation is meant to record, whatever the state of the cache.\<close>

fun emitted :: "sink_op \<Rightarrow> sink_call list" where
  "emitted (OpSetGauge k v) = [CallSetGaugeWithLabels k v []]"
| "emitted (OpSetGaugeWithLabels k v l) = [CallSetGaugeWithLabels k v l]"
| "emitted (OpEmitKey k v) = [CallEmitKey k v]"
| "emitted (OpIncrCounter k v) = [CallIncrCounterWithLabels k v []]"
| "emitted (OpIncrCounterWithLabels k v l) = [CallIncrCounterWithLabels k v l]"
| "emitted (OpAddSample k v) = [CallAddSampleWithLabels k v []]"
| "emitted (OpAddSampleWithLabels k v l) = [CallAddSampleWithLabels k v l]"
| "emitted (OpSetSink r) = []"

fun is_SetSink :: "sink_op \<Rightarrow> bool" where
  "is_SetSink (OpSetSink r) \<longleftrightarrow> True"
| "is_SetSink _ \<longleftrightarrow> False"

fun cached :: "kind \<Rightarrow> Sink \<Rightarrow> sink_call list" where
  "cached Gauge s = map gauge_call (gauges s)"
| "cached Key s = map key_call (keys s)"
| "cached Counter s = map counter_call (counters s)"
| "cached Sample s = map sample_call (samples s)"

text \<open>Everything of one kind the sink has accepted, oldest first: forwarded, then cached.\<close>

definition accepted :: "kind \<Rightarrow> Sink \<Rightarrow> sink_call list" where
  "accepted k s = filter (\<lambda>c. kind_of c = k) (map snd (calls s)) @ cached k s"

text \<open>Once a real sink is installed nothing stays in the cache.\<close>

definition sink_inv :: "Sink \<Rightarrow> bool" where
  "sink_inv s \<longleftrightarrow> (realSink s \<noteq> None \<longrightarrow> once_done s \<and> (\<forall>k. cached k s = []))
     \<and> (\<forall>c\<in>set (calls s). realSink s = Some (fst c)) \<and> (checkLock s = (\<not> once_done s))"


text \<open>One emission, whatever its kind: the common shape of the four labelled methods.\<close>

fun cache_call :: "sink_call \<Rightarrow> Sink \<Rightarrow> Sink" where
  "cache_call (CallSetGaugeWithLabels k v l) s = s\<lparr>gauges := gauges s @ [\<lparr>mkey = k, mval = v, mlabels = l\<rparr>]\<rparr>"
| "cache_call (CallEmitKey k v) s = s\<lparr>keys := keys s @ [\<lparr>mkey = k, mval = v, mlabels = []\<rparr>]\<rparr>"
| "cache_call (CallIncrCounterWithLabels k v l) s = s\<lparr>counters := counters s @ [\<lparr>mkey = k, mval = v, mlabels = l\<rparr>]\<rparr>"
| "cache_call (CallAddSampleWithLabels k v l) s = s\<lparr>samples := samples s @ [\<lparr>mkey = k, mval = v, mlabels = l\<rparr>]\<rparr>"

definition emit_call :: "sink_call \<Rightarrow> Sink \<Rightarrow> Sink" where
  "emit_call c s = (case realSink s of Some r \<Rightarrow> call_real r [c] s | None \<Rightarrow> cache_call c s)"

section \<open>Concurrent use: atomic actions\<close>

text \<open>
  The actions of an emitting goroutine: load \<open>checkLock\<close>; lock \<open>mu\<close> if it was set;
  read \<open>realSink\<close>; forward to the real sink, or append to the slice; and the
  deferred unlock. The flag records whether the goroutine took the lock.
\<close>

datatype epc =
    EStart sink_call
  | ELocking sink_call
  | ERead sink_call bool
  | EForward sink_ref sink_call bool
  | EAppend sink_call bool
  | EDone sink_call bool

text \<open>The actions of the one goroutine that \<open>once.Do\<close> lets into \<open>SetSink\<close>.\<close>

datatype spc =
    SStart | SLocked | SCleared | SReal
  | SSamples | SGauges | SCounters | SKeys | SDone

datatype actor = Emitter nat | Setter

record csink =
  sk :: Sink
  mu :: "actor option"
  emitters :: "nat \<Rightarrow> epc"
  setter :: spc

abbreviation goto :: "nat \<Rightarrow> epc \<Rightarrow> csink \<Rightarrow> csink" where
  "goto i p s \<equiv> s\<lparr>emitters := (emitters s)(i := p)\<rparr>"

definition unlock_if :: "bool \<Rightarrow> csink \<Rightarrow> csink" where
  "unlock_if held s = (if held then s\<lparr>mu := None\<rparr> else s)"

inductive cstep :: "sink_ref \<Rightarrow> csink \<Rightarrow> actor \<Rightarrow> csink \<Rightarrow> bool" for r :: sink_ref where
  e_load_true: "emitters s i = EStart c \<Longrightarrow> checkLock (sk s) \<Longrightarrow>
     cstep r s (Emitter i) (goto i (ELocking c) s)"
| e_load_false: "emitters s i = EStart c \<Longrightarrow> \<not> checkLock (sk s) \<Longrightarrow>
     cstep r s (Emitter i) (goto i (ERead c False) s)"
| e_lock: "emitters s i = ELocking c \<Longrightarrow> mu s = None \<Longrightarrow>
     cstep r s (Emitter i) (goto i (ERead c True) (s\<lparr>mu := Some (Emitter i)\<rparr>))"
| e_read_real: "emitters s i = ERead c h \<Longrightarrow> realSink (sk s) = Some q \<Longrightarrow>
     cstep r s (Emitter i) (goto i (EForward q c h) s)"
| e_read_nil: "emitters s i = ERead c h \<Longrightarrow> realSink (sk s) = None \<Longrightarrow>
     cstep r s (Emitter i) (goto i (EAppend c h) s)"
| e_forward: "emitters s i = EForward q c h \<Longrightarrow>
     cstep r s (Emitter i) (unlock_if h (goto i (EDone c h) (s\<lparr>sk := call_real q [c] (sk s)\<rparr>)))"
| e_append: "emitters s i = EAppend c h \<Longrightarrow>
     cstep r s (Emitter i) (unlock_if h (goto i (EDone c h) (s\<lparr>sk := cache_call c (sk s)\<rparr>)))"
| s_lock: "setter s = SStart \<Longrightarrow> mu s = None \<Longrightarrow>
     cstep r s Setter (s\<lparr>mu := Some Setter, sk := (sk s)\<lparr>once_done := True\<rparr>, setter := SLocked\<rparr>)"
| s_clear: "setter s = SLocked \<Longrightarrow>
     cstep r s Setter (s\<lparr>sk := (sk s)\<lparr>checkLock := False\<rparr>, setter := SCleared\<rparr>)"
| s_real: "setter s = SCleared \<Longrightarrow>
     cstep r s Setter (s\<lparr>sk := (sk s)\<lparr>realSink := Some r\<rparr>, setter := SReal\<rparr>)"
| s_samples: "setter s = SReal \<Longrightarrow>
     cstep r s Setter (s\<lparr>sk := replay_samples r (sk s), setter := SSamples\<rparr>)"
| s_gauges: "setter s = SSamples \<Longrightarrow>
     cstep r s Setter (s\<lparr>sk := replay_gauges r (sk s), setter := SGauges\<rparr>)"
| s_counters: "setter s = SGauges \<Longrightarrow>
     cstep r s Setter (s\<lparr>sk := replay_counters r (sk s), setter := SCounters\<rparr>)"
| s_keys: "setter s = SCounters \<Longrightarrow>
     cstep r s Setter (s\<lparr>sk := replay_keys r (sk s), setter := SKeys\<rparr>)"
| s_unlock: "setter s = SKeys \<Longrightarrow>
     cstep r s Setter (s\<lparr>mu := None, setter := SDone\<rparr>)"

text \<open>At the start the cache is new and every emitter is about to make its call.\<close>

definition cstart :: "csink \<Rightarrow> bool" where
  "cstart s \<longleftrightarrow> sk s = NewSink \<and> mu s = None \<and> setter s = SStart
     \<and> (\<forall>i. \<exists>c. emitters s i = EStart c)"

fun holds_lock :: "epc \<Rightarrow> bool" where
  "holds_lock (ERead c h) \<longleftrightarrow> h"
| "holds_lock (EForward q c h) \<longleftrightarrow> h"
| "holds_lock (EAppend c h) \<longleftrightarrow> h"
| "holds_lock _ \<longleftrightarrow> False"

text \<open>The kinds whose slice \<open>replay\<close> has already emptied.\<close>

fun replayed :: "spc \<Rightarrow> kind \<Rightarrow> bool" where
  "replayed p Sample \<longleftrightarrow> p \<in> {SSamples, SGauges, SCounters, SKeys, SDone}"
| "replayed p Gauge \<longleftrightarrow> p \<in> {SGauges, SCounters, SKeys, SDone}"
| "replayed p Counter \<longleftrightarrow> p \<in> {SCounters, SKeys, SDone}"
| "replayed p Key \<longleftrightarrow> p \<in> {SKeys, SDone}"

definition delivered :: "csink \<Rightarrow> sink_call set" where
  "delivered s = snd ` set (calls (sk s))"

text \<open>Who holds the lock, and what each phase of \<open>SetSink\<close> has set.\<close>

definition lock_inv :: "sink_ref \<Rightarrow> csink \<Rightarrow> bool" where
  "lock_inv r s \<longleftrightarrow>
     (\<forall>i. holds_lock (emitters s i) \<longleftrightarrow> mu s = Some (Emitter i))
     \<and> (mu s = Some Setter \<longleftrightarrow> setter s \<notin> {SStart, SDone})
     \<and> realSink (sk s) = (if setter s \<in> {SStart, SLocked, SCleared} then None else Some r)
     \<and> checkLock (sk s) = (setter s \<in> {SStart, SLocked})
     \<and> (\<forall>i q c h. emitters s i = EForward q c h \<longrightarrow> q = r)
     \<and> (\<forall>i c. emitters s i = EAppend c True \<longrightarrow> setter s = SStart)"

text \<open>Where every finished emission is, and why a cached one can outlive the replay.\<close>

definition account_inv :: "sink_ref \<Rightarrow> csink \<Rightarrow> bool" where
  "account_inv r s \<longleftrightarrow>
     (\<forall>i c h. emitters s i = EDone c h \<longrightarrow> c \<in> delivered s \<or> c \<in> set (cached (kind_of c) (sk s)))
     \<and> (\<forall>k x. x \<in> set (cached k (sk s)) \<longrightarrow> kind_of x = k)
     \<and> (\<forall>k x. x \<in> set (cached k (sk s)) \<longrightarrow> replayed (setter s) k \<longrightarrow> (\<exists>i. emitters s i = EDone x False))
     \<and> (\<forall>p\<in>set (calls (sk s)). fst p = r)"

definition cache_inv :: "sink_ref \<Rightarrow> csink \<Rightarrow> bool" where
  "cache_inv r s \<longleftrightarrow> lock_inv r s \<and> account_inv r s"

section \<open>Sequential behaviour\<close>

lemmas sink_op_defs =
  SetGauge_def IncrCounter_def AddSample_def SetGaugeWithLabels_def EmitKey_def
  IncrCounterWithLabels_def AddSampleWithLabels_def

lemmas call_defs = sample_call_def gauge_call_def counter_call_def key_call_def

lemmas replay_defs =
  replay_samples_def replay_gauges_def replay_counters_def replay_keys_def

text \<open>The public methods are the generic emission.\<close>

lemma apply_op_emit: "emitted op = [c] \<Longrightarrow> apply_op op s = emit_call c s"
  by (cases op) (auto simp: sink_op_defs emit_call_def split: option.split)

lemma emitted_cases: "(\<exists>c. emitted op = [c] \<and> \<not> is_SetSink op) \<or> (\<exists>r. op = OpSetSink r)"
  by (cases op) auto

lemma kind_calls [simp]:
  "kind_of (sample_call m) = Sample" "kind_of (gauge_call m) = Gauge"
  "kind_of (counter_call m) = Counter" "kind_of (key_call m) = Key"
  by (simp_all add: call_defs)

lemma call_real_simps [simp]:
  "calls (call_real r cs s) = calls s @ map (Pair r) cs"
  "realSink (call_real r cs s) = realSink s" "checkLock (call_real r cs s) = checkLock s"
  "once_done (call_real r cs s) = once_done s"
  "samples (call_real r cs s) = samples s" "gauges (call_real r cs s) = gauges s"
  "counters (call_real r cs s) = counters s" "keys (call_real r cs s) = keys s"
  by (simp_all add: call_real_def)

lemma cached_call_real [simp]: "cached k (call_real r cs s) = cached k s"
  by (cases k) simp_all

lemma cache_call_simps [simp]:
  "calls (cache_call c s) = calls s" "realSink (cache_call c s) = realSink s"
  "checkLock (cache_call c s) = checkLock s" "once_done (cache_call c s) = once_done s"
  by (cases c; simp)+

lemma cached_cache_call [simp]:
  "cached k (cache_call c s) = cached k s @ (if kind_of c = k then [c] else [])"
  by (cases c; cases k) (simp_all add: call_defs)

lemma cached_flags [simp]:
  "cached k (s\<lparr>once_done := b\<rparr>) = cached k s" "cached k (s\<lparr>checkLock := b\<rparr>) = cached k s"
  "cached k (s\<lparr>realSink := q\<rparr>) = cached k s"
  by (cases k; simp)+

lemma cached_replay_slices [simp]:
  "cached k (replay_samples r s) = (if k = Sample then [] else cached k s)"
  "cached k (replay_gauges r s) = (if k = Gauge then [] else cached k s)"
  "cached k (replay_counters r s) = (if k = Counter then [] else cached k s)"
  "cached k (replay_keys r s) = (if k = Key then [] else cached k s)"
  by (cases k; simp add: replay_defs)+

lemma calls_replay_slices [simp]:
  "calls (replay_samples r s) = calls s @ map (Pair r) (cached Sample s)"
  "calls (replay_gauges r s) = calls s @ map (Pair r) (cached Gauge s)"
  "calls (replay_counters r s) = calls s @ map (Pair r) (cached Counter s)"
  "calls (replay_keys r s) = calls s @ map (Pair r) (cached Key s)"
  by (simp_all add: replay_defs)

lemma flags_replay_slices [simp]:
  "realSink (replay_samples r s) = realSink s" "checkLock (replay_samples r s) = checkLock s"
  "realSink (replay_gauges r s) = realSink s" "checkLock (replay_gauges r s) = checkLock s"
  "realSink (replay_counters r s) = realSink s" "checkLock (replay_counters r s) = checkLock s"
  "realSink (replay_keys r s) = realSink s" "checkLock (replay_keys r s) = checkLock s"
  "once_done (replay_samples r s) = once_done s" "once_done (replay_gauges r s) = once_done s"
  "once_done (replay_counters r s) = once_done s" "once_done (replay_keys r s) = once_done s"
  by (simp_all add: replay_defs)

lemma filter_kind_cached [simp]:
  "filter (\<lambda>c. kind_of c = k) (cached k' s) = (if k = k' then cached k s else [])"
  by (cases k') (auto simp: filter_empty_conv)

lemma emit_call_accepted:
  assumes "sink_inv s"
  shows "accepted k (emit_call c s) = accepted k s @ (if kind_of c = k then [c] else [])"
  using assms by (cases "realSink s") (auto simp: emit_call_def accepted_def sink_inv_def comp_def)

lemma emit_call_inv: "sink_inv s \<Longrightarrow> sink_inv (emit_call c s)"
  by (cases "realSink s") (auto simp: emit_call_def sink_inv_def)

lemma replay_accepted: "accepted k (replay s) = accepted k s"
  by (cases k; cases "realSink s") (auto simp: accepted_def replay_def comp_def filter_map simp del: cached.simps)

lemma SetSink_accepted: "accepted k (SetSink q s) = accepted k s"
  by (auto simp: SetSink_def replay_accepted) (simp add: accepted_def)

lemma replay_empties: "realSink s = Some r \<Longrightarrow> cached k (replay s) = []"
  by (cases k) (simp_all add: replay_def del: cached.simps)

lemma replay_flags [simp]:
  "realSink (replay s) = realSink s" "checkLock (replay s) = checkLock s" "once_done (replay s) = once_done s"
  by (simp_all add: replay_def split: option.split)

lemma replay_calls_ref:
  "realSink s = Some r \<Longrightarrow> \<forall>c\<in>set (calls s). fst c = r \<Longrightarrow> \<forall>c\<in>set (calls (replay s)). fst c = r"
  by (auto simp: replay_def)

lemma SetSink_inv:
  assumes inv: "sink_inv s"
  shows "sink_inv (SetSink q s)"
proof (cases "once_done s \<or> q = None")
  case True
  then show ?thesis
    using inv by (cases "realSink s") (auto simp: SetSink_def sink_inv_def replay_def)
next
  case False
  then obtain r where q: "q = Some r" and fresh: "calls s = []"
    using inv by (cases "calls s") (auto simp: sink_inv_def)
  let ?s = "s\<lparr>once_done := True, checkLock := False, realSink := Some r\<rparr>"
  have "\<forall>c\<in>set (calls (replay ?s)). fst c = r"
    using fresh by (intro replay_calls_ref) auto
  then show ?thesis
    using False q by (auto simp: SetSink_def sink_inv_def replay_empties [where r = r])
qed

lemma NewSink_inv: "sink_inv NewSink"
  by (auto simp: sink_inv_def NewSink_def)

lemma apply_op_inv: "sink_inv s \<Longrightarrow> sink_inv (apply_op op s)"
  using emitted_cases [of op] by (auto simp: apply_op_emit emit_call_inv SetSink_inv)

lemma apply_op_accepted:
  "sink_inv s \<Longrightarrow> accepted k (apply_op op s) = accepted k s @ filter (\<lambda>c. kind_of c = k) (emitted op)"
  using emitted_cases [of op] by (auto simp: apply_op_emit emit_call_accepted SetSink_accepted)

lemma run_ops_inv: "sink_inv s \<Longrightarrow> sink_inv (run_ops ops s)"
  by (induction ops arbitrary: s) (simp_all add: run_ops_def apply_op_inv)

lemma run_ops_accepted:
  "sink_inv s \<Longrightarrow>
   accepted k (run_ops ops s) = accepted k s @ filter (\<lambda>c. kind_of c = k) (concat (map emitted ops))"
proof (induction ops arbitrary: s)
  case Nil
  then show ?case by (simp add: run_ops_def)
next
  case (Cons op ops)
  then show ?case
    using Cons.IH [of "apply_op op s"] by (simp add: run_ops_def apply_op_inv apply_op_accepted)
qed

lemma run_ops_realSink:
  "once_done s \<Longrightarrow> realSink (run_ops ops s) = realSink s \<and> once_done (run_ops ops s)"
proof (induction ops arbitrary: s)
  case Nil
  then show ?case by (simp add: run_ops_def)
next
  case (Cons op ops)
  have "realSink (apply_op op s) = realSink s \<and> once_done (apply_op op s)"
    using Cons.prems emitted_cases [of op]
    by (auto simp: apply_op_emit emit_call_def SetSink_def split: option.split)
  with Cons.IH [of "apply_op op s"] show ?case by (simp add: run_ops_def)
qed


section \<open>The sink interface\<close>

text \<open>
  The \<open>metrics.MetricSink\<close> interface as a client sees it: four methods, and a log of
  what the sink has accepted. A client that emits any list of metrics through it
  finds them in the log, each kind in the order of emission.
\<close>

definition dispatch :: "(string list \<Rightarrow> float32 \<Rightarrow> label list \<Rightarrow> 's \<Rightarrow> 's) \<Rightarrow> (string list \<Rightarrow> float32 \<Rightarrow> 's \<Rightarrow> 's)
    \<Rightarrow> (string list \<Rightarrow> float32 \<Rightarrow> label list \<Rightarrow> 's \<Rightarrow> 's) \<Rightarrow> (string list \<Rightarrow> float32 \<Rightarrow> label list \<Rightarrow> 's \<Rightarrow> 's)
    \<Rightarrow> sink_call \<Rightarrow> 's \<Rightarrow> 's" where
  "dispatch setg emitk incr addS c =
     (case c of
        CallSetGaugeWithLabels k v l \<Rightarrow> setg k v l
      | CallEmitKey k v \<Rightarrow> emitk k v
      | CallIncrCounterWithLabels k v l \<Rightarrow> incr k v l
      | CallAddSampleWithLabels k v l \<Rightarrow> addS k v l)"

locale metric_sink =
  fixes setg incr addS :: "string list \<Rightarrow> float32 \<Rightarrow> label list \<Rightarrow> 's \<Rightarrow> 's"
    and emitk :: "string list \<Rightarrow> float32 \<Rightarrow> 's \<Rightarrow> 's"
    and inv :: "'s \<Rightarrow> bool"
    and log :: "kind \<Rightarrow> 's \<Rightarrow> sink_call list"
  assumes dispatch_inv: "inv s \<Longrightarrow> inv (dispatch setg emitk incr addS c s)"
    and dispatch_log: "inv s \<Longrightarrow>
      log k (dispatch setg emitk incr addS c s) = log k s @ (if kind_of c = k then [c] else [])"
begin

lemma emit_all:
  "inv s \<Longrightarrow> inv (fold (dispatch setg emitk incr addS) cs s)
     \<and> log k (fold (dispatch setg emitk incr addS) cs s) = log k s @ filter (\<lambda>c. kind_of c = k) cs"
  by (induction cs arbitrary: s) (auto simp: dispatch_inv dispatch_log)

end

lemma dispatch_emit_call:
  "dispatch SetGaugeWithLabels EmitKey IncrCounterWithLabels AddSampleWithLabels c s = emit_call c s"
  by (cases c) (simp_all add: dispatch_def sink_op_defs emit_call_def split: option.split)

interpretation cache_sink: metric_sink SetGaugeWithLabels IncrCounterWithLabels AddSampleWithLabels
    EmitKey sink_inv accepted
  by unfold_locales (simp_all add: dispatch_emit_call emit_call_inv emit_call_accepted)

section \<open>Concurrent behaviour\<close>

lemma unlock_if_simps [simp]:
  "sk (unlock_if h s) = sk s" "emitters (unlock_if h s) = emitters s" "setter (unlock_if h s) = setter s"
  "mu (unlock_if h s) = (if h then None else mu s)"
  by (simp_all add: unlock_if_def)

lemma holds_lock_inj:
  "lock_inv r s \<Longrightarrow> holds_lock (emitters s i) \<Longrightarrow> holds_lock (emitters s j) \<Longrightarrow> i = j"
  by (auto simp: lock_inv_def)

lemma lock_inv_holder: "lock_inv r s \<Longrightarrow> holds_lock (emitters s i) \<longleftrightarrow> mu s = Some (Emitter i)"
  by (simp add: lock_inv_def)

lemma lock_inv_setter: "lock_inv r s \<Longrightarrow> mu s = Some (Emitter i) \<Longrightarrow> setter s \<in> {SStart, SDone}"
  by (auto simp: lock_inv_def)

lemma lock_inv_real:
  "lock_inv r s \<Longrightarrow> realSink (sk s) = (if setter s \<in> {SStart, SLocked, SCleared} then None else Some r)"
  by (simp add: lock_inv_def)

lemma lock_inv_forward: "lock_inv r s \<Longrightarrow> emitters s i = EForward q c h \<Longrightarrow> q = r"
  unfolding lock_inv_def by blast

lemma lock_inv_append: "lock_inv r s \<Longrightarrow> emitters s i = EAppend c True \<Longrightarrow> setter s = SStart"
  unfolding lock_inv_def by blast

lemma lock_inv_step: "cstep r s a t \<Longrightarrow> lock_inv r s \<Longrightarrow> lock_inv r t"
proof (induction rule: cstep.induct)
  case (e_read_nil s i c h)
  have "setter s = SStart" if h
    using that e_read_nil lock_inv_holder [of r s i] lock_inv_setter [of r s i] lock_inv_real [of r s]
    by auto
  then show ?case
    using e_read_nil lock_inv_holder [of r s i] by (simp add: lock_inv_def) blast
next
  case (e_read_real s i c h q)
  then show ?case
    using lock_inv_holder [of r s i] by (auto simp: lock_inv_def split: if_splits)
next
  case (e_forward s i q c h)
  then show ?case
    using lock_inv_holder [of r s i] by (cases h) (auto simp: lock_inv_def)
next
  case (e_append s i c h)
  then show ?case
    using lock_inv_holder [of r s i] by (cases h) (auto simp: lock_inv_def)
next
  case (e_lock s i c)
  then show ?case
    using lock_inv_holder [of r s i] by (auto simp: lock_inv_def)
next
  case (e_load_true s i c)
  then show ?case
    using lock_inv_holder [of r s i] by (auto simp: lock_inv_def)
next
  case (e_load_false s i c)
  then show ?case
    using lock_inv_holder [of r s i] by (auto simp: lock_inv_def)
next
  case (s_lock s)
  have "emitters s i \<noteq> EAppend c True" for i c
    using s_lock lock_inv_holder [of r s i] by auto
  with s_lock show ?case by (simp add: lock_inv_def)
qed (auto simp: lock_inv_def)


lemma replayed_phases [simp]:
  "\<not> replayed SStart k" "\<not> replayed SLocked k" "\<not> replayed SCleared k" "\<not> replayed SReal k"
  "replayed SSamples k \<longleftrightarrow> k = Sample" "replayed SGauges k \<longleftrightarrow> k = Sample \<or> k = Gauge"
  "replayed SCounters k \<longleftrightarrow> k \<noteq> Key" "replayed SKeys k" "replayed SDone k"
  by (cases k; simp)+

declare replayed.simps [simp del] cached.simps [simp del]

text \<open>
  Moving the cached metrics of one kind to the real sink keeps the account: nothing
  is left behind, and every finished emission is still somewhere.
\<close>

lemma account_replay:
  assumes acc: "account_inv r s"
    and sk': "calls S' = calls (sk s) @ map (Pair r) (cached k (sk s))"
      "\<And>k'. cached k' S' = (if k' = k then [] else cached k' (sk s))"
    and ph: "\<And>k'. replayed p k' \<longleftrightarrow> replayed (setter s) k' \<or> k' = k"
  shows "account_inv r (s\<lparr>sk := S', setter := p\<rparr>)"
proof -
  have "c \<in> snd ` set (calls S') \<or> c \<in> set (cached (kind_of c) S')" if "emitters s i = EDone c h" for i c h
    using acc that by (cases "kind_of c = k") (fastforce simp: account_inv_def delivered_def sk' image_Un image_image)+
  then show ?thesis
    using acc by (auto simp: account_inv_def delivered_def sk' ph)
qed

lemma account_frame:
  assumes "account_inv r s" and "sk t = sk s" "setter t = setter s"
    and "\<And>j c h. emitters t j = EDone c h \<longleftrightarrow> emitters s j = EDone c h"
  shows "account_inv r t"
  using assms by (simp add: account_inv_def delivered_def)

lemma account_finish:
  assumes acc: "account_inv r s" and pre: "\<And>c h. emitters s i \<noteq> EDone c h"
    and t: "emitters t = (emitters s)(i := EDone c h)" "setter t = setter s"
    and grow: "set (calls (sk s)) \<subseteq> set (calls (sk t))" "\<And>k. set (cached k (sk s)) \<subseteq> set (cached k (sk t))"
    and new: "\<And>k x. x \<in> set (cached k (sk t)) \<Longrightarrow> x \<notin> set (cached k (sk s)) \<Longrightarrow>
        x = c \<and> kind_of c = k \<and> (replayed (setter s) k \<longrightarrow> \<not> h)"
    and ref: "\<And>p. p \<in> set (calls (sk t)) \<Longrightarrow> p \<notin> set (calls (sk s)) \<Longrightarrow> fst p = r"
    and here: "c \<in> delivered t \<or> c \<in> set (cached (kind_of c) (sk t))"
  shows "account_inv r t"
proof -
  have done_cases: "emitters t j = EDone x g \<longleftrightarrow> (if j = i then x = c \<and> g = h else emitters s j = EDone x g)" for j x g
    by (auto simp: t)
  have "\<exists>j. emitters t j = EDone x False" if x: "x \<in> set (cached k (sk t))" and rp: "replayed (setter s) k" for k x
  proof (cases "x \<in> set (cached k (sk s))")
    case True
    then obtain j where "emitters s j = EDone x False"
      using acc rp unfolding account_inv_def by blast
    then show ?thesis using pre by (intro exI [of _ j]) (auto simp: t)
  next
    case False
    with new [OF x] rp show ?thesis by (intro exI [of _ i]) (simp add: t)
  qed
  moreover have "kind_of x = k" if "x \<in> set (cached k (sk t))" for k x
    using acc that new [OF that] unfolding account_inv_def by blast
  moreover have "x \<in> delivered t \<or> x \<in> set (cached (kind_of x) (sk t))" if "emitters t j = EDone x g" for j x g
  proof (cases "j = i")
    case True
    with that here show ?thesis by (simp add: t)
  next
    case False
    with that acc grow show ?thesis
      by (fastforce simp: account_inv_def delivered_def t)
  qed
  moreover have "\<forall>p\<in>set (calls (sk t)). fst p = r"
    using acc ref by (auto simp: account_inv_def)
  ultimately show ?thesis by (simp add: account_inv_def t)
qed

lemma account_inv_step: "cstep r s a t \<Longrightarrow> lock_inv r s \<Longrightarrow> account_inv r s \<Longrightarrow> account_inv r t"
proof (induction rule: cstep.induct)
  case (e_forward s i q c h)
  have "q = r"
    using e_forward by (blast intro: lock_inv_forward)
  then show ?case
    by (intro account_finish [OF e_forward.prems(2), where i = i and c = c and h = h])
       (auto simp: e_forward.hyps delivered_def)
next
  case (e_append s i c h)
  have "\<not> h" if "replayed (setter s) k" for k
    using that e_append lock_inv_append [of r s i c] by (cases h) auto
  then show ?case
    by (intro account_finish [OF e_append.prems(2), where i = i and c = c and h = h])
       (auto simp: e_append.hyps split: if_splits)
next
  case (s_samples s)
  then show ?case
    by (intro account_replay [where k = Sample]) auto
next
  case (s_gauges s)
  then show ?case
    by (intro account_replay [where k = Gauge]) auto
next
  case (s_counters s)
  then show ?case
    by (intro account_replay [where k = Counter]) (auto intro: kind.exhaust)
next
  case (s_keys s)
  then show ?case
    by (intro account_replay [where k = Key]) auto
next
  case (s_lock s)
  then show ?case by (auto simp: account_inv_def delivered_def)
next
  case (s_clear s)
  then show ?case by (auto simp: account_inv_def delivered_def)
next
  case (s_real s)
  then show ?case by (auto simp: account_inv_def delivered_def)
next
  case (s_unlock s)
  then show ?case by (auto simp: account_inv_def delivered_def)
qed (auto elim!: account_frame split: if_splits)


lemma cache_inv_start: "cstart s \<Longrightarrow> cache_inv r s"
proof -
  assume s: "cstart s"
  have "emitters s i \<noteq> p" if "\<And>c. p \<noteq> EStart c" for i p
    using s that by (metis cstart_def)
  moreover have "\<not> holds_lock (emitters s i)" for i
    using s by (metis cstart_def holds_lock.simps(4))
  moreover have "cached k NewSink = []" for k
    by (cases k) (simp_all add: cached.simps NewSink_def)
  ultimately show ?thesis
    using s by (simp add: cache_inv_def lock_inv_def account_inv_def cstart_def) (simp add: NewSink_def)
qed

interpretation cache_threads: invariant_system cstart "cstep r" "cache_inv r" for r
  by unfold_locales
     (auto simp: cache_inv_start, auto simp: cache_inv_def intro: lock_inv_step account_inv_step)

text \<open>After \<open>SetSink\<close> has returned nothing empties the cache any more.\<close>

lemma cached_after_done:
  "steps (cstep r) s as t \<Longrightarrow> setter s = SDone \<Longrightarrow> x \<in> set (cached k (sk s)) \<Longrightarrow>
   setter t = SDone \<and> x \<in> set (cached k (sk t))"
proof (induction rule: steps.induct)
  case (steps_Cons s a t as u)
  from steps_Cons.hyps(1) steps_Cons.prems
  have "setter t = SDone \<and> x \<in> set (cached k (sk t))"
    by (cases rule: cstep.cases) auto
  with steps_Cons.IH show ?case by blast
qed simp


text \<open>The schedule on which a metric is dropped: the emitter reads \<open>realSink\<close> between
  the two stores of \<open>SetSink\<close> and appends after the replay.\<close>

definition loss_start :: "sink_call \<Rightarrow> csink" where
  "loss_start c = \<lparr>sk = NewSink, mu = None, emitters = (\<lambda>_. EStart c), setter = SStart\<rparr>"

definition loss_schedule :: "actor list" where
  "loss_schedule = [Setter, Setter, Emitter 0, Emitter 0, Setter, Setter, Setter, Setter, Setter, Setter, Emitter 0]"

definition loss_end :: "sink_ref \<Rightarrow> sink_call \<Rightarrow> csink" where
  "loss_end r c = \<lparr>sk = cache_call c (NewSink\<lparr>once_done := True, checkLock := False, realSink := Some r\<rparr>),
     mu = None, emitters = (\<lambda>_. EStart c)(0 := EDone c False), setter = SDone\<rparr>"

text \<open>The step of a given actor is a function, so runs can be computed.\<close>

fun cexec :: "sink_ref \<Rightarrow> csink \<Rightarrow> actor \<Rightarrow> csink option" where
  "cexec r s (Emitter i) =
     (case emitters s i of
        EStart c \<Rightarrow> Some (goto i (if checkLock (sk s) then ELocking c else ERead c False) s)
      | ELocking c \<Rightarrow>
          (if mu s = None then Some (goto i (ERead c True) (s\<lparr>mu := Some (Emitter i)\<rparr>)) else None)
      | ERead c h \<Rightarrow>
          Some (goto i (case realSink (sk s) of None \<Rightarrow> EAppend c h | Some q \<Rightarrow> EForward q c h) s)
      | EForward q c h \<Rightarrow> Some (unlock_if h (goto i (EDone c h) (s\<lparr>sk := call_real q [c] (sk s)\<rparr>)))
      | EAppend c h \<Rightarrow> Some (unlock_if h (goto i (EDone c h) (s\<lparr>sk := cache_call c (sk s)\<rparr>)))
      | EDone c h \<Rightarrow> None)"
| "cexec r s Setter =
     (case setter s of
        SStart \<Rightarrow> (if mu s = None
          then Some (s\<lparr>mu := Some Setter, sk := (sk s)\<lparr>once_done := True\<rparr>, setter := SLocked\<rparr>) else None)
      | SLocked \<Rightarrow> Some (s\<lparr>sk := (sk s)\<lparr>checkLock := False\<rparr>, setter := SCleared\<rparr>)
      | SCleared \<Rightarrow> Some (s\<lparr>sk := (sk s)\<lparr>realSink := Some r\<rparr>, setter := SReal\<rparr>)
      | SReal \<Rightarrow> Some (s\<lparr>sk := replay_samples r (sk s), setter := SSamples\<rparr>)
      | SSamples \<Rightarrow> Some (s\<lparr>sk := replay_gauges r (sk s), setter := SGauges\<rparr>)
      | SGauges \<Rightarrow> Some (s\<lparr>sk := replay_counters r (sk s), setter := SCounters\<rparr>)
      | SCounters \<Rightarrow> Some (s\<lparr>sk := replay_keys r (sk s), setter := SKeys\<rparr>)
      | SKeys \<Rightarrow> Some (s\<lparr>mu := None, setter := SDone\<rparr>)
      | SDone \<Rightarrow> None)"

fun crun :: "sink_ref \<Rightarrow> csink \<Rightarrow> actor list \<Rightarrow> csink option" where
  "crun r s [] = Some s"
| "crun r s (a # as) = (case cexec r s a of None \<Rightarrow> None | Some t \<Rightarrow> crun r t as)"

lemma cexec_cstep: "cexec r s a = Some t \<Longrightarrow> cstep r s a t"
  by (cases a) (auto split: epc.splits spc.splits if_splits option.splits
      intro: cstep.intros cstep.intros [simplified])

lemma crun_steps: "crun r s as = Some t \<Longrightarrow> steps (cstep r) s as t"
  by (induction as arbitrary: s) (auto split: option.splits intro: steps.intros cexec_cstep)

lemma loss_run: "steps (cstep r) (loss_start c) loss_schedule (loss_end r c)"
  by (rule crun_steps, cases c)
     (simp_all add: loss_start_def loss_schedule_def loss_end_def unlock_if_def NewSink_def replay_defs call_real_def)

section \<open>Properties\<close>

text \<open>C6: Exactly-once delivery. Whatever the metrics emitted before and after the first
  \<open>SetSink\<close> and whatever later \<open>SetSink\<close> calls are made, once a real sink is
  installed every metric has been passed to it exactly once, each kind in the order of
  emission, no other sink was called, and nothing is left in the cache.\<close>

theorem metrics_exactly_once:
  assumes "list_all (\<lambda>op. \<not> is_SetSink op) pre"
    and "s = run_ops (pre @ OpSetSink (Some r) # post) NewSink"
  shows "filter (\<lambda>c. kind_of c = k) (map snd (calls s))
           = filter (\<lambda>c. kind_of c = k) (concat (map emitted (pre @ OpSetSink (Some r) # post)))
         \<and> cached k s = [] \<and> (\<forall>p\<in>set (calls s). fst p = r)"
proof -
  have pre: "\<not> once_done (run_ops pre s0)" if "\<not> once_done s0" for s0
    using assms(1) that
  proof (induction pre arbitrary: s0)
    case (Cons op pre)
    have "\<not> once_done (apply_op op s0)"
      using Cons.prems emitted_cases [of op]
      by (auto simp: apply_op_emit emit_call_def split: option.splits)
    with Cons show ?case by (simp add: run_ops_def)
  qed (simp add: run_ops_def)
  let ?mid = "SetSink (Some r) (run_ops pre NewSink)"
  have mid: "realSink ?mid = Some r" "once_done ?mid"
    using pre [of NewSink] by (simp_all add: SetSink_def NewSink_def)
  have s: "s = run_ops post ?mid"
    using assms(2) by (simp add: run_ops_def)
  have real: "realSink s = Some r"
    using run_ops_realSink [OF mid(2), of post] mid(1) s by simp
  have inv: "sink_inv s"
    using assms(2) by (simp add: run_ops_inv NewSink_inv)
  have "accepted k NewSink = []"
    by (cases k) (simp_all add: accepted_def NewSink_def cached.simps)
  then have "accepted k s = filter (\<lambda>c. kind_of c = k) (concat (map emitted (pre @ OpSetSink (Some r) # post)))"
    using run_ops_accepted [OF NewSink_inv, of k "pre @ OpSetSink (Some r) # post"] assms(2) by simp
  with inv real show ?thesis by (auto simp: sink_inv_def accepted_def)
qed

theorem metrics_exactly_once_witness:
  "map snd (calls (run_ops ([OpSetGauge [''g''] 1, OpIncrCounter [''c''] 2] @ OpSetSink (Some 7) #
      [OpSetGauge [''g''] 3, OpSetSink (Some 8)]) NewSink))
     = [CallSetGaugeWithLabels [''g''] 1 [], CallIncrCounterWithLabels [''c''] 2 [], CallSetGaugeWithLabels [''g''] 3 []]
   \<and> cached Gauge (run_ops ([OpSetGauge [''g''] 1, OpIncrCounter [''c''] 2] @ OpSetSink (Some 7) #
      [OpSetGauge [''g''] 3, OpSetSink (Some 8)]) NewSink) = []"
  using metrics_exactly_once [of "[OpSetGauge [''g''] 1, OpIncrCounter [''c''] 2]" _ 7
      "[OpSetGauge [''g''] 3, OpSetSink (Some 8)]" Gauge]
  by (simp add: run_ops_def sink_op_defs SetSink_def replay_def replay_defs NewSink_def call_real_def call_defs)

text \<open>A client of the cache through the sink interface: any list of metrics emitted on
  a sink in a state its operations reach is accepted completely and in order, each kind
  by itself, whether the real sink is installed or not.\<close>

lemma interface_accepts_all:
  "accepted k (fold (dispatch SetGaugeWithLabels EmitKey IncrCounterWithLabels AddSampleWithLabels) cs
      (run_ops ops NewSink))
    = filter (\<lambda>c. kind_of c = k) (concat (map emitted ops) @ cs)"
proof -
  have "accepted k NewSink = []"
    by (cases k) (simp_all add: accepted_def NewSink_def cached.simps)
  then show ?thesis
    using cache_sink.emit_all [OF run_ops_inv [OF NewSink_inv, of ops], where k = k and cs = cs]
      run_ops_accepted [OF NewSink_inv, of k ops] by simp
qed



text \<open>C17: A metric can be lost. There is an interleaving in which an emitter that found the
  lock check already cleared (\<open>checkLock\<close> is stored before \<open>realSink\<close>) appends to
  the cache after the replay: \<open>SetSink\<close> has returned, the real sink was never called,
  and in every continuation the metric stays in the cache that nothing replays again.\<close>

theorem emission_can_be_lost:
  "\<exists>s. reach cstart (cstep r) s \<and> setter s = SDone \<and> emitters s 0 = EDone c False
     \<and> calls (sk s) = []
     \<and> (\<forall>as t. steps (cstep r) s as t \<longrightarrow> c \<in> set (cached (kind_of c) (sk t)))"
proof (intro exI conjI allI impI)
  have "cstart (loss_start c)"
    by (simp add: cstart_def loss_start_def)
  then show "reach cstart (cstep r) (loss_end r c)"
    by (intro steps_reach [OF loss_run] reach_start)
  have last: "c \<in> set (cached (kind_of c) (sk (loss_end r c)))"
    by (simp add: loss_end_def)
  show "setter (loss_end r c) = SDone" "emitters (loss_end r c) 0 = EDone c False"
    "calls (sk (loss_end r c)) = []"
    by (simp_all add: loss_end_def NewSink_def)
  show "c \<in> set (cached (kind_of c) (sk t))" if "steps (cstep r) (loss_end r c) as t" for as t
    using cached_after_done [OF that _ last] by (simp add: loss_end_def)
qed

theorem emission_can_be_lost_witness:
  "\<exists>s. reach cstart (cstep 7) s \<and> setter s = SDone \<and> emitters s 0 = EDone (CallEmitKey [''k''] 1) False
     \<and> calls (sk s) = [] \<and> CallEmitKey [''k''] 1 \<in> set (cached Key (sk s))"
proof -
  let ?c = "CallEmitKey [''k''] 1"
  from emission_can_be_lost [of 7 ?c]
  obtain s where s: "reach cstart (cstep 7) s" "setter s = SDone" "emitters s 0 = EDone ?c False"
      "calls (sk s) = []" "\<forall>as t. steps (cstep 7) s as t \<longrightarrow> ?c \<in> set (cached (kind_of ?c) (sk t))"
    by (elim exE conjE)
  have "?c \<in> set (cached (kind_of ?c) (sk s))"
    by (rule s(5) [rule_format, OF steps_Nil])
  with s(1-4) show ?thesis by (intro exI [of _ s]) simp
qed

end
