(* ===== verification/Xds_Server.thy ===== *)
theory Xds_Server
  imports Dataplane_Config Metrics_Cache
begin

text \<open>
  The xDS server that Envoy connects to, \<open>pkg/consuldp/xds.go\<close>: the director that decides
  which calls are proxied to Consul and with which metadata, the listener, serving and
  stopping, and the stream wrapper that reports whether Envoy is connected.
\<close>

section \<open>The director\<close>

definition metadataKeyToken :: string where "metadataKeyToken = ''x-consul-token''"
definition envoyADSMethodName :: string where
  "envoyADSMethodName = ''envoy.service.discovery.v3.AggregatedDiscoveryService/DeltaAggregatedResources''"
definition maxRecvSize :: int where "maxRecvSize = 50 * 1024 * 1024"

text \<open>gRPC metadata; \<open>MD.Set\<close> writes under the lower-case key.\<close>

type_synonym MD = "string \<rightharpoonup> string list"

definition md_Set :: "string \<Rightarrow> string \<Rightarrow> MD \<Rightarrow> MD" where
  "md_Set k v md = md(ToLower k \<mapsto> [v])"

text \<open>The metadata of the incoming call, if there is any; the outgoing metadata and the connection to call.\<close>

definition director :: "string \<Rightarrow> 'conn \<Rightarrow> MD option \<Rightarrow> string \<Rightarrow> (MD \<times> 'conn) result" where
  "director aclToken serverConn incoming fullMethodName =
     (if \<not> Contains fullMethodName envoyADSMethodName
      then Inl (Err (''rpc error: code = Unimplemented desc = Unknown method '' @ fullMethodName))
      else
        (let mdCopy = (case incoming of None \<Rightarrow> Map.empty | Some md \<Rightarrow> md)
         in Inr (md_Set metadataKeyToken aclToken mdCopy, serverConn)))"

section \<open>The server\<close>

record xdsServer =
  xs_listenerAddress :: string
  xs_listenerNetwork :: string
  xs_serving :: bool
  xs_exitedCh_closed :: bool

text \<open>The network and address to listen on.\<close>

definition xds_listen_address :: "XDSServerConfig \<Rightarrow> string \<times> string" where
  "xds_listen_address x =
     (if HasPrefix (xds_BindAddress x) ''unix://''
      then (''unix'', drop (length ''unix://'') (xds_BindAddress x))
      else (''tcp'', JoinHostPort (xds_BindAddress x) (Itoa (xds_BindPort x))))"

text \<open>\<open>listen\<close> is \<open>net.Listen\<close>: the address and network the listener reports.\<close>

definition setupXDSServer :: "(string \<Rightarrow> string \<Rightarrow> (string \<times> string) result) \<Rightarrow> Config \<Rightarrow> xdsServer outcome" where
  "setupXDSServer listen c =
     bind_outcome (deref (cfg_XDSServer c)) (\<lambda>x.
       case xds_listen_address x of
         (network, address) \<Rightarrow>
           bind_outcome (of_result (listen network address)) (\<lambda>(addr, net).
             Ok \<lparr>xs_listenerAddress = addr, xs_listenerNetwork = net, xs_serving = True, xs_exitedCh_closed = False\<rparr>))"

text \<open>\<open>served\<close> is the error with which serving ended; after a stop there is none.\<close>

definition startXDSServer :: "go_error option \<Rightarrow> xdsServer \<Rightarrow> xdsServer outcome" where
  "startXDSServer served s =
     (let s' = s\<lparr>xs_serving := False\<rparr> in
      if served = None then Ok s'
      else if xs_exitedCh_closed s' then Panic ''close of closed channel''
      else Ok (s'\<lparr>xs_exitedCh_closed := True\<rparr>))"

definition stopXDSServer :: "xdsServer \<Rightarrow> xdsServer" where
  "stopXDSServer s = s\<lparr>xs_serving := False\<rparr>"

definition xdsServerExited :: "xdsServer \<Rightarrow> bool" where
  "xdsServerExited s = xs_exitedCh_closed s"

section \<open>Connection gauge\<close>

text \<open>Every message of a stream, sent or received, sets the gauge to whether it succeeded. One and zero as float32.\<close>

definition one32 :: float32 where "one32 = 0x3F800000"
definition zero32 :: float32 where "zero32 = 0"

definition SendMsg :: "go_error option \<Rightarrow> Sink \<Rightarrow> go_error option \<times> Sink" where
  "SendMsg err s =
     (if err = None then (None, SetGauge [''envoy_connected''] one32 s)
      else (err, SetGauge [''envoy_connected''] zero32 s))"

definition RecvMsg :: "go_error option \<Rightarrow> Sink \<Rightarrow> go_error option \<times> Sink" where
  "RecvMsg err s =
     (if err = None then (None, SetGauge [''envoy_connected''] one32 s)
      else (err, SetGauge [''envoy_connected''] zero32 s))"

datatype stream_msg = Sent "go_error option" | Received "go_error option"

fun stream_step :: "stream_msg \<Rightarrow> Sink \<Rightarrow> Sink" where
  "stream_step (Sent e) s = snd (SendMsg e s)"
| "stream_step (Received e) s = snd (RecvMsg e s)"

fun msg_ok :: "stream_msg \<Rightarrow> bool" where
  "msg_ok (Sent e) = (e = None)"
| "msg_ok (Received e) = (e = None)"

section \<open>Properties\<close>

lemma token_key_lower: "ToLower metadataKeyToken = metadataKeyToken"
  by (simp add: ToLower_def metadataKeyToken_def lower_char_def)


text \<open>The call of the sink that one message amounts to.\<close>

definition gauge_of :: "stream_msg \<Rightarrow> sink_call" where
  "gauge_of m = CallSetGaugeWithLabels [''envoy_connected''] (if msg_ok m then one32 else zero32) []"

lemma stream_step_dispatch:
  "stream_step m = dispatch SetGaugeWithLabels EmitKey IncrCounterWithLabels AddSampleWithLabels (gauge_of m)"
  by (cases m) (auto simp: gauge_of_def dispatch_def SendMsg_def RecvMsg_def SetGauge_def fun_eq_iff)

text \<open>The connection gauge follows the stream. Over any sequence of messages on a stream to
  Envoy, the metrics sink accepts exactly one value of the gauge \<open>envoy_connected\<close> per message,
  in order, one for a message that succeeded and zero for one that failed, whether the sink
  still caches or already forwards.\<close>

lemma connection_gauge_follows_stream:
  assumes "sink_inv s"
  shows "accepted Gauge (fold stream_step ms s) = accepted Gauge s @ map gauge_of ms"
proof -
  have "fold stream_step ms s = fold (dispatch SetGaugeWithLabels EmitKey IncrCounterWithLabels AddSampleWithLabels) (map gauge_of ms) s"
    unfolding fold_map comp_def stream_step_dispatch [symmetric] ..
  moreover have "filter (\<lambda>c. kind_of c = Gauge) (map gauge_of ms) = map gauge_of ms"
    by (simp add: gauge_of_def)
  ultimately show ?thesis using cache_sink.emit_all [OF assms, of "map gauge_of ms" Gauge] by simp
qed

lemma new_sink_empty: "accepted k NewSink = []" "sink_inv NewSink"
  by (cases k) (simp_all add: accepted_def sink_inv_def NewSink_def cached.simps)

lemma connection_gauge_follows_stream_witness:
  "accepted Gauge (fold stream_step [Received None, Sent None, Received (Some (Err ''EOF''))] NewSink)
     = map (\<lambda>v. CallSetGaugeWithLabels [''envoy_connected''] v []) [one32, one32, zero32]"
  using connection_gauge_follows_stream [OF new_sink_empty(2), of "[Received None, Sent None, Received (Some (Err ''EOF''))]"]
  by (simp add: gauge_of_def new_sink_empty(1))

end
