(* ===== verification/Telemetry.thy ===== *)
theory Telemetry
  imports Bootstrap_Config Metrics_Cache Dataplane_Config
begin

text \<open>
  The dataplane's own metrics, \<open>pkg/consuldp/metrics.go\<close>: the sinks it sends its metrics to
  (Prometheus, statsd, DogStatsD) behind the cache of \<open>Metrics_Cache\<close>, the server that merges
  the dataplane's, Envoy's and the service's metrics for Prometheus, and the goroutines that
  run and stop the two servers.

  The constructors of the sinks, the HTTP client and the coding of URL queries are arguments.
\<close>

section \<open>Data\<close>

text \<open>The constants of type \<open>Stats\<close> are the positions of their block.\<close>

type_synonym Stats = int

definition Prometheus :: Stats where "Prometheus = 5"
definition Dogstatsd :: Stats where "Dogstatsd = 6"
definition Statsd :: Stats where "Statsd = 7"

definition Stats_String :: "Stats \<Rightarrow> string" where
  "Stats_String s =
     (if s = Prometheus then ''prometheus'' else if s = Dogstatsd then ''dogstatsD''
      else if s = Statsd then ''statsD'' else ''default'')"

definition defaultMergedMetricsBackendBindPort :: string where "defaultMergedMetricsBackendBindPort = ''20100''"
definition mergedMetricsBackendBindHost :: string where "mergedMetricsBackendBindHost = ''[::]:''"
definition cdpMetricsBindPort :: string where "cdpMetricsBindPort = ''20101''"
definition cdpMetricsBindAddr :: string where "cdpMetricsBindAddr = ''[::]:'' @ cdpMetricsBindPort"
definition cdpMetricsUrl :: string where "cdpMetricsUrl = ''http://'' @ cdpMetricsBindAddr"

text \<open>\<open>url.Values\<close>, and a request by the query it carries.\<close>

type_synonym Values = "string \<Rightarrow> string list"
type_synonym query_params = "(string \<times> string list) list"

definition Add :: "string \<Rightarrow> string \<Rightarrow> Values \<Rightarrow> Values" where
  "Add k v q = q(k := q k @ [v])"

text \<open>
  A \<open>urlFn\<close>: the fixed URL, or the parsed one whose query is extended by the request's. What
  a parsed URL says of its query, and its text with another query, are functions of the
  \<open>net/url\<close> package.
\<close>

datatype urlFn = Static string | RetainQuery url

record url_lib =
  ul_Query :: "url \<Rightarrow> Values"
  ul_String :: "url \<Rightarrow> Values \<Rightarrow> string"

definition staticUrlFn :: "string \<Rightarrow> urlFn" where
  "staticUrlFn redirectUrl = Static redirectUrl"

definition retainQueryUrlFn :: "(string \<Rightarrow> url result) \<Rightarrow> string \<Rightarrow> urlFn result" where
  "retainQueryUrlFn parse redirectUrl =
     (case parse redirectUrl of
        Inl e \<Rightarrow> Inl (Wrap ''failed to parse redirect URL'' e)
      | Inr parsedUrl \<Rightarrow> Inr (RetainQuery parsedUrl))"

text \<open>Calling it: the request's parameters come in the order in which the map is iterated.\<close>

fun call_urlFn :: "url_lib \<Rightarrow> urlFn \<Rightarrow> query_params \<Rightarrow> string" where
  "call_urlFn ul (Static redirectUrl) req = redirectUrl"
| "call_urlFn ul (RetainQuery parsedUrl) req =
     (let targetQuery = fold (\<lambda>(k, vs) q. fold (Add k) vs q) req (ul_Query ul parsedUrl)
      in ul_String ul parsedUrl targetQuery)"

text \<open>
  Definitions of metrics by name and help text; \<open>gauge_definitions\<close> are the dataplane's own
  (\<open>gauges\<close> of \<open>stats.go\<close>). The options of the Prometheus sink; the registry with the prefix
  \<open>consul_dataplane_\<close> is left out.
\<close>

type_synonym metric_definition = "string list \<times> string"

definition gauge_definitions :: "metric_definition list" where
  "gauge_definitions =
     [([''envoy_connected''], ''This will either be 0 or 1 depending on whether Envoy is currently running and connected to the local xDS listeners.'')]"

record PrometheusOpts =
  po_Expiration :: int
  po_GaugeDefinitions :: "metric_definition list"
  po_SummaryDefinitions :: "metric_definition list"

datatype sink = PrometheusSink PrometheusOpts | StatsdSink string | DogStatsdSink string "string list"

text \<open>The goroutines that starting the metrics leaves behind.\<close>

datatype goroutine = AwaitDone | MergedServer | CdpServer

record metricsConfig =
  mc_cacheSink :: Sink
  mc_sinks :: "sink list"
  mc_cfg :: "TelemetryConfig option"
  mc_envoyAdminAddr :: string
  mc_envoyAdminBindPort :: int
  mc_statsDAddr :: string
  mc_dogstatsDAddr :: string
  mc_dogstatsTags :: "string list"
  mc_promScrapeServer :: "string option"
  mc_urls :: "urlFn list"
  mc_cdpMetricsServer :: "string option"
  mc_errorExitCh :: bool
  mc_running :: bool
  mc_go :: "goroutine list"

text \<open>Which real sink the cache is given: the black hole or the fan-out over the configured sinks.\<close>

definition blackhole :: sink_ref where "blackhole = 0"
definition fanout :: sink_ref where "fanout = 1"

section \<open>Starting\<close>

definition NewMetricsConfig :: "Config \<Rightarrow> Sink option \<Rightarrow> metricsConfig outcome" where
  "NewMetricsConfig c cacheSink =
     bind_outcome (deref (cfg_Envoy c)) (\<lambda>e.
       Ok \<lparr>mc_cacheSink = (case cacheSink of None \<Rightarrow> NewSink | Some s \<Rightarrow> s), mc_sinks = [], mc_cfg = cfg_Telemetry c,
           mc_envoyAdminAddr = en_AdminBindAddress e, mc_envoyAdminBindPort = en_AdminBindPort e,
           mc_statsDAddr = [], mc_dogstatsDAddr = [], mc_dogstatsTags = [], mc_promScrapeServer = None, mc_urls = [],
           mc_cdpMetricsServer = None, mc_errorExitCh = False, mc_running = False, mc_go = []\<rparr>)"

text \<open>
  The address of a sink from its configured URL, after expanding environment variables. The package has its own copy of the
  mapping of variables.
\<close>

definition cdp_statsSinkEnvMapping :: "(string \<Rightarrow> string) \<Rightarrow> string \<Rightarrow> string" where
  "cdp_statsSinkEnvMapping getenv s = (if s \<noteq> ''HOST_IP'' then ''${'' @ s @ ''}'' else getenv s)"

definition parseSinkAddr :: "lib \<Rightarrow> string \<Rightarrow> Stats \<Rightarrow> string result" where
  "parseSinkAddr lib addr0 s =
     (let addr = (if length addr0 > 2 \<and> hd addr0 = CHR ''$'' then l_Getenv lib (tl addr0)
                  else Expand (cdp_statsSinkEnvMapping (l_Getenv lib)) addr0) in
      case l_Parse lib addr of
        Inl _ \<Rightarrow> Inl (Err (''failed to parse address '' @ addr))
      | Inr u \<Rightarrow>
          if s = Prometheus then Inl (Err ''prometheus not implemented'')
          else if u_Scheme u = ''udp'' then Inr (u_Hostname u @ '':'' @ u_Port u)
          else if u_Scheme u = ''unix'' \<and> s = Dogstatsd then Inr addr
          else Inl (Err (''unsupported addr: '' @ addr @ '' for sink type: '' @ Stats_String s)))"

text \<open>It is resolved as Envoy's sink addresses are.\<close>

lemma sink_addr_resolved [simp]:
  "(if length addr > 2 \<and> hd addr = CHR ''$'' then getenv (tl addr) else Expand (cdp_statsSinkEnvMapping getenv) addr) = resolve_sink_addr getenv addr"
proof -
  have "cdp_statsSinkEnvMapping getenv = statsSinkEnvMapping getenv" by (rule ext) (simp add: cdp_statsSinkEnvMapping_def statsSinkEnvMapping_def)
  then show ?thesis by (simp add: resolve_sink_addr_def)
qed

text \<open>
  The sink constructors, by whether they fail: registering the Go collector, then creating
  the Prometheus, the statsd and the DogStatsD sink; and the definitions of the discovery
  library's metrics.
\<close>

record sink_lib =
  sl_Gauges :: "metric_definition list"
  sl_Summaries :: "metric_definition list"
  sl_Register :: "go_error option"
  sl_NewPrometheusSinkFrom :: "go_error option"
  sl_NewStatsdSink :: "string \<Rightarrow> go_error option"
  sl_NewDogStatsdSink :: "string \<Rightarrow> go_error option"

definition getPromDefaults :: "sink_lib \<Rightarrow> metricsConfig \<Rightarrow> PrometheusOpts outcome" where
  "getPromDefaults sl m =
     (case sl_Register sl of
        Some e \<Rightarrow> Error e
      | None \<Rightarrow>
          bind_outcome (deref (mc_cfg m)) (\<lambda>t.
            Ok \<lparr>po_Expiration = prom_RetentionTime (tel_Prometheus t), po_GaugeDefinitions = gauge_definitions @ sl_Gauges sl,
                po_SummaryDefinitions = sl_Summaries sl\<rparr>))"

definition configureCDPMetricSinks :: "sink_lib \<Rightarrow> Stats \<Rightarrow> metricsConfig \<Rightarrow> metricsConfig outcome" where
  "configureCDPMetricSinks sl s m =
     (if s = Prometheus then
        bind_outcome (getPromDefaults sl m) (\<lambda>opts.
          case sl_NewPrometheusSinkFrom sl of
            Some e \<Rightarrow> Error e
          | None \<Rightarrow> Ok (m\<lparr>mc_sinks := mc_sinks m @ [PrometheusSink opts], mc_go := mc_go m @ [CdpServer]\<rparr>))
      else if s = Statsd then
        (case sl_NewStatsdSink sl (mc_statsDAddr m) of
           Some e \<Rightarrow> Error e
         | None \<Rightarrow> Ok (m\<lparr>mc_sinks := mc_sinks m @ [StatsdSink (mc_statsDAddr m)]\<rparr>))
      else if s = Dogstatsd then
        (case sl_NewDogStatsdSink sl (mc_dogstatsDAddr m) of
           Some e \<Rightarrow> Error e
         | None \<Rightarrow> Ok (m\<lparr>mc_sinks := mc_sinks m @ [DogStatsdSink (mc_dogstatsDAddr m) (mc_dogstatsTags m)]\<rparr>))
      else Ok m)"

text \<open>An error of a step with the message it is reported with.\<close>

definition wrap_outcome :: "string \<Rightarrow> 'a outcome \<Rightarrow> 'a outcome" where
  "wrap_outcome msg r = (case r of Error e \<Rightarrow> Error (Wrap msg e) | _ \<Rightarrow> r)"

definition merged_port :: "PrometheusTelemetryConfig \<Rightarrow> string" where
  "merged_port p = (if prom_MergePort p \<noteq> 0 then Itoa (prom_MergePort p) else defaultMergedMetricsBackendBindPort)"

text \<open>The three parts of \<open>startMetrics\<close> under central configuration.\<close>

definition start_prometheus :: "lib \<Rightarrow> sink_lib \<Rightarrow> BootstrapConfig \<Rightarrow> metricsConfig \<Rightarrow> metricsConfig outcome" where
  "start_prometheus lib sl bcfg m =
     (if bc_PrometheusBindAddr bcfg = [] then Ok m
      else
        bind_outcome (wrap_outcome ''failure enabling consul dataplane metrics for prometheus'' (configureCDPMetricSinks sl Prometheus m)) (\<lambda>m1.
        bind_outcome (of_result (retainQueryUrlFn (l_Parse lib)
            (''http://'' @ JoinHostPort (mc_envoyAdminAddr m1) (Itoa (mc_envoyAdminBindPort m1)) @ ''/stats/prometheus''))) (\<lambda>envoyUrlFn.
        bind_outcome (deref (mc_cfg m1)) (\<lambda>t.
          Ok (m1\<lparr>mc_urls := [staticUrlFn cdpMetricsUrl, envoyUrlFn]
                    @ (if prom_ServiceMetricsURL (tel_Prometheus t) \<noteq> [] then [staticUrlFn (prom_ServiceMetricsURL (tel_Prometheus t))] else []),
                 mc_promScrapeServer := Some (mergedMetricsBackendBindHost @ merged_port (tel_Prometheus t)),
                 mc_go := mc_go m1 @ [MergedServer]\<rparr>)))))"

definition start_statsd :: "lib \<Rightarrow> sink_lib \<Rightarrow> BootstrapConfig \<Rightarrow> metricsConfig \<Rightarrow> metricsConfig outcome" where
  "start_statsd lib sl bcfg m =
     (if bc_StatsdURL bcfg = [] then Ok m
      else
        bind_outcome (of_result (parseSinkAddr lib (bc_StatsdURL bcfg) Statsd)) (\<lambda>addr.
          wrap_outcome ''failure enabling consul dataplane metrics for statsd''
            (configureCDPMetricSinks sl Statsd (m\<lparr>mc_statsDAddr := addr\<rparr>))))"

definition start_dogstatsd :: "lib \<Rightarrow> sink_lib \<Rightarrow> BootstrapConfig \<Rightarrow> metricsConfig \<Rightarrow> metricsConfig outcome" where
  "start_dogstatsd lib sl bcfg m =
     (if bc_DogstatsdURL bcfg = [] then Ok m
      else
        bind_outcome (of_result (parseSinkAddr lib (bc_DogstatsdURL bcfg) Dogstatsd)) (\<lambda>addr.
          wrap_outcome ''failure enabling consul dataplane metrics for dogstatsD''
            (configureCDPMetricSinks sl Dogstatsd (m\<lparr>mc_dogstatsDAddr := addr, mc_dogstatsTags := bc_StatsTags bcfg\<rparr>))))"

definition startMetrics :: "lib \<Rightarrow> sink_lib \<Rightarrow> BootstrapConfig \<Rightarrow> metricsConfig \<Rightarrow> metricsConfig outcome" where
  "startMetrics lib sl bcfg m =
     (if mc_running m then Ok m
      else
        bind_outcome (deref (mc_cfg m)) (\<lambda>t.
          if tel_UseCentralConfig t then
            bind_outcome (start_prometheus lib sl bcfg (m\<lparr>mc_running := True, mc_go := mc_go m @ [AwaitDone]\<rparr>)) (\<lambda>m1.
            bind_outcome (start_statsd lib sl bcfg m1) (\<lambda>m2.
            bind_outcome (start_dogstatsd lib sl bcfg m2) (\<lambda>m3.
              Ok (m3\<lparr>mc_cacheSink := SetSink (Some fanout) (mc_cacheSink m3)\<rparr>))))
          else Ok (m\<lparr>mc_cacheSink := SetSink (Some blackhole) (mc_cacheSink m)\<rparr>)))"

section \<open>The servers\<close>

definition metrics_ErrServerClosed :: go_error where "metrics_ErrServerClosed = Err ''http: Server closed''"

text \<open>Closing \<open>errorExitCh\<close> a second time panics.\<close>

definition close_exit :: "metricsConfig \<Rightarrow> metricsConfig outcome" where
  "close_exit m = (if mc_errorExitCh m then Panic ''close of closed channel'' else Ok (m\<lparr>mc_errorExitCh := True\<rparr>))"

definition serve_ends :: "go_error option \<Rightarrow> metricsConfig \<Rightarrow> metricsConfig outcome" where
  "serve_ends err m = (if err \<noteq> None \<and> err \<noteq> Some metrics_ErrServerClosed then close_exit m else Ok m)"

text \<open>The two serving goroutines, given how \<open>ListenAndServe\<close> ends.\<close>

definition startPrometheusMergedMetricsSink :: "go_error option \<Rightarrow> metricsConfig \<Rightarrow> metricsConfig outcome" where
  "startPrometheusMergedMetricsSink err m = serve_ends err m"

definition runPrometheusCDPServer :: "go_error option \<Rightarrow> metricsConfig \<Rightarrow> metricsConfig outcome" where
  "runPrometheusCDPServer err m = serve_ends err (m\<lparr>mc_cdpMetricsServer := Some cdpMetricsBindAddr\<rparr>)"

definition stopMetricsServers :: "go_error option \<Rightarrow> go_error option \<Rightarrow> metricsConfig \<Rightarrow> metricsConfig outcome" where
  "stopMetricsServers closeProm closeCdp m =
     (let errs = (mc_promScrapeServer m \<noteq> None \<and> closeProm \<noteq> None) \<or> (mc_cdpMetricsServer m \<noteq> None \<and> closeCdp \<noteq> None);
          m' = m\<lparr>mc_running := False\<rparr>
      in if errs then close_exit m' else Ok m')"

definition metricsServerExited :: "metricsConfig \<Rightarrow> bool" where
  "metricsServerExited m = mc_errorExitCh m"

section \<open>Merging\<close>

text \<open>
  What the client answers a \<open>Get\<close> with: a status, and a body that may break off with an error.
  A response under construction has the status written with its first byte.
\<close>

record scraped =
  sr_StatusCode :: int
  sr_Body :: string
  sr_ReadError :: "go_error option"

record ResponseWriter =
  rw_status :: "int option"
  rw_body :: string

definition new_response :: ResponseWriter where
  "new_response = \<lparr>rw_status = None, rw_body = []\<rparr>"

definition WriteHeader :: "int \<Rightarrow> ResponseWriter \<Rightarrow> ResponseWriter" where
  "WriteHeader code rw = (case rw_status rw of None \<Rightarrow> rw\<lparr>rw_status := Some code\<rparr> | Some _ \<Rightarrow> rw)"

definition Write :: "string \<Rightarrow> ResponseWriter \<Rightarrow> ResponseWriter" where
  "Write bytes rw = (if bytes = [] then rw else (WriteHeader 200 rw)\<lparr>rw_body := rw_body rw @ bytes\<rparr>)"

text \<open>The status the client of the response sees: 200 if the handler wrote none.\<close>

definition final_status :: "ResponseWriter \<Rightarrow> int" where
  "final_status rw = (case rw_status rw of None \<Rightarrow> 200 | Some s \<Rightarrow> s)"

definition non2xxCode :: "int \<Rightarrow> bool" where
  "non2xxCode code \<longleftrightarrow> code < 200 \<or> code \<ge> 300"

definition scrapeMetrics :: "(string \<Rightarrow> scraped result) \<Rightarrow> string \<Rightarrow> ResponseWriter \<Rightarrow> go_error option \<times> ResponseWriter" where
  "scrapeMetrics get url rw =
     (case get url of
        Inl e \<Rightarrow> (Some e, rw)
      | Inr resp \<Rightarrow>
          if non2xxCode (sr_StatusCode resp) then (Some (Err (''status code '' @ Itoa (sr_StatusCode resp))), rw)
          else (sr_ReadError resp, Write (sr_Body resp) rw))"

definition scrape_message :: "string \<Rightarrow> string" where
  "scrape_message url = ''failed to scrape metrics at url '' @ CHR 0x22 # url @ [CHR 0x22, CHR 0x0A]"

definition scrapeError :: "string \<Rightarrow> ResponseWriter \<Rightarrow> ResponseWriter" where
  "scrapeError url rw = Write (scrape_message url) (WriteHeader 500 rw)"

fun merge_urls :: "(string \<Rightarrow> scraped result) \<Rightarrow> string list \<Rightarrow> ResponseWriter \<Rightarrow> ResponseWriter" where
  "merge_urls get [] rw = rw"
| "merge_urls get (url # urls) rw =
     (case scrapeMetrics get url rw of
        (Some e, rw') \<Rightarrow> scrapeError url rw'
      | (None, rw') \<Rightarrow> merge_urls get urls rw')"

definition mergedMetricsHandler :: "(string \<Rightarrow> scraped result) \<Rightarrow> url_lib \<Rightarrow> query_params \<Rightarrow> metricsConfig \<Rightarrow> ResponseWriter \<Rightarrow> ResponseWriter" where
  "mergedMetricsHandler get ul req m rw = merge_urls get (map (\<lambda>f. call_urlFn ul f req) (mc_urls m)) rw"

section \<open>Lemmas\<close>

lemmas start_defs = start_prometheus_def start_statsd_def start_dogstatsd_def configureCDPMetricSinks_def getPromDefaults_def

lemma stats_differ [simp]: "Statsd \<noteq> Prometheus" "Dogstatsd \<noteq> Prometheus" "Dogstatsd \<noteq> Statsd"
  by (simp_all add: Statsd_def Prometheus_def Dogstatsd_def)

lemma wrap_outcome_Ok [simp]: "wrap_outcome msg r = Ok a \<longleftrightarrow> r = Ok a"
  by (cases r) (simp_all add: wrap_outcome_def)

lemma of_result_Ok [simp]: "of_result r = Ok a \<longleftrightarrow> r = Inr a"
  by (cases r) simp_all

lemma start_prometheus_effect:
  assumes "start_prometheus lib sl bcfg m = Ok m'" and "mc_cfg m = Some t" and "bc_PrometheusBindAddr bcfg \<noteq> []"
  shows "\<exists>f. retainQueryUrlFn (l_Parse lib) (''http://'' @ JoinHostPort (mc_envoyAdminAddr m) (Itoa (mc_envoyAdminBindPort m)) @ ''/stats/prometheus'') = Inr f
    \<and> m' = m\<lparr>mc_sinks := mc_sinks m @ [PrometheusSink \<lparr>po_Expiration = prom_RetentionTime (tel_Prometheus t),
          po_GaugeDefinitions = gauge_definitions @ sl_Gauges sl, po_SummaryDefinitions = sl_Summaries sl\<rparr>],
        mc_go := mc_go m @ [CdpServer, MergedServer],
        mc_urls := [Static cdpMetricsUrl, f] @ (if prom_ServiceMetricsURL (tel_Prometheus t) \<noteq> [] then [Static (prom_ServiceMetricsURL (tel_Prometheus t))] else []),
        mc_promScrapeServer := Some (mergedMetricsBackendBindHost @ merged_port (tel_Prometheus t))\<rparr>"
  using assms
  by (auto simp: start_prometheus_def configureCDPMetricSinks_def getPromDefaults_def staticUrlFn_def go_simps split: option.split_asm)

lemma start_statsd_effect:
  assumes "start_statsd lib sl bcfg m = Ok m'" and "bc_StatsdURL bcfg \<noteq> []"
  shows "\<exists>a. parseSinkAddr lib (bc_StatsdURL bcfg) Statsd = Inr a \<and> m' = m\<lparr>mc_statsDAddr := a, mc_sinks := mc_sinks m @ [StatsdSink a]\<rparr>"
  using assms by (auto simp: start_statsd_def configureCDPMetricSinks_def go_simps split: option.split_asm)

lemma start_dogstatsd_effect:
  assumes "start_dogstatsd lib sl bcfg m = Ok m'" and "bc_DogstatsdURL bcfg \<noteq> []"
  shows "\<exists>a. parseSinkAddr lib (bc_DogstatsdURL bcfg) Dogstatsd = Inr a
    \<and> m' = m\<lparr>mc_dogstatsDAddr := a, mc_dogstatsTags := bc_StatsTags bcfg, mc_sinks := mc_sinks m @ [DogStatsdSink a (bc_StatsTags bcfg)]\<rparr>"
  using assms by (auto simp: start_dogstatsd_def configureCDPMetricSinks_def go_simps split: option.split_asm)

text \<open>Expanding a variable in braces.\<close>

lemma index_of_prefix: "x \<notin> set xs \<Longrightarrow> index_of (xs @ x # ys) x = Some (length xs)"
  by (induction xs) auto

lemma Expand_literal: "CHR ''$'' \<notin> set pre \<Longrightarrow> Expand f (pre @ s) = pre @ Expand f s"
  by (induction pre) (auto simp: Expand.simps(2))

lemma Expand_variable:
  assumes "name \<noteq> []" and "CHR ''}'' \<notin> set name"
  shows "Expand f (CHR ''$'' # CHR ''{'' # name @ CHR ''}'' # post) = f name @ Expand f post"
proof -
  obtain c cs where name: "name = c # cs" using assms(1) by (cases name) auto
  have "getShellName (CHR ''{'' # name @ CHR ''}'' # post) = (name, length name + 2)"
  proof (cases "cs = []")
    case True
    with name assms(2) show ?thesis by (simp add: getShellName_def)
  next
    case False
    then have "cs ! 0 \<noteq> CHR ''}''" using name assms(2) by (cases cs) auto
    with False name index_of_prefix [OF assms(2), of post] show ?thesis
      by (cases cs) (simp_all add: getShellName_def)
  qed
  with assms(1) show ?thesis by (simp add: Expand.simps(2))
qed

text \<open>The sinks and the sources of merged metrics that a configuration asks for.\<close>

definition prometheus_sink :: "sink_lib \<Rightarrow> TelemetryConfig \<Rightarrow> sink" where
  "prometheus_sink sl t = PrometheusSink \<lparr>po_Expiration = prom_RetentionTime (tel_Prometheus t),
     po_GaugeDefinitions = gauge_definitions @ sl_Gauges sl, po_SummaryDefinitions = sl_Summaries sl\<rparr>"

definition wanted_sinks :: "lib \<Rightarrow> sink_lib \<Rightarrow> BootstrapConfig \<Rightarrow> TelemetryConfig \<Rightarrow> sink list" where
  "wanted_sinks lib sl bcfg t =
     (if bc_PrometheusBindAddr bcfg = [] then [] else [prometheus_sink sl t])
     @ (if bc_StatsdURL bcfg = [] then [] else [StatsdSink (projr (parseSinkAddr lib (bc_StatsdURL bcfg) Statsd))])
     @ (if bc_DogstatsdURL bcfg = [] then []
        else [DogStatsdSink (projr (parseSinkAddr lib (bc_DogstatsdURL bcfg) Dogstatsd)) (bc_StatsTags bcfg)])"

definition envoy_stats_url :: "metricsConfig \<Rightarrow> string" where
  "envoy_stats_url m = ''http://'' @ JoinHostPort (mc_envoyAdminAddr m) (Itoa (mc_envoyAdminBindPort m)) @ ''/stats/prometheus''"

definition wanted_urls :: "lib \<Rightarrow> metricsConfig \<Rightarrow> TelemetryConfig \<Rightarrow> urlFn list" where
  "wanted_urls lib m t =
     [Static cdpMetricsUrl, projr (retainQueryUrlFn (l_Parse lib) (envoy_stats_url m))]
     @ (if prom_ServiceMetricsURL (tel_Prometheus t) \<noteq> [] then [Static (prom_ServiceMetricsURL (tel_Prometheus t))] else [])"

lemma start_prometheus_state:
  assumes "start_prometheus lib sl bcfg m = Ok m'" and "mc_cfg m = Some t"
  shows "mc_sinks m' = mc_sinks m @ (if bc_PrometheusBindAddr bcfg = [] then [] else [prometheus_sink sl t])
    \<and> mc_cacheSink m' = mc_cacheSink m
    \<and> mc_urls m' = (if bc_PrometheusBindAddr bcfg = [] then mc_urls m else wanted_urls lib m t)
    \<and> mc_promScrapeServer m' = (if bc_PrometheusBindAddr bcfg = [] then mc_promScrapeServer m
        else Some (mergedMetricsBackendBindHost @ merged_port (tel_Prometheus t)))"
proof (cases "bc_PrometheusBindAddr bcfg = []")
  case True
  with assms(1) show ?thesis by (simp add: start_prometheus_def)
next
  case False
  from start_prometheus_effect [OF assms False] False show ?thesis
    by (auto simp: prometheus_sink_def wanted_urls_def envoy_stats_url_def)
qed

lemma start_statsd_state:
  assumes "start_statsd lib sl bcfg m = Ok m'"
  shows "mc_sinks m' = mc_sinks m @ (if bc_StatsdURL bcfg = [] then [] else [StatsdSink (projr (parseSinkAddr lib (bc_StatsdURL bcfg) Statsd))])
    \<and> mc_cacheSink m' = mc_cacheSink m \<and> mc_urls m' = mc_urls m \<and> mc_promScrapeServer m' = mc_promScrapeServer m"
  using assms start_statsd_effect [OF assms] by (cases "bc_StatsdURL bcfg = []") (auto simp: start_statsd_def)

lemma start_dogstatsd_state:
  assumes "start_dogstatsd lib sl bcfg m = Ok m'"
  shows "mc_sinks m' = mc_sinks m @ (if bc_DogstatsdURL bcfg = [] then []
      else [DogStatsdSink (projr (parseSinkAddr lib (bc_DogstatsdURL bcfg) Dogstatsd)) (bc_StatsTags bcfg)])
    \<and> mc_cacheSink m' = mc_cacheSink m \<and> mc_urls m' = mc_urls m \<and> mc_promScrapeServer m' = mc_promScrapeServer m"
  using assms start_dogstatsd_effect [OF assms] by (cases "bc_DogstatsdURL bcfg = []") (auto simp: start_dogstatsd_def)

lemma startMetrics_state:
  assumes "startMetrics lib sl bcfg m = Ok m'" and "\<not> mc_running m" and t: "mc_cfg m = Some t" and central: "tel_UseCentralConfig t"
  shows "mc_cacheSink m' = SetSink (Some fanout) (mc_cacheSink m) \<and> mc_sinks m' = mc_sinks m @ wanted_sinks lib sl bcfg t
    \<and> mc_urls m' = (if bc_PrometheusBindAddr bcfg = [] then mc_urls m else wanted_urls lib m t)
    \<and> mc_promScrapeServer m' = (if bc_PrometheusBindAddr bcfg = [] then mc_promScrapeServer m
        else Some (mergedMetricsBackendBindHost @ merged_port (tel_Prometheus t)))"
proof -
  let ?m = "m\<lparr>mc_running := True, mc_go := mc_go m @ [AwaitDone]\<rparr>"
  obtain m1 m2 m3 where st: "start_prometheus lib sl bcfg ?m = Ok m1" "start_statsd lib sl bcfg m1 = Ok m2"
    "start_dogstatsd lib sl bcfg m2 = Ok m3" and m': "m' = m3\<lparr>mc_cacheSink := SetSink (Some fanout) (mc_cacheSink m3)\<rparr>"
    using assms by (auto simp: startMetrics_def go_simps)
  have "wanted_urls lib ?m t = wanted_urls lib m t" by (simp add: wanted_urls_def envoy_stats_url_def)
  with start_prometheus_state [OF st(1)] start_statsd_state [OF st(2)] start_dogstatsd_state [OF st(3)] t m' show ?thesis
    by (simp add: wanted_sinks_def)
qed

lemma startMetrics_succeeds:
  assumes "mc_cfg m = Some t" and "sl_Register sl = None" and "sl_NewPrometheusSinkFrom sl = None"
    and "\<And>a. sl_NewStatsdSink sl a = None" and "\<And>a. sl_NewDogStatsdSink sl a = None"
    and "l_Parse lib (envoy_stats_url m) = Inr u"
    and "bc_StatsdURL bcfg \<noteq> [] \<Longrightarrow> parseSinkAddr lib (bc_StatsdURL bcfg) Statsd = Inr a1"
    and "bc_DogstatsdURL bcfg \<noteq> [] \<Longrightarrow> parseSinkAddr lib (bc_DogstatsdURL bcfg) Dogstatsd = Inr a2"
  shows "\<exists>m'. startMetrics lib sl bcfg m = Ok m'"
proof -
  let ?m = "m\<lparr>mc_running := True, mc_go := mc_go m @ [AwaitDone]\<rparr>"
  obtain m1 where 1: "start_prometheus lib sl bcfg ?m = Ok m1"
    using assms(1-3,6) by (cases "bc_PrometheusBindAddr bcfg = []")
      (simp_all add: start_prometheus_def configureCDPMetricSinks_def getPromDefaults_def wrap_outcome_def retainQueryUrlFn_def envoy_stats_url_def)
  obtain m2 where 2: "start_statsd lib sl bcfg m1 = Ok m2"
    using assms(4,7) by (cases "bc_StatsdURL bcfg = []") (simp_all add: start_statsd_def configureCDPMetricSinks_def wrap_outcome_def)
  obtain m3 where 3: "start_dogstatsd lib sl bcfg m2 = Ok m3"
    using assms(5,8) by (cases "bc_DogstatsdURL bcfg = []") (simp_all add: start_dogstatsd_def configureCDPMetricSinks_def wrap_outcome_def)
  show ?thesis using assms(1) 1 2 3 by (simp add: startMetrics_def)
qed

section \<open>Properties\<close>

text \<open>C30: starting the metrics of a new dataplane. Under central configuration the sinks are
  those whose address is configured, in order, with the addresses and tags given, and the
  merged metrics are served on the configured port from the dataplane, from Envoy's admin
  endpoint and, if configured, from the service; otherwise there are none. Either way the
  cache hands all metrics recorded so far, each once, to the sink it is given, and keeps none.\<close>

theorem telemetry_started:
  assumes "NewMetricsConfig c (Some cache) = Ok m" and "cfg_Telemetry c = Some t" and "startMetrics lib sl bcfg m = Ok m'"
    and "sink_inv cache" and "\<not> once_done cache"
  shows "accepted k (mc_cacheSink m') = accepted k cache \<and> cached k (mc_cacheSink m') = []
    \<and> realSink (mc_cacheSink m') = Some (if tel_UseCentralConfig t then fanout else blackhole)
    \<and> mc_sinks m' = (if tel_UseCentralConfig t then wanted_sinks lib sl bcfg t else [])
    \<and> mc_urls m' = (if tel_UseCentralConfig t \<and> bc_PrometheusBindAddr bcfg \<noteq> [] then wanted_urls lib m t else [])
    \<and> mc_promScrapeServer m' = (if tel_UseCentralConfig t \<and> bc_PrometheusBindAddr bcfg \<noteq> []
        then Some (''[::]:'' @ merged_port (tel_Prometheus t)) else None)"
proof -
  have m: "mc_cacheSink m = cache" "mc_sinks m = []" "mc_urls m = []" "mc_promScrapeServer m = None" "mc_cfg m = Some t" "\<not> mc_running m"
    using assms(1,2) by (auto simp: NewMetricsConfig_def go_simps)
  have real: "realSink (SetSink (Some r) cache) = Some r" for r
    using assms(5) by (simp add: SetSink_def)
  have full: "accepted k (SetSink (Some r) cache) = accepted k cache \<and> cached k (SetSink (Some r) cache) = []" for r
    using SetSink_accepted SetSink_inv [OF assms(4)] real [of r] by (simp add: sink_inv_def)
  show ?thesis
  proof (cases "tel_UseCentralConfig t")
    case True
    from startMetrics_state [OF assms(3) m(6,5) True] True m real full show ?thesis
      by (simp add: mergedMetricsBackendBindHost_def)
  next
    case False
    then have "m' = m\<lparr>mc_cacheSink := SetSink (Some blackhole) cache\<rparr>" using assms(3) m by (simp add: startMetrics_def)
    with False m real full show ?thesis by simp
  qed
qed

text \<open>A dataplane with a Prometheus listener and a statsd sink on the host.\<close>

definition sample_lib :: lib where
  "sample_lib =
     \<lparr>l_Getenv = (\<lambda>v. if v = ''HOST_IP'' then ''10.0.0.7'' else []),
      l_Parse = (\<lambda>s. Inr \<lparr>u_Scheme = ''udp'', u_Hostname = ''10.0.0.7'', u_Port = ''8125'', u_Path = s, u_RawQuery = []\<rparr>),
      l_ParseRequestURI = (\<lambda>_. Inl (Err ''url'')), l_clusterNames = (\<lambda>_. Inr []), 
      l_Execute = (\<lambda>_ _. Inl (Err ''template'')), l_Indent = Inr\<rparr>"

definition sample_sink_lib :: sink_lib where
  "sample_sink_lib = \<lparr>sl_Gauges = [], sl_Summaries = [], sl_Register = None, sl_NewPrometheusSinkFrom = None,
     sl_NewStatsdSink = (\<lambda>_. None), sl_NewDogStatsdSink = (\<lambda>_. None)\<rparr>"

definition sample_telemetry :: TelemetryConfig where
  "sample_telemetry = \<lparr>tel_UseCentralConfig = True,
     tel_Prometheus = \<lparr>prom_RetentionTime = 60000000000, prom_CACertsPath = [], prom_KeyFile = [], prom_CertFile = [],
       prom_ServiceMetricsURL = ''http://127.0.0.1:8080/metrics'', prom_ScrapePath = ''/metrics'', prom_MergePort = 0\<rparr>\<rparr>"

definition sample_envoy :: EnvoyConfig where
  "sample_envoy = \<lparr>en_ExecutablePath = ''/usr/bin/envoy'', en_AdminBindAddress = ''127.0.0.1'', en_AdminBindPort = 19000,
     en_ReadyBindAddress = [], en_ReadyBindPort = 0, en_Concurrency = 2, en_DrainTimeSeconds = 30, en_DrainStrategy = ''immediate'',
     en_ShutdownDrainListenersEnabled = False, en_ShutdownGracePeriodSeconds = 0, en_GracefulShutdownPath = [],
     en_StartupGracePeriodSeconds = 0, en_GracefulStartupPath = [], en_GracefulAddr = [], en_GracefulPort = 0,
     en_DumpEnvoyConfigOnExitEnabled = False, en_ExtraArgs = []\<rparr>"

definition sample_dataplane :: Config where
  "sample_dataplane = \<lparr>cfg_Mode = ModeTypeSidecar, cfg_DNSServer = None, cfg_Consul = None, cfg_Proxy = None, cfg_Logging = None,
     cfg_Telemetry = Some sample_telemetry, cfg_Envoy = Some sample_envoy, cfg_XDSServer = None\<rparr>"

definition sample_bootstrap :: BootstrapConfig where
  "sample_bootstrap =
     \<lparr>bc_StatsdURL = ''udp://${HOST_IP}:8125'', bc_DogstatsdURL = [], bc_StatsTags = [], bc_TelemetryCollectorBindSocketDir = [],
      bc_PrometheusBindAddr = ''0.0.0.0:20200'', bc_StatsBindAddr = [], bc_ReadyBindAddr = [], bc_OverrideJSONTpl = [],
      bc_StaticClustersJSON = [], bc_StaticListenersJSON = [], bc_StatsSinksJSON = [], bc_StatsConfigJSON = [],
      bc_StatsFlushInterval = [], bc_TracingConfigJSON = []\<rparr>"

lemmas sample_defs = sample_lib_def sample_sink_lib_def sample_telemetry_def sample_envoy_def sample_dataplane_def sample_bootstrap_def

lemma NewSink_fresh: "sink_inv NewSink" "\<not> once_done NewSink"
  using NewSink_inv by (simp_all add: NewSink_def)

theorem telemetry_started_witness:
  "\<exists>m m'. NewMetricsConfig sample_dataplane (Some (SetGauge [''envoy_connected''] 0 NewSink)) = Ok m
     \<and> startMetrics sample_lib sample_sink_lib sample_bootstrap m = Ok m'
     \<and> accepted Gauge (mc_cacheSink m') = [CallSetGaugeWithLabels [''envoy_connected''] 0 []] \<and> cached Gauge (mc_cacheSink m') = []
     \<and> mc_promScrapeServer m' = Some ''[::]:20100'' \<and> length (mc_sinks m') = 2 \<and> length (mc_urls m') = 3"
proof -
  let ?cache = "SetGauge [''envoy_connected''] 0 NewSink"
  obtain m where m: "NewMetricsConfig sample_dataplane (Some ?cache) = Ok m" "mc_cfg m = Some sample_telemetry" "\<not> mc_running m"
    by (simp add: NewMetricsConfig_def sample_dataplane_def)
  have "\<exists>a. parseSinkAddr sample_lib (bc_StatsdURL sample_bootstrap) Statsd = Inr a"
    by (simp add: parseSinkAddr_def Let_def sample_lib_def)
  then obtain a where a: "parseSinkAddr sample_lib (bc_StatsdURL sample_bootstrap) Statsd = Inr a" by blast
  have "\<exists>u. l_Parse sample_lib (envoy_stats_url m) = Inr u" by (simp add: sample_lib_def)
  then obtain u where "l_Parse sample_lib (envoy_stats_url m) = Inr u" by blast
  then have "\<exists>m'. startMetrics sample_lib sample_sink_lib sample_bootstrap m = Ok m'"
    by (intro startMetrics_succeeds [OF m(2) _ _ _ _ _ a]) (simp_all add: sample_sink_lib_def sample_bootstrap_def)
  then obtain m' where m': "startMetrics sample_lib sample_sink_lib sample_bootstrap m = Ok m'" by blast
  have inv: "sink_inv ?cache" "\<not> once_done ?cache"
    using NewSink_fresh by (simp_all add: SetGauge_def SetGaugeWithLabels_def NewSink_def sink_inv_def)
  have "cfg_Telemetry sample_dataplane = Some sample_telemetry" by (simp add: sample_dataplane_def)
  note r = telemetry_started [OF m(1) this m' inv, of Gauge]
  have p: "merged_port (tel_Prometheus sample_telemetry) = ''20100''"
    by (simp add: merged_port_def defaultMergedMetricsBackendBindPort_def sample_telemetry_def)
  have a: "accepted Gauge ?cache = [CallSetGaugeWithLabels [''envoy_connected''] 0 []]"
    by (simp add: accepted_def SetGauge_def SetGaugeWithLabels_def NewSink_def gauge_call_def cached.simps)
  have u: "tel_UseCentralConfig sample_telemetry" "bc_PrometheusBindAddr sample_bootstrap \<noteq> []" by (simp_all add: sample_defs)
  have "length (mc_sinks m') = 2" "length (mc_urls m') = 3"
    using r u by (simp_all add: wanted_sinks_def wanted_urls_def sample_defs)
  moreover have "accepted Gauge (mc_cacheSink m') = [CallSetGaugeWithLabels [''envoy_connected''] 0 []]" "cached Gauge (mc_cacheSink m') = []"
    "mc_promScrapeServer m' = Some ''[::]:20100''"
    using r u a p by simp_all
  ultimately show ?thesis using m(1) m' by blast
qed

text \<open>The part of a scraped source that reaches the response, and whether the source is fine.\<close>

definition delivers :: "(string \<Rightarrow> scraped result) \<Rightarrow> string \<Rightarrow> string" where
  "delivers get url = (case get url of Inl _ \<Rightarrow> [] | Inr r \<Rightarrow> if non2xxCode (sr_StatusCode r) then [] else sr_Body r)"

definition source_ok :: "(string \<Rightarrow> scraped result) \<Rightarrow> string \<Rightarrow> bool" where
  "source_ok get url = (case get url of Inl _ \<Rightarrow> False | Inr r \<Rightarrow> 200 \<le> sr_StatusCode r \<and> sr_StatusCode r < 300 \<and> sr_ReadError r = None)"

lemma scrape_result:
  "snd (scrapeMetrics get url rw) = Write (delivers get url) rw" "fst (scrapeMetrics get url rw) = None \<longleftrightarrow> source_ok get url"
  by (auto simp: scrapeMetrics_def delivers_def source_ok_def Write_def non2xxCode_def split: sum.split)

lemma merge_urls_step:
  "merge_urls get (url # urls) rw =
     (if source_ok get url then merge_urls get urls (Write (delivers get url) rw) else scrapeError url (Write (delivers get url) rw))"
  using scrape_result [of get url rw] by (cases "scrapeMetrics get url rw"; cases "fst (scrapeMetrics get url rw)") auto

lemma Write_append: "Write b (Write a rw) = Write (a @ b) rw"
  by (auto simp: Write_def WriteHeader_def split: option.split)

lemma merge_ok_prefix:
  "list_all (source_ok get) xs \<Longrightarrow> merge_urls get (xs @ ys) rw = merge_urls get ys (Write (concat (map (delivers get) xs)) rw)"
proof (induction xs arbitrary: rw)
  case Nil
  then show ?case by (simp add: Write_def)
next
  case (Cons x xs)
  then show ?case by (simp add: merge_urls_step Write_append del: merge_urls.simps)
qed

text \<open>C31: the merged metrics are the bodies of the sources in their order. If a source fails,
  what the earlier ones and it itself delivered comes first and the error message last; the
  status is then 500 only if nothing had been delivered, otherwise the response keeps the
  status 200.\<close>

theorem merged_metrics_response:
  assumes "map (\<lambda>f. call_urlFn ul f req) (mc_urls m) = xs @ ys"
    and "list_all (source_ok get) xs" and "ys = [] \<or> \<not> source_ok get (hd ys)"
  shows "let r = mergedMetricsHandler get ul req m new_response; sent = concat (map (delivers get) (xs @ take 1 ys))
    in rw_body r = sent @ (if ys = [] then [] else scrape_message (hd ys))
       \<and> final_status r = (if ys \<noteq> [] \<and> sent = [] then 500 else 200)"
proof -
  have r: "mergedMetricsHandler get ul req m new_response = merge_urls get ys (Write (concat (map (delivers get) xs)) new_response)"
    using assms(1,2) by (simp add: mergedMetricsHandler_def merge_ok_prefix)
  show ?thesis
  proof (cases ys)
    case Nil
    then show ?thesis unfolding r by (simp add: Write_def WriteHeader_def new_response_def final_status_def)
  next
    case (Cons y zs)
    then have "\<not> source_ok get y" using assms(3) by simp
    with Cons show ?thesis
      unfolding r by (simp add: merge_urls_step Write_append del: merge_urls.simps)
        (simp add: scrapeError_def scrape_message_def Write_def WriteHeader_def new_response_def final_status_def)
  qed
qed

definition sample_metrics :: metricsConfig where
  "sample_metrics = \<lparr>mc_cacheSink = NewSink, mc_sinks = [], mc_cfg = Some sample_telemetry, mc_envoyAdminAddr = ''127.0.0.1'',
     mc_envoyAdminBindPort = 19000, mc_statsDAddr = [], mc_dogstatsDAddr = [], mc_dogstatsTags = [],
     mc_promScrapeServer = Some ''[::]:20100'', mc_urls = [Static cdpMetricsUrl, Static ''http://service''],
     mc_cdpMetricsServer = None, mc_errorExitCh = False, mc_running = True, mc_go = []\<rparr>"

lemma sample_urls: "mc_urls sample_metrics = [Static cdpMetricsUrl, Static ''http://service'']" "cdpMetricsUrl \<noteq> ''http://service''"
  by (simp_all add: sample_metrics_def cdpMetricsUrl_def cdpMetricsBindAddr_def)

text \<open>The dataplane's metrics are served and the service's are not: a success with a truncated body.\<close>

theorem merged_metrics_response_witness:
  "let get = (\<lambda>u. if u = cdpMetricsUrl then Inr \<lparr>sr_StatusCode = 200, sr_Body = ''up 1'', sr_ReadError = None\<rparr> else Inl (Err ''refused''));
       r = mergedMetricsHandler get \<lparr>ul_Query = (\<lambda>_ _. []), ul_String = (\<lambda>u _. u_Path u)\<rparr> [] sample_metrics new_response
   in rw_body r = ''up 1'' @ scrape_message ''http://service'' \<and> final_status r = 200"
  using merged_metrics_response [of "\<lparr>ul_Query = (\<lambda>_ _. []), ul_String = (\<lambda>u _. u_Path u)\<rparr>" "[]" sample_metrics "[cdpMetricsUrl]" "[''http://service'']"
      "\<lambda>u. if u = cdpMetricsUrl then Inr \<lparr>sr_StatusCode = 200, sr_Body = ''up 1'', sr_ReadError = None\<rparr> else Inl (Err ''refused'')"]
    sample_urls by (simp add: source_ok_def delivers_def non2xxCode_def Let_def)

text \<open>Of the environment, expanding a sink address uses only \<open>HOST_IP\<close>, and leaves every other
  variable in braces as it is; an address that starts with a dollar sign is replaced as a
  whole by the variable of that name, whichever it is. An address for statsd is
  a UDP host and port, only DogStatsD also takes a Unix socket.\<close>

lemma sink_address_expansion:
  assumes "pre \<noteq> []" and "CHR ''$'' \<notin> set pre" and "CHR ''$'' \<notin> set post" and "name \<noteq> []" and "CHR ''}'' \<notin> set name"
  shows "resolve_sink_addr getenv (pre @ ''${'' @ name @ ''}'' @ post)
      = pre @ (if name = ''HOST_IP'' then getenv name else ''${'' @ name @ ''}'') @ post
    \<and> (length name > 1 \<longrightarrow> resolve_sink_addr getenv (CHR ''$'' # name) = getenv name)
    \<and> (parseSinkAddr lib addr s = Inr a \<longrightarrow> (\<exists>u. l_Parse lib (resolve_sink_addr (l_Getenv lib) addr) = Inr u \<and> s \<noteq> Prometheus
        \<and> (u_Scheme u = ''udp'' \<and> a = u_Hostname u @ '':'' @ u_Port u
           \<or> u_Scheme u = ''unix'' \<and> s = Dogstatsd \<and> a = resolve_sink_addr (l_Getenv lib) addr)))"
proof -
  have "hd (pre @ x) \<noteq> CHR ''$''" for x using assms(1,2) by (cases pre) auto
  then have "resolve_sink_addr getenv (pre @ x) = Expand (statsSinkEnvMapping getenv) (pre @ x)" for x
    by (simp add: resolve_sink_addr_def)
  moreover have "Expand f post = post" for f using Expand_literal [OF assms(3), of f "[]"] by simp
  ultimately have "resolve_sink_addr getenv (pre @ ''${'' @ name @ ''}'' @ post) = pre @ statsSinkEnvMapping getenv name @ post"
    using Expand_literal [OF assms(2)] Expand_variable [OF assms(4,5)] by simp
  then have 1: "resolve_sink_addr getenv (pre @ ''${'' @ name @ ''}'' @ post)
      = pre @ (if name = ''HOST_IP'' then getenv name else ''${'' @ name @ ''}'') @ post"
    by (simp add: statsSinkEnvMapping_def)
  have 2: "length name > 1 \<longrightarrow> resolve_sink_addr getenv (CHR ''$'' # name) = getenv name"
    by (simp add: resolve_sink_addr_def)
  have 3: "parseSinkAddr lib addr s = Inr a \<longrightarrow> (\<exists>u. l_Parse lib (resolve_sink_addr (l_Getenv lib) addr) = Inr u \<and> s \<noteq> Prometheus
        \<and> (u_Scheme u = ''udp'' \<and> a = u_Hostname u @ '':'' @ u_Port u
           \<or> u_Scheme u = ''unix'' \<and> s = Dogstatsd \<and> a = resolve_sink_addr (l_Getenv lib) addr))"
    by (auto simp: parseSinkAddr_def Let_def split: sum.split_asm if_split_asm)
  from 1 2 3 show ?thesis by blast
qed

text \<open>The metrics servers report an unexpected end by closing the exit channel, which the run
  loop waits for. One failure closes it; but if both servers fail, for instance because both
  ports are taken, the second close panics, in whichever order they end.\<close>

lemma second_server_failure_panics:
  assumes "\<not> mc_errorExitCh m" and "e1 \<noteq> metrics_ErrServerClosed" and "e2 \<noteq> metrics_ErrServerClosed"
  shows "(\<exists>m'. startPrometheusMergedMetricsSink (Some e1) m = Ok m' \<and> metricsServerExited m')
    \<and> (\<exists>m'. runPrometheusCDPServer (Some e2) m = Ok m' \<and> metricsServerExited m')
    \<and> bind_outcome (startPrometheusMergedMetricsSink (Some e1) m) (runPrometheusCDPServer (Some e2)) = Panic ''close of closed channel''
    \<and> bind_outcome (runPrometheusCDPServer (Some e2) m) (startPrometheusMergedMetricsSink (Some e1)) = Panic ''close of closed channel''
    \<and> bind_outcome (startPrometheusMergedMetricsSink (Some metrics_ErrServerClosed) m) (runPrometheusCDPServer (Some metrics_ErrServerClosed))
        = Ok (m\<lparr>mc_cdpMetricsServer := Some cdpMetricsBindAddr\<rparr>)"
  using assms
  by (simp add: startPrometheusMergedMetricsSink_def runPrometheusCDPServer_def serve_ends_def close_exit_def metricsServerExited_def)

lemma second_server_failure_panics_witness:
  "bind_outcome (startPrometheusMergedMetricsSink (Some (Err ''address already in use'')) sample_metrics)
     (runPrometheusCDPServer (Some (Err ''address already in use''))) = Panic ''close of closed channel''"
  using second_server_failure_panics [of sample_metrics "Err ''address already in use''" "Err ''address already in use''"]
  by (simp add: sample_metrics_def metrics_ErrServerClosed_def)

end
