(* ===== verification/Bootstrap_Params.thy ===== *)
theory Bootstrap_Params
  imports Bootstrap_Json Xds_Server Telemetry
begin

text \<open>
  The dataplane's side of the bootstrap, \<open>pkg/consuldp/bootstrap.go\<close>: asking Consul for the
  bootstrap parameters of the proxy, and turning them and the configuration into the
  arguments of the generator of \<open>Bootstrap_Config\<close>.

  The gRPC client, \<open>os.Stat\<close> and \<open>mapstructure.WeakDecode\<close> are arguments.
\<close>

section \<open>Data\<close>

definition localClusterName :: string where "localClusterName = ''consul-dataplane''"
definition defaultAdminAccessLogsPath :: string where "defaultAdminAccessLogsPath = ''/dev/null''"

datatype NodeSpec = NodeId string | NodeName string

record GetEnvoyBootstrapParamsRequest =
  rq_ServiceId :: string
  rq_ProxyId :: string
  rq_Namespace :: string
  rq_Partition :: string
  rq_NodeSpec :: NodeSpec

text \<open>What the dataplane uses of the answer; the proxy's own configuration stays opaque.\<close>

record 'config bootstrap_params =
  bp_Service :: string
  bp_Identity :: string
  bp_NodeName :: string
  bp_Namespace :: string
  bp_Partition :: string
  bp_Datacenter :: string
  bp_AccessLogs :: "string list"
  bp_Config :: 'config

section \<open>Operations\<close>

definition getBootstrapParams ::
  "(GetEnvoyBootstrapParamsRequest \<Rightarrow> 'config bootstrap_params result) \<Rightarrow> Config \<Rightarrow> 'config bootstrap_params outcome" where
  "getBootstrapParams client c =
     bind_outcome (deref (cfg_Proxy c)) (\<lambda>svc.
       case client
         \<lparr>rq_ServiceId = pd_ProxyID svc, rq_ProxyId = pd_ProxyID svc, rq_Namespace = pd_Namespace svc, rq_Partition = pd_Partition svc,
          rq_NodeSpec = (if pd_NodeID svc \<noteq> [] then NodeId (pd_NodeID svc) else NodeName (pd_NodeName svc))\<rparr> of
         Inl e \<Rightarrow> Error (Wrap ''failed to get envoy bootstrap params'' e)
       | Inr rsp \<Rightarrow> Ok rsp)"

text \<open>The address that Envoy is told to reach the xDS server at; a listener address that cannot be split gives empty parts.\<close>

definition xds_grpc :: "xdsServer \<Rightarrow> XDSServerConfig \<Rightarrow> GRPC" where
  "xds_grpc srv x =
     (if xs_listenerNetwork srv = ''unix''
      then \<lparr>g_AgentAddress = xds_BindAddress x, g_AgentPort = Itoa (xds_BindPort x), g_AgentTLS = False, g_AgentSocket = xs_listenerAddress srv\<rparr>
      else (case SplitHostPort (xs_listenerAddress srv) of
              Inl _ \<Rightarrow> \<lparr>g_AgentAddress = [], g_AgentPort = [], g_AgentTLS = False, g_AgentSocket = []\<rparr>
            | Inr (h, p) \<Rightarrow> \<lparr>g_AgentAddress = h, g_AgentPort = p, g_AgentTLS = False, g_AgentSocket = []\<rparr>))"

text \<open>The arguments, before the CA of the Prometheus listener and its backend port are set.\<close>

definition basic_args :: "xdsServer \<Rightarrow> ProxyDetails \<Rightarrow> EnvoyConfig \<Rightarrow> PrometheusTelemetryConfig \<Rightarrow> XDSServerConfig
    \<Rightarrow> 'config bootstrap_params \<Rightarrow> BootstrapTplArgs" where
  "basic_args srv svc envoy prom x params =
     (let name = (if bp_Identity params \<noteq> [] then bp_Identity params else bp_Service params) in
      \<lparr>ta_GRPC = xds_grpc srv x, ta_ProxyCluster = name, ta_ProxyID = pd_ProxyID svc, ta_NodeName = bp_NodeName params,
       ta_ProxySourceService = name, ta_AgentCAPEM = [], ta_AdminAccessLogConfig = bp_AccessLogs params,
       ta_AdminAccessLogPath = defaultAdminAccessLogsPath, ta_AdminBindAddress = en_AdminBindAddress envoy,
       ta_AdminBindPort = Itoa (en_AdminBindPort envoy), ta_LocalAgentClusterName = localClusterName, ta_Token = [],
       ta_StaticClustersJSON = [], ta_StaticListenersJSON = [], ta_StatsSinksJSON = [], ta_StatsConfigJSON = [],
       ta_StaticSecretsJSON = [], ta_StatsFlushInterval = [], ta_TracingConfigJSON = [], ta_Namespace = bp_Namespace params,
       ta_Partition = bp_Partition params, ta_Datacenter = bp_Datacenter params, ta_PrometheusBackendPort = [],
       ta_PrometheusScrapePath = prom_ScrapePath prom, ta_PrometheusCAFile = [], ta_PrometheusCAPath = [],
       ta_PrometheusCertFile = prom_CertFile prom, ta_PrometheusKeyFile = prom_KeyFile prom\<rparr>)"

definition ca_args :: "(string \<Rightarrow> bool result) \<Rightarrow> string \<Rightarrow> BootstrapTplArgs \<Rightarrow> BootstrapTplArgs result" where
  "ca_args isDir path args =
     (if path = [] then Inr args
      else case isDir path of
        Inl e \<Rightarrow> Inl e
      | Inr True \<Rightarrow> Inr (args\<lparr>ta_PrometheusCAPath := path\<rparr>)
      | Inr False \<Rightarrow> Inr (args\<lparr>ta_PrometheusCAFile := path\<rparr>))"

text \<open>The zero value of the configuration, with the address of the ready listener if it is configured.\<close>

definition initial_config :: "EnvoyConfig \<Rightarrow> BootstrapConfig" where
  "initial_config envoy =
     \<lparr>bc_StatsdURL = [], bc_DogstatsdURL = [], bc_StatsTags = [], bc_TelemetryCollectorBindSocketDir = [],
      bc_PrometheusBindAddr = [], bc_StatsBindAddr = [],
      bc_ReadyBindAddr = (if en_ReadyBindAddress envoy \<noteq> [] \<and> en_ReadyBindPort envoy \<noteq> 0
        then JoinHostPort (en_ReadyBindAddress envoy) (Itoa (en_ReadyBindPort envoy)) else []),
      bc_OverrideJSONTpl = [], bc_StaticClustersJSON = [], bc_StaticListenersJSON = [], bc_StatsSinksJSON = [],
      bc_StatsConfigJSON = [], bc_StatsFlushInterval = [], bc_TracingConfigJSON = []\<rparr>"

text \<open>
  \<open>weakDecode\<close> decodes the proxy's configuration into the structure given. Without central
  configuration it is not looked at.
\<close>

definition central_config :: "('config \<Rightarrow> BootstrapConfig \<Rightarrow> BootstrapConfig result) \<Rightarrow> TelemetryConfig \<Rightarrow> 'config
    \<Rightarrow> BootstrapConfig \<times> BootstrapTplArgs \<Rightarrow> (BootstrapConfig \<times> BootstrapTplArgs) result" where
  "central_config weakDecode t config ca =
     (if \<not> tel_UseCentralConfig t then Inr ca
      else case weakDecode config (fst ca) of
        Inl e \<Rightarrow> Inl (Wrap ''failed parsing Proxy.Config'' e)
      | Inr bc \<Rightarrow> Inr (bc, (snd ca)\<lparr>ta_PrometheusBackendPort := Itoa (prom_MergePort (tel_Prometheus t))\<rparr>))"

definition bootstrap_inputs :: "(string \<Rightarrow> bool result) \<Rightarrow> ('config \<Rightarrow> BootstrapConfig \<Rightarrow> BootstrapConfig result)
    \<Rightarrow> Config \<Rightarrow> xdsServer \<Rightarrow> 'config bootstrap_params \<Rightarrow> (BootstrapConfig \<times> BootstrapTplArgs) outcome" where
  "bootstrap_inputs isDir weakDecode c srv params =
     bind_outcome (deref (cfg_Telemetry c)) (\<lambda>t.
     bind_outcome (deref (cfg_XDSServer c)) (\<lambda>x.
     bind_outcome (deref (cfg_Proxy c)) (\<lambda>svc.
     bind_outcome (deref (cfg_Envoy c)) (\<lambda>envoy.
     bind_outcome (of_result (ca_args isDir (prom_CACertsPath (tel_Prometheus t)) (basic_args srv svc envoy (tel_Prometheus t) x params))) (\<lambda>args.
       of_result (central_config weakDecode t (bp_Config params) (initial_config envoy, args)))))))"

definition bootstrapConfig :: "lib \<Rightarrow> (string \<Rightarrow> bool result) \<Rightarrow> ('config \<Rightarrow> BootstrapConfig \<Rightarrow> BootstrapConfig result)
    \<Rightarrow> Config \<Rightarrow> xdsServer \<Rightarrow> 'config bootstrap_params \<Rightarrow> (BootstrapConfig \<times> string) outcome" where
  "bootstrapConfig lib isDir weakDecode c srv params =
     bind_outcome (bootstrap_inputs isDir weakDecode c srv params) (\<lambda>(bc, args).
     bind_outcome (of_result (GenerateJSON lib bc args True)) (\<lambda>json.
       Ok (bc, json)))"

section \<open>Lemmas\<close>

text \<open>What the later stages keep of the basic arguments.\<close>

lemma bootstrap_inputs_args:
  assumes "bootstrap_inputs isDir weakDecode c srv params = Ok (bc, args)"
  shows "\<exists>t x svc envoy. cfg_Telemetry c = Some t \<and> cfg_XDSServer c = Some x \<and> cfg_Proxy c = Some svc \<and> cfg_Envoy c = Some envoy
    \<and> ta_GRPC args = xds_grpc srv x \<and> ta_ProxyID args = pd_ProxyID svc \<and> ta_LocalAgentClusterName args = ''consul-dataplane''
    \<and> ta_AdminBindAddress args = en_AdminBindAddress envoy \<and> ta_AdminBindPort args = Itoa (en_AdminBindPort envoy)
    \<and> ta_StaticClustersJSON args = [] \<and> ta_AgentCAPEM args = []
    \<and> ta_PrometheusBackendPort args = (if tel_UseCentralConfig t then Itoa (prom_MergePort (tel_Prometheus t)) else [])"
proof -
  obtain t x svc envoy args0 where c: "cfg_Telemetry c = Some t" "cfg_XDSServer c = Some x" "cfg_Proxy c = Some svc" "cfg_Envoy c = Some envoy"
    and ca: "ca_args isDir (prom_CACertsPath (tel_Prometheus t)) (basic_args srv svc envoy (tel_Prometheus t) x params) = Inr args0"
    and central: "central_config weakDecode t (bp_Config params) (initial_config envoy, args0) = Inr (bc, args)"
    using assms by (auto simp: bootstrap_inputs_def go_simps)
  let ?b = "basic_args srv svc envoy (tel_Prometheus t) x params"
  have "\<exists>p f. args0 = ?b\<lparr>ta_PrometheusCAPath := p, ta_PrometheusCAFile := f\<rparr>"
    using ca by (auto simp: ca_args_def basic_args_def Let_def split: if_split_asm sum.split_asm bool.split_asm)
  then obtain p f where a0: "args0 = ?b\<lparr>ta_PrometheusCAPath := p, ta_PrometheusCAFile := f\<rparr>" by blast
  have "args = (if tel_UseCentralConfig t then args0\<lparr>ta_PrometheusBackendPort := Itoa (prom_MergePort (tel_Prometheus t))\<rparr> else args0)"
    using central by (auto simp: central_config_def split: if_split_asm sum.split_asm)
  with a0 c show ?thesis by (simp add: basic_args_def Let_def localClusterName_def)
qed

lemma xds_grpc_endpoint:
  assumes "ta_GRPC args = xds_grpc srv x" and "xs_listenerNetwork srv = ''unix'' \<Longrightarrow> xs_listenerAddress srv \<noteq> []"
    and "xs_listenerNetwork srv \<noteq> ''unix'' \<Longrightarrow> xs_listenerAddress srv = JoinHostPort h p \<and> plain_host h \<and> plain_port p"
  shows "endpoint_json args = (if xs_listenerNetwork srv = ''unix'' then JObj [(''pipe'', JObj [(''path'', JStr (xs_listenerAddress srv))])]
    else socket_json h p)"
  using assms split_join_host_port [of h p] by (simp add: endpoint_json_def xds_grpc_def)

lemma Itoa_zero: "Itoa 0 = ''0''"
  by code_simp

lemma Itoa_not_default: "Itoa 0 \<noteq> defaultMergedMetricsBackendBindPort"
  by (simp add: Itoa_zero defaultMergedMetricsBackendBindPort_def)

section \<open>Properties\<close>

text \<open>C4: the bootstrap leads Envoy back to the dataplane. In the JSON generated from the
  configuration, the bootstrap parameters and the running xDS server, the node is the
  configured proxy, the admin endpoint is where the dataplane will look for it, and the first
  cluster, \<open>consul-dataplane\<close>, has as its only endpoint the socket or the host and port that
  the xDS server listens on.\<close>

theorem envoy_reaches_dataplane:
  assumes "bootstrapConfig lib isDir weakDecode c srv params = Ok (bc, t)"
    and "bootstrap_inputs isDir weakDecode c srv params = Ok (bc', args)" and "well_formed_input lib bc' args" and "indent_keeps lib"
    and "xs_listenerNetwork srv = ''unix'' \<Longrightarrow> xs_listenerAddress srv \<noteq> []"
    and "xs_listenerNetwork srv \<noteq> ''unix'' \<Longrightarrow> xs_listenerAddress srv = JoinHostPort h p \<and> plain_host h \<and> plain_port p"
    and "cfg_Proxy c = Some svc" and "cfg_Envoy c = Some envoy"
  shows "\<exists>v x cs. parse_json t = Some v \<and> clusters_are v (x # cs)
    \<and> lookup v [step.Key ''node'', step.Key ''id''] = Some (JStr (pd_ProxyID svc))
    \<and> lookup v [step.Key ''admin'', step.Key ''address''] = Some (socket_json (en_AdminBindAddress envoy) (Itoa (en_AdminBindPort envoy)))
    \<and> lookup x [step.Key ''name''] = Some (JStr ''consul-dataplane'')
    \<and> lookup x agent_endpoint = Some (if xs_listenerNetwork srv = ''unix''
        then JObj [(''pipe'', JObj [(''path'', JStr (xs_listenerAddress srv))])] else socket_json h p)"
proof -
  obtain x where x: "ta_GRPC args = xds_grpc srv x" and args: "ta_ProxyID args = pd_ProxyID svc" "ta_LocalAgentClusterName args = ''consul-dataplane''"
    "ta_AdminBindAddress args = en_AdminBindAddress envoy" "ta_AdminBindPort args = Itoa (en_AdminBindPort envoy)"
    using bootstrap_inputs_args [OF assms(2)] assms(7,8) by auto
  have gen: "GenerateJSON lib bc' args True = Inr t" using assms(1,2) by (auto simp: bootstrapConfig_def go_simps)
  obtain a' where a': "ConfigureArgs lib bc' True args = Inr a'" "json_args a'" using GenerateJSON_configured [OF gen assms(3)] by blast
  obtain cs where "if ta_StaticClustersJSON a' = [] then cs = [] else denotes_seq (ta_StaticClustersJSON a') cs"
    using json_args_values [OF a'(2)] by blast
  from GenerateJSON_holds [OF gen assms(3,4) a'(1) this] obtain v y
    where "parse_json t = Some v" "identifies v args" "clusters_are v (y # cs)" "agent_cluster y args" by blast
  with xds_grpc_endpoint [OF x assms(5,6)] args show ?thesis
    by (intro exI [of _ v] exI [of _ y] exI [of _ cs]) (simp add: identifies_def agent_cluster_def)
qed

text \<open>A sidecar whose xDS server got a port from the system.\<close>

definition sample_sidecar :: Config where
  "sample_sidecar = sample_dataplane
     \<lparr>cfg_Telemetry := Some (sample_telemetry\<lparr>tel_UseCentralConfig := False\<rparr>),
      cfg_Proxy := Some \<lparr>pd_NodeName = ''node-1'', pd_NodeID = [], pd_ProxyID = ''web-proxy'', pd_Namespace = [], pd_Partition = []\<rparr>,
      cfg_XDSServer := Some \<lparr>xds_BindAddress = ''127.0.0.1'', xds_BindPort = 0\<rparr>\<rparr>"

definition sample_listen :: "string \<Rightarrow> string \<Rightarrow> (string \<times> string) result" where
  "sample_listen network address = Inr (JoinHostPort ''127.0.0.1'' ''41000'', network)"

definition sample_params :: "unit bootstrap_params" where
  "sample_params = \<lparr>bp_Service = ''web'', bp_Identity = [], bp_NodeName = ''node-1'', bp_Namespace = ''default'', bp_Partition = ''default'',
     bp_Datacenter = ''dc1'', bp_AccessLogs = [], bp_Config = ()\<rparr>"

definition sample_xds :: xdsServer where
  "sample_xds = \<lparr>xs_listenerAddress = JoinHostPort ''127.0.0.1'' ''41000'', xs_listenerNetwork = ''tcp'', xs_serving = True, xs_exitedCh_closed = False\<rparr>"

definition sample_args :: BootstrapTplArgs where
  "sample_args = basic_args sample_xds \<lparr>pd_NodeName = ''node-1'', pd_NodeID = [], pd_ProxyID = ''web-proxy'', pd_Namespace = [], pd_Partition = []\<rparr>
     sample_envoy (tel_Prometheus sample_telemetry) \<lparr>xds_BindAddress = ''127.0.0.1'', xds_BindPort = 0\<rparr> sample_params"

lemma sample_setup: "setupXDSServer sample_listen sample_sidecar = Ok sample_xds"
  by (simp add: setupXDSServer_def sample_sidecar_def sample_dataplane_def xds_listen_address_def HasPrefix_def sample_listen_def sample_xds_def)

lemma sample_inputs: "bootstrap_inputs isDir weakDecode sample_sidecar sample_xds sample_params = Ok (initial_config sample_envoy, sample_args)"
  by (simp add: bootstrap_inputs_def sample_sidecar_def sample_dataplane_def ca_args_def central_config_def sample_args_def sample_telemetry_def)

lemma sample_split: "SplitHostPort (JoinHostPort ''127.0.0.1'' ''41000'') = Inr (''127.0.0.1'', ''41000'')"
  by (rule split_join_host_port) (simp_all add: plain_host_def plain_port_def)

lemma sample_well_formed: "well_formed_input example_lib (initial_config sample_envoy) sample_args"
proof -
  have n: "number_text (Itoa 19000)" using nat_digits_number by (simp add: Itoa_def)
  have m: "number_text ''41000''" by (rule num_int) (simp add: int_part_def digits_def is_digit_def)
  have g: "ta_GRPC sample_args = \<lparr>g_AgentAddress = ''127.0.0.1'', g_AgentPort = ''41000'', g_AgentTLS = False, g_AgentSocket = []\<rparr>"
    using sample_split by (simp add: sample_args_def basic_args_def xds_grpc_def sample_xds_def Let_def)
  have "plain_args sample_args"
    using n m unfolding plain_args_def g
    by (simp add: sample_args_def basic_args_def Let_def sample_params_def sample_envoy_def sample_telemetry_def localClusterName_def
        defaultAdminAccessLogsPath_def) (simp add: plain_def plain_char_def)
  moreover have "json_args sample_args"
    by (simp add: json_args_def sample_args_def basic_args_def Let_def fragment_def)
  moreover have "good_config example_lib (initial_config sample_envoy) sample_args"
  proof -
    have "SplitHostPort [] = Inl (Err ''missing port in address'')" by code_simp
    then show ?thesis
      by (simp add: good_config_def initial_config_def sample_envoy_def example_lib_def fragment_def sink_ok_def bind_ok_def match_value_def
          HasPrefix_def sample_args_def basic_args_def Let_def sample_telemetry_def plain_def plain_char_def)
  qed
  ultimately show ?thesis by (simp add: well_formed_input_def initial_config_def)
qed

lemma sample_bootstrap_generates:
  "\<exists>t. bootstrapConfig example_lib isDir weakDecode sample_sidecar sample_xds sample_params = Ok (initial_config sample_envoy, t)"
proof -
  let ?c = "initial_config sample_envoy"
  have sinks: "generateStatsSinks example_lib ?c sample_args = Inr sample_args"
    by (simp add: generateStatsSinks_def sink_if_set_def initial_config_def)
  have "ConfigureArgs example_lib ?c True sample_args = Inr (final_stage example_lib ?c (static_stage ?c True sample_args))"
    by (rule ConfigureArgs_from_stages [OF sinks]) (simp_all add: maybe_listener_def initial_config_def sample_envoy_def)
  then have "\<exists>t. GenerateJSON example_lib ?c sample_args True = Inr t"
    by (simp add: GenerateJSON_def execute_template_def initial_config_def)
       (simp add: example_lib_def sample_args_def basic_args_def Let_def xds_grpc_def split: sum.split prod.split)
  then show ?thesis by (auto simp: bootstrapConfig_def sample_inputs)
qed

theorem envoy_reaches_dataplane_witness:
  "\<exists>srv t v x cs. setupXDSServer sample_listen sample_sidecar = Ok srv
     \<and> bootstrapConfig example_lib (\<lambda>_. Inr False) (\<lambda>_. Inr) sample_sidecar srv sample_params = Ok (initial_config sample_envoy, t)
     \<and> parse_json t = Some v \<and> clusters_are v (x # cs) \<and> lookup x agent_endpoint = Some (socket_json ''127.0.0.1'' ''41000'')"
proof -
  obtain t where t: "bootstrapConfig example_lib (\<lambda>_. Inr False) (\<lambda>_. Inr) sample_sidecar sample_xds sample_params = Ok (initial_config sample_envoy, t)"
    using sample_bootstrap_generates by blast
  have "cfg_Proxy sample_sidecar = Some \<lparr>pd_NodeName = ''node-1'', pd_NodeID = [], pd_ProxyID = ''web-proxy'', pd_Namespace = [], pd_Partition = []\<rparr>"
    "cfg_Envoy sample_sidecar = Some sample_envoy" by (simp_all add: sample_sidecar_def sample_dataplane_def)
  note e = envoy_reaches_dataplane [OF t sample_inputs sample_well_formed example_lib_laws(1), of "''127.0.0.1''" "''41000''", OF _ _ this]
  have "xs_listenerNetwork sample_xds \<noteq> ''unix''" "xs_listenerAddress sample_xds = JoinHostPort ''127.0.0.1'' ''41000''"
    "plain_host ''127.0.0.1''" "plain_port ''41000''"
    by (simp_all add: sample_xds_def plain_host_def plain_port_def)
  then have "\<exists>v x cs. parse_json t = Some v \<and> clusters_are v (x # cs) \<and> lookup x agent_endpoint = Some (socket_json ''127.0.0.1'' ''41000'')"
    using e by auto
  with t sample_setup show ?thesis by blast
qed

end
