(* ===== verification/Envoy_Proxy.thy ===== *)
theory Envoy_Proxy
  imports Go_Net
begin

text \<open>
  The manager of the Envoy process, \<open>pkg/envoy/proxy.go\<close>: the configuration and its
  defaults (\<open>NewProxy\<close>), the command line (\<open>buildCommand\<close>,
  \<open>removeArgAndGetValue\<close> with its effect on the caller's slice), and the life cycle
  (\<open>Run\<close>, \<open>Drain\<close>, \<open>Quit\<close>, \<open>Kill\<close>, \<open>DumpConfig\<close>, \<open>Ready\<close> and the goroutine
  that waits for the process) as operations and as a step relation.

  The answers of the operating system and of Envoy's admin endpoint are arguments of
  the operations; the requests sent are recorded in the state.
\<close>

section \<open>Data\<close>

datatype pstate = stateInitial | stateRunning | stateDraining | stateStopped | stateExited

text \<open>What the code asks of a \<open>hclog.Logger\<close>.\<close>

record logger =
  IsTrace :: bool
  IsDebug :: bool
  IsInfo :: bool
  IsWarn :: bool
  IsError :: bool

datatype stream = Stdout | Stderr | Writer nat

record ProxyConfig =
  pc_ExecutablePath :: string
  pc_AdminAddr :: string
  pc_AdminBindPort :: int
  pc_ExtraArgs :: "string list"
  pc_Logger :: "logger option"
  pc_LogJSON :: bool
  pc_EnvoyErrorStream :: "stream option"
  pc_EnvoyOutputStream :: "stream option"
  pc_BootstrapConfig :: string

record SysProcAttr =
  Setpgid :: bool

record Cmd =
  cmd_Path :: string
  cmd_Args :: "string list"
  cmd_Stdout :: "stream option"
  cmd_Stderr :: "stream option"
  cmd_SysProcAttr :: "SysProcAttr option"

text \<open>The process, and the goroutine of \<open>Run\<close> that waits on it and then sends on \<open>exitedCh\<close>.\<close>

datatype process = NoProcess | Alive | Dead
datatype waiter = NoWaiter | Waiting | Notifying "go_error option" | Closed

datatype request = POST string | GET string

record http_response =
  StatusCode :: int
  Body :: "string result"

record Proxy =
  cfg :: ProxyConfig
  state :: pstate
  cmd :: "Cmd option"
  proc :: process
  exitedCh :: waiter
  requests :: "request list"

section \<open>Construction and command line\<close>

definition logFormatPlain :: string where
  "logFormatPlain = ''%Y-%m-%dT%T.%eZ%z [%l] envoy.%n(%t) %v''"

definition logFormatJSON :: string where
  "logFormatJSON = ''{\"@timestamp\":\"%Y-%m-%dT%T.%fZ%z\",\"@module\":\"envoy.%n\",\"@level\":\"%l\",\"@message\":\"%j\",\"thread\":%t}''"

text \<open>The idiom \<open>if x == nil { x = default }\<close>.\<close>

definition or_else :: "'a option \<Rightarrow> 'a \<Rightarrow> 'a option" where
  "or_else x d = (case x of None \<Rightarrow> Some d | Some v \<Rightarrow> Some v)"

text \<open>\<open>lookPath\<close> is the answer of \<open>exec.LookPath\<close>, \<open>nullLogger\<close> hclog's null logger.\<close>

definition NewProxy :: "string result \<Rightarrow> logger \<Rightarrow> ProxyConfig \<Rightarrow> Proxy result" where
  "NewProxy lookPath nullLogger c0 =
     (case (if pc_ExecutablePath c0 = [] then lookPath else Inr (pc_ExecutablePath c0)) of
        Inl e \<Rightarrow> Inl e
      | Inr path \<Rightarrow>
          (let c1 = c0\<lparr>pc_ExecutablePath := path, pc_Logger := or_else (pc_Logger c0) nullLogger\<rparr>
           in if length (pc_BootstrapConfig c1) = 0
              then Inl (Err ''BootstrapConfig is required to run an Envoy proxy'')
              else Inr \<lparr>cfg = c1\<lparr>pc_EnvoyOutputStream := or_else (pc_EnvoyOutputStream c1) Stdout,
                                 pc_EnvoyErrorStream := or_else (pc_EnvoyErrorStream c1) Stderr\<rparr>,
                         state = stateInitial, cmd = None, proc = NoProcess,
                         exitedCh = NoWaiter, requests = []\<rparr>))"

definition getState :: "Proxy \<Rightarrow> pstate" where
  "getState p = state p"

text \<open>The atomic compare-and-swap on the state.\<close>

definition transitionState :: "pstate \<Rightarrow> pstate \<Rightarrow> Proxy \<Rightarrow> bool \<times> Proxy" where
  "transitionState before after p =
     (if state p = before then (True, p\<lparr>state := after\<rparr>) else (False, p))"

text \<open>
  \<open>removeArgAndGetValue\<close>: the result slice, the value, and what the caller's own
  slice holds afterwards. The result is built by \<open>append\<close> on a prefix of the caller's
  slice, so it overwrites the caller's elements from the key on; the last two stay.
\<close>

definition removeArgAndGetValue :: "string list \<Rightarrow> string \<Rightarrow> (string list \<times> string \<times> string list) outcome" where
  "removeArgAndGetValue stringAr key =
     (case index_of stringAr key of
        None \<Rightarrow> Ok (stringAr, [], stringAr)
      | Some i \<Rightarrow>
          if Suc i < length stringAr
          then (let kept = take i stringAr @ drop (i + 2) stringAr
                in Ok (kept, stringAr ! Suc i, kept @ drop (length stringAr - 2) stringAr))
          else Panic ''index out of range'')"

definition infer_level :: "logger \<Rightarrow> string" where
  "infer_level l =
     (if IsTrace l then ''trace'' else if IsDebug l then ''debug'' else if IsInfo l then ''info''
      else if IsWarn l then ''warn'' else if IsError l then ''error'' else ''info'')"

text \<open>The command, and the configuration with the extra arguments as they are afterwards.\<close>

definition buildCommand :: "string \<Rightarrow> ProxyConfig \<Rightarrow> (Cmd \<times> ProxyConfig) outcome" where
  "buildCommand cfgYaml c =
     bind_outcome (deref (pc_Logger c)) (\<lambda>logger.
     bind_outcome (removeArgAndGetValue (pc_ExtraArgs c) ''--log-level'') (\<lambda>(newExtraArgs, val, extraArgs).
       let logFormat = (if pc_LogJSON c then logFormatJSON else logFormatPlain);
           logLevel = (if length val > 0 then val else infer_level logger);
           args = [''--config-yaml'', cfgYaml, ''--log-format'', logFormat, ''--log-level'', logLevel,
                   ''--disable-hot-restart''] @ newExtraArgs
       in Ok (\<lparr>cmd_Path = pc_ExecutablePath c, cmd_Args = args, cmd_Stdout = pc_EnvoyOutputStream c,
               cmd_Stderr = pc_EnvoyErrorStream c, cmd_SysProcAttr = None\<rparr>,
              c\<lparr>pc_ExtraArgs := extraArgs\<rparr>)))"

section \<open>Life cycle operations\<close>

text \<open>Envoy gets a process group of its own (the variant for systems other than Windows).\<close>

definition getProcessAttr :: SysProcAttr where
  "getProcessAttr = \<lparr>Setpgid = True\<rparr>"

text \<open>\<open>start\<close> is the answer of \<open>cmd.Start\<close>; without an error the process runs and is waited on.\<close>

definition Run :: "(Cmd \<Rightarrow> go_error option) \<Rightarrow> Proxy \<Rightarrow> (go_error option \<times> Proxy) outcome" where
  "Run start p =
     (case transitionState stateInitial stateRunning p of
        (False, p1) \<Rightarrow> Ok (Some (Err ''proxy may only be run once''), p1)
      | (True, p1) \<Rightarrow>
          bind_outcome (buildCommand (pc_BootstrapConfig (cfg p1)) (cfg p1)) (\<lambda>(c, cf).
            let c1 = c\<lparr>cmd_SysProcAttr := Some getProcessAttr\<rparr>; p2 = p1\<lparr>cfg := cf, cmd := Some c1\<rparr>
            in case start c1 of
                 Some e \<Rightarrow> Ok (Some e, p2)
               | None \<Rightarrow> Ok (None, p2\<lparr>proc := Alive, exitedCh := Waiting\<rparr>)))"

text \<open>The goroutine of \<open>Run\<close> after \<open>cmd.Wait\<close> has returned \<open>e\<close>.\<close>

definition reap :: "go_error option \<Rightarrow> Proxy \<Rightarrow> Proxy" where
  "reap e p = (snd (transitionState stateRunning stateExited p))\<lparr>exitedCh := Notifying e\<rparr>"

definition admin_url :: "Proxy \<Rightarrow> string \<Rightarrow> string" where
  "admin_url p path = ''http://'' @ JoinHostPort (pc_AdminAddr (cfg p)) (Itoa (pc_AdminBindPort (cfg p))) @ path"

text \<open>\<open>client.Post\<close>: the request is recorded, \<open>post\<close> is its answer.\<close>

definition do_post :: "(string \<Rightarrow> go_error option) \<Rightarrow> string \<Rightarrow> Proxy \<Rightarrow> go_error option \<times> Proxy" where
  "do_post post url p = (post url, p\<lparr>requests := requests p @ [POST url]\<rparr>)"

definition Drain :: "(string \<Rightarrow> go_error option) \<Rightarrow> Proxy \<Rightarrow> go_error option \<times> Proxy" where
  "Drain post p =
     (let url = admin_url p ''/drain_listeners?inboundonly&graceful&skip_exit'' in
      case getState p of
        stateExited \<Rightarrow> (None, p)
      | stateStopped \<Rightarrow> (None, p)
      | stateDraining \<Rightarrow> (None, p)
      | stateRunning \<Rightarrow> do_post post url (snd (transitionState stateRunning stateDraining p))
      | _ \<Rightarrow> (Some (Err ''proxy must be running to drain connections''), p))"

definition Quit :: "(string \<Rightarrow> go_error option) \<Rightarrow> Proxy \<Rightarrow> go_error option \<times> Proxy" where
  "Quit post p =
     (let url = admin_url p ''/quitquitquit'' in
      case getState p of
        stateExited \<Rightarrow> (None, p)
      | stateStopped \<Rightarrow> (None, p)
      | stateDraining \<Rightarrow> do_post post url (snd (transitionState stateDraining stateStopped p))
      | stateRunning \<Rightarrow> do_post post url (snd (transitionState stateRunning stateStopped p))
      | _ \<Rightarrow> (Some (Err ''proxy must be running to be stopped''), p))"

text \<open>
  \<open>p.cmd.Process.Kill\<close>: panics without a process, fails on one that was already
  waited for; \<open>kill\<close> is the answer of the operating system.
\<close>

definition kill_process :: "go_error option \<Rightarrow> Proxy \<Rightarrow> (go_error option \<times> Proxy) outcome" where
  "kill_process kill p =
     (if cmd p = None \<or> proc p = NoProcess then Panic ''nil pointer dereference''
      else if exitedCh p \<noteq> Waiting then Ok (Some (Err ''os: process already finished''), p)
      else case kill of
             Some e \<Rightarrow> Ok (Some e, p)
           | None \<Rightarrow> Ok (None, p\<lparr>proc := Dead\<rparr>))"

definition Kill :: "go_error option \<Rightarrow> Proxy \<Rightarrow> (go_error option \<times> Proxy) outcome" where
  "Kill kill p =
     (case getState p of
        stateExited \<Rightarrow> Ok (None, p)
      | stateStopped \<Rightarrow> kill_process kill p
      | stateDraining \<Rightarrow> kill_process kill p
      | stateRunning \<Rightarrow> kill_process kill p
      | _ \<Rightarrow> Ok (Some (Err ''proxy must be running to be killed''), p))"

text \<open>
  The answer of the admin endpoint, the error of \<open>Write\<close> on the output stream; the
  result is the error, what was written, and the proxy. The error of \<open>Write\<close> is
  declared in the scope of the \<open>if\<close> only, so it is not the one returned.
\<close>

definition dumpConfig :: "(string \<Rightarrow> http_response result) \<Rightarrow> go_error option \<Rightarrow> Proxy
    \<Rightarrow> go_error option \<times> string option \<times> Proxy" where
  "dumpConfig get write p =
     (let url = admin_url p ''/config_dump?include_eds''; p' = p\<lparr>requests := requests p @ [GET url]\<rparr> in
      case get url of
        Inl e \<Rightarrow> (Some e, None, p')
      | Inr rsp \<Rightarrow>
          (case Body rsp of
             Inl e \<Rightarrow> (Some e, None, p')
           | Inr config \<Rightarrow> (None, if write = None then Some config else None, p')))"

definition DumpConfig :: "(string \<Rightarrow> http_response result) \<Rightarrow> go_error option \<Rightarrow> Proxy
    \<Rightarrow> go_error option \<times> string option \<times> Proxy" where
  "DumpConfig get write p =
     (case getState p of
        stateExited \<Rightarrow> (Some (Err ''proxy must be running to dump config''), None, p)
      | stateStopped \<Rightarrow> (Some (Err ''proxy must be running to dump config''), None, p)
      | stateDraining \<Rightarrow> dumpConfig get write p
      | stateRunning \<Rightarrow> dumpConfig get write p
      | _ \<Rightarrow> (Some (Err ''proxy must be running to dump config''), None, p))"

definition Ready :: "(string \<Rightarrow> http_response result) \<Rightarrow> Proxy \<Rightarrow> bool \<times> go_error option \<times> Proxy" where
  "Ready get p =
     (if getState p \<in> {stateExited, stateStopped, stateDraining} then (False, None, p)
      else
        (let url = admin_url p ''/ready''; p' = p\<lparr>requests := requests p @ [GET url]\<rparr> in
         case get url of
           Inl e \<Rightarrow> (False, Some e, p')
         | Inr rsp \<Rightarrow> (StatusCode rsp = 200, None, p')))"

section \<open>The life cycle as a step relation\<close>

text \<open>
  The callers of the operations, the operating system, and the waiting goroutine run
  side by side. \<open>Drain\<close> and \<open>Quit\<close> first read the state and later swap it: a caller
  whose swap comes too late changes nothing but still sends its request, which is the
  \<open>late\<close> step.
\<close>

datatype plabel =
    LRun "go_error option" | LDrain | LQuit | LKill "go_error option" | LDump | LReady
  | LDies | LReap "go_error option" | LReceive "go_error option" | LLate string

inductive pstep :: "Proxy \<Rightarrow> plabel \<Rightarrow> Proxy \<Rightarrow> bool" where
  run: "Run start p = Ok (e, p') \<Longrightarrow> pstep p (LRun e) p'"
| drain: "pstep p LDrain (snd (Drain post p))"
| quit: "pstep p LQuit (snd (Quit post p))"
| kill: "Kill k p = Ok (e, p') \<Longrightarrow> pstep p (LKill e) p'"
| dump: "pstep p LDump (snd (snd (DumpConfig get write p)))"
| ready: "pstep p LReady (snd (snd (Ready get p)))"
| dies: "proc p = Alive \<Longrightarrow> pstep p LDies (p\<lparr>proc := Dead\<rparr>)"
| reap: "proc p = Dead \<Longrightarrow> exitedCh p = Waiting \<Longrightarrow> pstep p (LReap e) (reap e p)"
| receive: "exitedCh p = Notifying e \<Longrightarrow> pstep p (LReceive e) (p\<lparr>exitedCh := Closed\<rparr>)"
| late: "state p \<in> {stateDraining, stateStopped, stateExited} \<Longrightarrow>
     pstep p (LLate url) (p\<lparr>requests := requests p @ [POST url]\<rparr>)"

definition pstart :: "Proxy \<Rightarrow> bool" where
  "pstart p \<longleftrightarrow> (\<exists>lookPath nullLogger c. NewProxy lookPath nullLogger c = Inr p)"

fun rank :: "pstate \<Rightarrow> nat" where
  "rank stateInitial = 0"
| "rank stateRunning = 1"
| "rank stateDraining = 2"
| "rank stateStopped = 3"
| "rank stateExited = 4"

definition proxy_inv :: "Proxy \<Rightarrow> bool" where
  "proxy_inv p \<longleftrightarrow>
     (state p = stateInitial \<longleftrightarrow> cmd p = None)
     \<and> (proc p = NoProcess \<longleftrightarrow> exitedCh p = NoWaiter)
     \<and> (cmd p = None \<longrightarrow> proc p = NoProcess)
     \<and> (exitedCh p \<noteq> NoWaiter \<and> exitedCh p \<noteq> Waiting \<longrightarrow> proc p = Dead \<and> state p \<noteq> stateRunning)
     \<and> (state p = stateExited \<longrightarrow> exitedCh p \<noteq> NoWaiter \<and> exitedCh p \<noteq> Waiting)"


section \<open>The manager's interface\<close>

text \<open>
  The \<open>ProxyManager\<close> contract the lifecycle manager relies on: draining and
  quitting advance the state and nothing else does, whatever the endpoint answers.
\<close>

locale proxy_manager =
  fixes drain quit :: "(string \<Rightarrow> go_error option) \<Rightarrow> 'p \<Rightarrow> go_error option \<times> 'p"
    and dump :: "(string \<Rightarrow> http_response result) \<Rightarrow> go_error option \<Rightarrow> 'p \<Rightarrow> go_error option \<times> string option \<times> 'p"
    and ready :: "(string \<Rightarrow> http_response result) \<Rightarrow> 'p \<Rightarrow> bool \<times> go_error option \<times> 'p"
    and phase :: "'p \<Rightarrow> pstate"
  assumes drain_phase: "phase (snd (drain post p)) = (if phase p = stateRunning then stateDraining else phase p)"
    and quit_phase: "phase (snd (quit post p)) =
      (if phase p = stateRunning \<or> phase p = stateDraining then stateStopped else phase p)"
    and dump_phase: "phase (snd (snd (dump get w p))) = phase p"
    and ready_phase: "phase (snd (snd (ready get p))) = phase p"
    and ready_serving: "fst (ready get p) \<Longrightarrow> phase p = stateRunning \<or> phase p = stateInitial"
begin

text \<open>A shutdown sequence stops a proxy that was running or draining, and only such a one.\<close>

lemma shutdown_phase:
  "phase (snd (quit pq (snd (drain pd (snd (snd (dump get w p))))))) =
     (if phase p = stateRunning \<or> phase p = stateDraining then stateStopped else phase p)"
  by (simp add: quit_phase drain_phase dump_phase)

lemma quit_twice: "phase (snd (quit post (snd (quit post' p)))) = phase (snd (quit post' p))"
  by (simp add: quit_phase)

lemma not_ready_after_quit:
  "phase p = stateRunning \<or> phase p = stateDraining \<Longrightarrow> \<not> fst (ready get (snd (quit post p)))"
  using ready_serving [of get "snd (quit post p)"] by (auto simp: quit_phase)

end

lemmas proxy_op_defs = Drain_def Quit_def DumpConfig_def dumpConfig_def Ready_def do_post_def
  getState_def transitionState_def

lemma Ready_serving: "fst (Ready get p) \<Longrightarrow> state p = stateRunning \<or> state p = stateInitial"
  by (cases "state p") (simp_all add: Ready_def getState_def)

lemma op_phases:
  "state (snd (Drain post p)) = (if state p = stateRunning then stateDraining else state p)"
  "state (snd (Quit post p)) = (if state p = stateRunning \<or> state p = stateDraining then stateStopped else state p)"
  "state (snd (snd (DumpConfig get w p))) = state p"
  "state (snd (snd (Ready get p))) = state p"
  by (simp_all add: proxy_op_defs Let_def split: pstate.split sum.split)

interpretation envoy: proxy_manager Drain Quit DumpConfig Ready state
  by unfold_locales (simp_all add: op_phases Ready_serving)

section \<open>Steps\<close>

lemma Run_Ok:
  "Run start p = Ok (e, p') \<Longrightarrow>
   (state p \<noteq> stateInitial \<and> e = Some (Err ''proxy may only be run once'') \<and> p' = p)
   \<or> (state p = stateInitial \<and> state p' = stateRunning \<and> cmd p' \<noteq> None \<and>
      (if e = None then proc p' = Alive \<and> exitedCh p' = Waiting else proc p' = proc p \<and> exitedCh p' = exitedCh p))"
  by (cases "state p = stateInitial")
     (auto simp: Run_def transitionState_def go_simps Let_def split: prod.splits option.splits)

lemma Kill_Ok:
  "Kill k p = Ok (e, p') \<Longrightarrow>
   p' = p \<or> (cmd p \<noteq> None \<and> proc p \<noteq> NoProcess \<and> exitedCh p = Waiting \<and> p' = p\<lparr>proc := Dead\<rparr>)"
  by (auto simp: Kill_def kill_process_def getState_def split: pstate.splits if_splits option.splits)

text \<open>The operations that only send requests keep the command and the process.\<close>

lemma do_post_frame [simp]:
  "cmd (snd (do_post post url p)) = cmd p" "proc (snd (do_post post url p)) = proc p"
  "exitedCh (snd (do_post post url p)) = exitedCh p" "state (snd (do_post post url p)) = state p"
  by (simp_all add: do_post_def)

lemma transition_frame [simp]:
  "cmd (snd (transitionState b a p)) = cmd p" "proc (snd (transitionState b a p)) = proc p"
  "exitedCh (snd (transitionState b a p)) = exitedCh p"
  by (simp_all add: transitionState_def)

lemma Drain_frame [simp]:
  "cmd (snd (Drain post p)) = cmd p" "proc (snd (Drain post p)) = proc p" "exitedCh (snd (Drain post p)) = exitedCh p"
  by (simp_all add: Drain_def Let_def split: pstate.split)

lemma Quit_frame [simp]:
  "cmd (snd (Quit post p)) = cmd p" "proc (snd (Quit post p)) = proc p" "exitedCh (snd (Quit post p)) = exitedCh p"
  by (simp_all add: Quit_def Let_def split: pstate.split)

lemma dumpConfig_frame [simp]:
  "cmd (snd (snd (dumpConfig get w p))) = cmd p" "proc (snd (snd (dumpConfig get w p))) = proc p"
  "exitedCh (snd (snd (dumpConfig get w p))) = exitedCh p"
  by (simp_all add: dumpConfig_def Let_def split: sum.split)

lemma DumpConfig_frame [simp]:
  "cmd (snd (snd (DumpConfig get w p))) = cmd p" "proc (snd (snd (DumpConfig get w p))) = proc p"
  "exitedCh (snd (snd (DumpConfig get w p))) = exitedCh p"
  by (simp_all add: DumpConfig_def split: pstate.split)

lemma Ready_frame [simp]:
  "cmd (snd (snd (Ready get p))) = cmd p" "proc (snd (snd (Ready get p))) = proc p"
  "exitedCh (snd (snd (Ready get p))) = exitedCh p"
  by (simp_all add: Ready_def Let_def split: sum.split)

lemmas phase_simps = envoy.drain_phase envoy.quit_phase envoy.dump_phase envoy.ready_phase

lemma NewProxy_Inr:
  assumes "NewProxy lookPath nullLogger c = Inr p"
  shows "state p = stateInitial \<and> cmd p = None \<and> proc p = NoProcess \<and> exitedCh p = NoWaiter \<and> requests p = []"
proof -
  obtain path where "(if pc_ExecutablePath c = [] then lookPath else Inr (pc_ExecutablePath c)) = Inr path"
    using assms unfolding NewProxy_def by (auto split: sum.split_asm)
  then show ?thesis
    using assms unfolding NewProxy_def by (auto simp: Let_def split: if_split_asm)
qed

lemma pstart_inv: "pstart p \<Longrightarrow> proxy_inv p"
  by (auto simp: pstart_def proxy_inv_def dest!: NewProxy_Inr)

lemma pstep_inv: "pstep p l p' \<Longrightarrow> proxy_inv p \<Longrightarrow> proxy_inv p'"
proof (induction rule: pstep.induct)
  case (run start p e p')
  then show ?case
    using Run_Ok [OF run.hyps] by (cases e) (auto simp: proxy_inv_def)
next
  case (kill k p e p')
  then show ?case
    using Kill_Ok [OF kill.hyps] by (auto simp: proxy_inv_def)
qed (auto simp: proxy_inv_def phase_simps reap_def transitionState_def split: if_splits)

lemma pstep_rank: "pstep p l p' \<Longrightarrow> rank (state p) \<le> rank (state p')"
proof (induction rule: pstep.induct)
  case (run start p e p')
  then show ?case using Run_Ok [OF run.hyps] by auto
next
  case (kill k p e p')
  then show ?case using Kill_Ok [OF kill.hyps] by auto
qed (auto simp: phase_simps reap_def transitionState_def)

interpretation envoy_inv: invariant_system pstart pstep proxy_inv
  by unfold_locales (auto intro: pstart_inv pstep_inv)

interpretation envoy_rank: monotone_system pstep "\<lambda>p. rank (state p)"
  by unfold_locales (rule pstep_rank)

text \<open>Draining and stopped proxies never count as exited.\<close>

lemma pstep_no_late_exit:
  "pstep p l p' \<Longrightarrow> state p = stateDraining \<or> state p = stateStopped \<Longrightarrow>
   state p' = stateDraining \<or> state p' = stateStopped"
proof (induction rule: pstep.induct)
  case (run start p e p')
  then show ?case using Run_Ok [OF run.hyps] by auto
next
  case (kill k p e p')
  then show ?case using Kill_Ok [OF kill.hyps] by auto
qed (auto simp: phase_simps reap_def transitionState_def)

lemma steps_no_late_exit:
  "steps pstep p ls p' \<Longrightarrow> state p = stateDraining \<or> state p = stateStopped \<Longrightarrow>
   state p' = stateDraining \<or> state p' = stateStopped"
  by (induction rule: steps.induct) (auto dest: pstep_no_late_exit)

text \<open>Counting: a step that starts a process leaves the initial state, which no step re-enters.\<close>

lemma steps_running_no_start:
  "steps pstep p ls p' \<Longrightarrow> state p \<noteq> stateInitial \<Longrightarrow> LRun None \<notin> set ls"
proof (induction rule: steps.induct)
  case (steps_Cons p l q ls r)
  have "state q \<noteq> stateInitial"
    using pstep_rank [OF steps_Cons.hyps(1)] steps_Cons.prems by (cases "state p"; cases "state q") auto
  moreover have "l \<noteq> LRun None"
  proof
    assume "l = LRun None"
    with steps_Cons.hyps(1) obtain start where "Run start p = Ok (None, q)"
      by (auto elim: pstep.cases)
    with steps_Cons.prems show False by (auto dest: Run_Ok)
  qed
  ultimately show ?case using steps_Cons.IH by simp
qed simp

lemma closed_forever:
  "steps pstep p ls p' \<Longrightarrow> proxy_inv p \<Longrightarrow> exitedCh p = Closed \<Longrightarrow> LReceive e \<notin> set ls \<and> exitedCh p' = Closed"
proof (induction rule: steps.induct)
  case (steps_Cons p l q ls r)
  have "state p \<noteq> stateInitial"
    using steps_Cons.prems by (auto simp: proxy_inv_def)
  with steps_Cons.hyps(1) steps_Cons.prems have "exitedCh q = Closed \<and> l \<noteq> LReceive e"
    by (auto elim!: pstep.cases dest: Run_Ok Kill_Ok)
  moreover have "proxy_inv q"
    using steps_Cons.hyps(1) steps_Cons.prems(1) by (rule pstep_inv)
  ultimately show ?case using steps_Cons.IH by auto
qed simp

section \<open>Properties\<close>

text \<open>Concrete values for the witnesses below.\<close>

definition sample_logger :: logger where
  "sample_logger = \<lparr>IsTrace = False, IsDebug = False, IsInfo = True, IsWarn = True, IsError = True\<rparr>"

definition sample_config :: ProxyConfig where
  "sample_config = \<lparr>pc_ExecutablePath = ''/envoy'', pc_AdminAddr = ''127.0.0.1'', pc_AdminBindPort = 19000,
     pc_ExtraArgs = [''--base-id'', ''7'', ''--log-level'', ''debug'', ''--x''], pc_Logger = Some sample_logger, pc_LogJSON = False,
     pc_EnvoyErrorStream = None, pc_EnvoyOutputStream = None, pc_BootstrapConfig = ''{}''\<rparr>"

definition sample_proxy :: Proxy where
  "sample_proxy = \<lparr>cfg = sample_config\<lparr>pc_EnvoyOutputStream := Some Stdout, pc_EnvoyErrorStream := Some Stderr\<rparr>,
     state = stateInitial, cmd = None, proc = NoProcess, exitedCh = NoWaiter, requests = []\<rparr>"

lemma sample_start: "pstart sample_proxy"
  unfolding pstart_def
  by (intro exI [of _ "Inl (Err ''not found'')"] exI [of _ sample_logger] exI [of _ sample_config])
     (simp add: NewProxy_def sample_proxy_def sample_config_def or_else_def)

definition running_proxy :: Proxy where
  "running_proxy = (case Run (\<lambda>_. None) sample_proxy of Ok (e, p) \<Rightarrow> p | _ \<Rightarrow> sample_proxy)"

lemma running_step: "pstep sample_proxy (LRun None) running_proxy"
  by (rule pstep.run [of "\<lambda>_. None"])
     (simp add: running_proxy_def Run_def transitionState_def sample_proxy_def sample_config_def buildCommand_def
        removeArgAndGetValue_def Let_def)

lemma running_state:
  "state running_proxy = stateRunning" "proc running_proxy = Alive" "exitedCh running_proxy = Waiting"
  using running_step by (auto elim!: pstep.cases dest!: Run_Ok simp: sample_proxy_def)

lemma running_reach: "reach pstart pstep running_proxy"
  by (rule reach_step [where s = sample_proxy and a = "LRun None"])
     (rule reach_start, rule sample_start, rule running_step)

section \<open>The life of the process\<close>

text \<open>
  What the manager's state machine implements, seen from outside: a process that is started, dies, is waited for,
  and whose exit is told to the receiver, each once and in this order. Draining and quitting are
  only requests to it.
\<close>

datatype life = Unborn | Up | Down | Waited "go_error option" | Reported
datatype life_event = Born | Died | Reaped "go_error option" | Told "go_error option"

inductive life_step :: "life \<Rightarrow> life_event \<Rightarrow> life \<Rightarrow> bool" where
  born: "life_step Unborn Born Up"
| died: "life_step Up Died Down"
| reaped: "life_step Down (Reaped e) (Waited e)"
| told: "life_step (Waited e) (Told e) Reported"

inductive_simps life_step_simps [simp]:
  "life_step Unborn b l" "life_step Up b l" "life_step Down b l" "life_step (Waited e) b l" "life_step Reported b l"

definition life_of :: "Proxy \<Rightarrow> life" where
  "life_of p =
     (case exitedCh p of
        NoWaiter \<Rightarrow> Unborn
      | Waiting \<Rightarrow> (if proc p = Alive then Up else Down)
      | Notifying e \<Rightarrow> Waited e
      | Closed \<Rightarrow> Reported)"

text \<open>The events that a step of the manager may show.\<close>

fun shows_life :: "plabel \<Rightarrow> life_event list \<Rightarrow> bool" where
  "shows_life (LRun e) bs \<longleftrightarrow> bs = (if e = None then [Born] else [])"
| "shows_life (LKill e) bs \<longleftrightarrow> bs = [] \<or> e = None \<and> bs = [Died]"
| "shows_life LDies bs \<longleftrightarrow> bs = [Died]"
| "shows_life (LReap e) bs \<longleftrightarrow> bs = [Reaped e]"
| "shows_life (LReceive e) bs \<longleftrightarrow> bs = [Told e]"
| "shows_life _ bs \<longleftrightarrow> bs = []"

lemma life_of_frame: "proc p' = proc p \<Longrightarrow> exitedCh p' = exitedCh p \<Longrightarrow> life_of p' = life_of p"
  by (simp add: life_of_def)

lemma Kill_life:
  assumes "Kill k p = Ok (e, p')" and "proxy_inv p"
  shows "life_of p' = life_of p \<or> e = None \<and> life_of p = Up \<and> life_of p' = Down"
  using assms
  by (auto simp: Kill_def kill_process_def getState_def life_of_def proxy_inv_def split: pstate.split_asm if_split_asm option.split_asm waiter.split)

lemma pstep_life:
  assumes "proxy_inv p" and "pstep p b p'"
  shows "\<exists>bs. shows_life b bs \<and> steps life_step (life_of p) bs (life_of p')"
  using assms(2)
proof cases
  case (run st e)
  then show ?thesis using Run_Ok [of st p e p'] assms(1) by (cases e) (auto simp: steps_Cons_iff life_of_def proxy_inv_def)
next
  case (kill k e)
  then show ?thesis using Kill_life [of k p e p'] assms(1)
    by (auto simp: steps_Cons_iff intro: exI [of _ "[]"] exI [of _ "[Died]"])
qed (use assms(1) in \<open>auto simp: steps_Cons_iff life_of_def proxy_inv_def reap_def transitionState_def split: waiter.split\<close>)

lemma pstart_unborn: "pstart p \<Longrightarrow> life_of p = Unborn"
  by (auto simp: pstart_def life_of_def dest!: NewProxy_Inr)

interpretation envoy_life: simulation pstart pstep proxy_inv "\<lambda>l. l = Unborn" life_step life_of shows_life
  by unfold_locales (auto simp: pstart_unborn intro: pstep_life)

text \<open>The events that can follow in a life; \<open>e\<close> is the error the process will end with.\<close>

fun remaining :: "life \<Rightarrow> go_error option \<Rightarrow> life_event list" where
  "remaining Unborn e = [Born, Died, Reaped e, Told e]"
| "remaining Up e = [Died, Reaped e, Told e]"
| "remaining Down e = [Reaped e, Told e]"
| "remaining (Waited w) e = [Told w]"
| "remaining Reported e = []"

lemma life_step_remaining: "life_step l b l' \<Longrightarrow> \<exists>e'. remaining l e' = b # remaining l' e"
  by (induction rule: life_step.induct) auto

lemma life_step_remaining_same: "life_step l b l' \<Longrightarrow> bs = take k (remaining l' e) \<Longrightarrow> \<exists>k e'. b # bs = take k (remaining l e')"
  by (metis life_step_remaining take_Suc_Cons)

lemma life_runs: "steps life_step l bs l' \<Longrightarrow> \<exists>k e. bs = take k (remaining l e)"
proof (induction rule: steps.induct)
  case (steps_Nil l)
  then show ?case by (intro exI [of _ 0]) simp
qed (blast intro: life_step_remaining_same)



text \<open>The life cycle only moves forward. In every run of the manager, its callers, the
  process and the waiting goroutine, the state advances along initial, running, draining,
  stopped; a proxy that was drained or stopped is never marked exited afterwards, even when
  its process dies, and an exited proxy stays exited.\<close>

lemma lifecycle_moves_forward:
  assumes "reach pstart pstep p" and "steps pstep p ls q"
  shows "rank (state p) \<le> rank (state q)
    \<and> (state q = stateExited \<longrightarrow> state p \<notin> {stateDraining, stateStopped})
    \<and> (state p = stateExited \<longrightarrow> state q = stateExited \<and> proc q = Dead)"
proof -
  have rank: "rank (state p) \<le> rank (state q)"
    using assms(2) by (rule envoy_rank.steps_rank)
  moreover have "state p \<notin> {stateDraining, stateStopped}" if "state q = stateExited"
    using that steps_no_late_exit [OF assms(2)] by auto
  moreover have "state q = stateExited" if "state p = stateExited"
    using rank that by (cases "state q") auto
  moreover have "proc q = Dead" if "state q = stateExited"
    using that envoy_inv.steps_inv [OF assms(2) envoy_inv.reach_inv [OF assms(1)]]
    by (auto simp: proxy_inv_def)
  ultimately show ?thesis by blast
qed

text \<open>Envoy is started at most once. Along any run of a new proxy at most one call of
  \<open>Run\<close> starts a process; every later call returns an error and changes nothing.\<close>

lemma started_at_most_once:
  assumes "pstart p" and "steps pstep p ls q"
  shows "count_list ls (LRun None) \<le> 1
    \<and> (state q \<noteq> stateInitial \<longrightarrow> Run start q = Ok (Some (Err ''proxy may only be run once''), q))"
proof
  show "count_list ls (LRun None) \<le> 1"
    using assms(2)
  proof (induction rule: steps.induct)
    case (steps_Cons p l q ls r)
    show ?case
    proof (cases "l = LRun None")
      case True
      then obtain start where "Run start p = Ok (None, q)"
        using steps_Cons.hyps(1) by (auto elim: pstep.cases)
      then have "state q \<noteq> stateInitial" by (auto dest: Run_Ok)
      with steps_Cons.hyps(2) have "LRun None \<notin> set ls"
        by (rule steps_running_no_start)
      with True show ?thesis by (simp add: count_list_0_iff)
    next
      case False
      with steps_Cons.IH show ?thesis by simp
    qed
  qed simp
  show "state q \<noteq> stateInitial \<longrightarrow> Run start q = Ok (Some (Err ''proxy may only be run once''), q)"
    by (simp add: Run_def transitionState_def)
qed

text \<open>The exit of the process is reported once: a value is received from the exit
  channel only after the process is dead, and then the proxy is no longer in the running
  state; after it nothing is received again.\<close>

lemma exit_reported_once:
  assumes "reach pstart pstep p" and "pstep p (LReceive e) q" and "steps pstep q ls r"
  shows "proc p = Dead \<and> state p \<noteq> stateRunning \<and> exitedCh r = Closed \<and> LReceive e' \<notin> set ls"
proof -
  have inv: "proxy_inv p" by (rule envoy_inv.reach_inv [OF assms(1)])
  from assms(2) have q: "exitedCh p = Notifying e" "exitedCh q = Closed"
    by (auto elim: pstep.cases)
  have "proxy_inv q" using assms(2) inv by (rule pstep_inv)
  from closed_forever [OF assms(3) this q(2)] q(1) inv show ?thesis
    by (auto simp: proxy_inv_def)
qed



text \<open>One caller that drains and quits in any order.\<close>

datatype pcall = CDrain | CQuit

fun call_proxy :: "(string \<Rightarrow> go_error option) \<Rightarrow> pcall \<Rightarrow> Proxy \<Rightarrow> Proxy" where
  "call_proxy post CDrain p = snd (Drain post p)"
| "call_proxy post CQuit p = snd (Quit post p)"

lemma call_proxy_cfg: "cfg (call_proxy post c p) = cfg p"
  by (cases c; cases "state p") (simp_all add: Drain_def Quit_def getState_def do_post_def transitionState_def Let_def)

lemma call_proxy_cases:
  "(state (call_proxy post c p), requests (call_proxy post c p)) =
     (if c = CDrain \<and> state p = stateRunning
      then (stateDraining, requests p @ [POST (admin_url p ''/drain_listeners?inboundonly&graceful&skip_exit'')])
      else if c = CQuit \<and> (state p = stateRunning \<or> state p = stateDraining)
      then (stateStopped, requests p @ [POST (admin_url p ''/quitquitquit'')])
      else (state p, requests p))"
  by (cases c; cases "state p") (simp_all add: Drain_def Quit_def getState_def do_post_def transitionState_def Let_def)

text \<open>What the admin endpoint sees. However often and in whatever order one caller
  drains and quits a running proxy, Envoy receives at most one drain request and at most
  one quit request, the drain request never after the quit request.\<close>

lemma requests_at_most_once:
  assumes "state p = stateRunning" and "requests p = []"
  shows "requests (fold (call_proxy post) cs p) \<in>
    {[], [POST (admin_url p ''/drain_listeners?inboundonly&graceful&skip_exit'')], [POST (admin_url p ''/quitquitquit'')],
     [POST (admin_url p ''/drain_listeners?inboundonly&graceful&skip_exit''), POST (admin_url p ''/quitquitquit'')]}"
proof -
  let ?d = "POST (admin_url p ''/drain_listeners?inboundonly&graceful&skip_exit'')"
  let ?q = "POST (admin_url p ''/quitquitquit'')"
  let ?I = "\<lambda>x. cfg x = cfg p \<and> (state x, requests x) \<in>
      {(stateRunning, []), (stateDraining, [?d]), (stateStopped, [?q]), (stateStopped, [?d, ?q])}"
  have url: "admin_url x u = admin_url p u" if "cfg x = cfg p" for x u
    using that by (simp add: admin_url_def)
  have step: "?I (call_proxy post c x)" if "?I x" for c x
    using that call_proxy_cases [of post c x] call_proxy_cfg [of post c x] url [of x]
    by (cases c) auto
  have "?I (fold (call_proxy post) cs x)" if "?I x" for x
    using that
  proof (induction cs arbitrary: x)
    case (Cons c cs)
    from step [OF Cons.prems] show ?case
      unfolding fold_Cons comp_apply by (rule Cons.IH)
  qed simp
  from this [of p] assms show ?thesis by auto
qed

text \<open>C19: The command line. With \<open>--log-level v\<close> among the extra arguments, Envoy gets the
  fixed arguments with exactly that level and then the other extra arguments in order;
  the caller's own slice of extra arguments is overwritten: it now holds the remaining
  arguments followed by its last two elements once more.\<close>

theorem command_line_log_level:
  assumes "pc_Logger c = Some l" and "pc_ExtraArgs c = pre @ ''--log-level'' # v # post"
    and "''--log-level'' \<notin> set pre" and "v \<noteq> []"
  shows "\<exists>cm c'. buildCommand y c = Ok (cm, c')
    \<and> cmd_Args cm = [''--config-yaml'', y, ''--log-format'', if pc_LogJSON c then logFormatJSON else logFormatPlain,
         ''--log-level'', v, ''--disable-hot-restart''] @ pre @ post
    \<and> cmd_Path cm = pc_ExecutablePath c
    \<and> pc_ExtraArgs c' = pre @ post @ drop (length pre + length post) (pre @ ''--log-level'' # v # post)"
proof -
  have "index_of (pc_ExtraArgs c) ''--log-level'' = Some (length pre)"
    unfolding index_of_Some_iff using assms(2,3) by blast
  then show ?thesis
    using assms by (simp add: buildCommand_def removeArgAndGetValue_def Let_def nth_append)
qed

theorem command_line_log_level_witness:
  "\<exists>cm c'. buildCommand ''{}'' sample_config = Ok (cm, c')
     \<and> drop 4 (cmd_Args cm) = [''--log-level'', ''debug'', ''--disable-hot-restart'', ''--base-id'', ''7'', ''--x'']
     \<and> pc_ExtraArgs c' = [''--base-id'', ''7'', ''--x'', ''debug'', ''--x'']"
  using command_line_log_level [of sample_config sample_logger "[''--base-id'', ''7'']" "''debug''" "[''--x'']" "''{}''"]
  by (auto simp: sample_config_def)

text \<open>A trailing \<open>--log-level\<close> without a value among the extra arguments makes
  building the command panic, so \<open>Run\<close> never returns an error for it.\<close>

lemma trailing_log_level_panics:
  assumes "pc_Logger (cfg p) = Some l" and "pc_ExtraArgs (cfg p) = pre @ [''--log-level'']"
    and "''--log-level'' \<notin> set pre" and "state p = stateInitial"
  shows "Run start p = Panic ''index out of range''"
proof -
  have "index_of (pc_ExtraArgs (cfg p)) ''--log-level'' = Some (length pre)"
    unfolding index_of_Some_iff using assms(2,3) by auto
  then show ?thesis
    using assms by (simp add: Run_def transitionState_def buildCommand_def removeArgAndGetValue_def)
qed

lemma trailing_log_level_panics_witness:
  "Run (\<lambda>_. None) (sample_proxy\<lparr>cfg := (cfg sample_proxy)\<lparr>pc_ExtraArgs := [''--log-level'']\<rparr>\<rparr>) = Panic ''index out of range''"
  by (rule trailing_log_level_panics [of _ sample_logger "[]"]) (simp_all add: sample_proxy_def sample_config_def)

text \<open>A failed write of the configuration dump is not reported: whatever error writing
  to the output stream gives, \<open>DumpConfig\<close> of a running or draining proxy returns the same
  nil error as when the dump was written.\<close>

lemma dump_write_error_lost:
  assumes "state p = stateRunning \<or> state p = stateDraining"
    and "get (admin_url p ''/config_dump?include_eds'') = Inr rsp" and "Body rsp = Inr config"
  shows "fst (DumpConfig get (Some e) p) = None \<and> fst (snd (DumpConfig get (Some e) p)) = None
    \<and> fst (DumpConfig get None p) = None \<and> fst (snd (DumpConfig get None p)) = Some config"
  using assms by (auto simp: DumpConfig_def dumpConfig_def getState_def)

lemma dump_write_error_lost_witness:
  "fst (DumpConfig (\<lambda>_. Inr \<lparr>StatusCode = 200, Body = Inr ''{}''\<rparr>) (Some (Err ''disk full'')) running_proxy) = None"
  using dump_write_error_lost [of running_proxy "\<lambda>_. Inr \<lparr>StatusCode = 200, Body = Inr ''{}''\<rparr>"
      "\<lparr>StatusCode = 200, Body = Inr ''{}''\<rparr>" "''{}''" "Err ''disk full''"] by (simp add: running_state)

end
