(* ===== verification/Lifecycle.thy ===== *)
theory Lifecycle
  imports Envoy_Proxy Dataplane_Config
begin

text \<open>
  The lifecycle manager, \<open>pkg/consuldp/lifecycle.go\<close>: its construction from the
  configuration, the HTTP server with its two endpoints, graceful shutdown (dump, drain,
  wait for the grace period, quit) and graceful startup (poll until ready or the grace
  period is over), and any number of concurrent shutdown requests as a step relation.

  Time is an int of nanoseconds. How long a call of the proxy takes and what Envoy answers
  are arguments.
\<close>

section \<open>Durations\<close>

text \<open>The value an int64 holds, and \<open>time.Duration(n) * time.Second\<close>.\<close>

definition int64 :: "int \<Rightarrow> int" where
  "int64 i = sint (word_of_int i :: 64 word)"

definition seconds :: "int \<Rightarrow> int" where
  "seconds n = int64 (n * 1000000000)"

definition poll_interval :: int where
  "poll_interval = 50 * 1000000"

section \<open>The manager\<close>

definition defaultLifecycleBindPort :: string where "defaultLifecycleBindPort = ''20300''"
definition cdpLifecycleBindAddr :: string where "cdpLifecycleBindAddr = ''127.0.0.1''"
definition defaultLifecycleShutdownPath :: string where "defaultLifecycleShutdownPath = ''/graceful_shutdown''"
definition defaultLifecycleStartupPath :: string where "defaultLifecycleStartupPath = ''/graceful_startup''"

datatype handler = gracefulShutdownHandler | gracefulStartupHandler

type_synonym mux = "(string \<times> handler) list"

record http_Server =
  hs_Addr :: string
  hs_Handler :: mux

record lifecycleConfig =
  shutdownDrainListenersEnabled :: bool
  shutdownGracePeriodSeconds :: int
  gracefulAddr :: string
  gracefulPort :: int
  gracefulShutdownPath :: string
  startupGracePeriodSeconds :: int
  gracefulStartupPath :: string
  dumpEnvoyConfigOnExitEnabled :: bool
  proxy :: Proxy
  lifecycleServer :: "http_Server option"
  errorExitCh_closed :: bool
  running :: bool

definition NewLifecycleConfig :: "Config \<Rightarrow> Proxy \<Rightarrow> lifecycleConfig outcome" where
  "NewLifecycleConfig c p =
     bind_outcome (deref (cfg_Envoy c)) (\<lambda>e. Ok
       \<lparr>shutdownDrainListenersEnabled = en_ShutdownDrainListenersEnabled e,
        shutdownGracePeriodSeconds = en_ShutdownGracePeriodSeconds e,
        gracefulAddr = en_GracefulAddr e, gracefulPort = en_GracefulPort e,
        gracefulShutdownPath = en_GracefulShutdownPath e,
        startupGracePeriodSeconds = en_StartupGracePeriodSeconds e,
        gracefulStartupPath = en_GracefulStartupPath e,
        dumpEnvoyConfigOnExitEnabled = en_DumpEnvoyConfigOnExitEnabled e,
        proxy = p, lifecycleServer = None, errorExitCh_closed = False, running = False\<rparr>)"

text \<open>The paths with their defaults; reading one also stores the default.\<close>

definition shutdownPath :: "lifecycleConfig \<Rightarrow> string \<times> lifecycleConfig" where
  "shutdownPath m =
     (let m' = (if gracefulShutdownPath m = [] then m\<lparr>gracefulShutdownPath := defaultLifecycleShutdownPath\<rparr> else m)
      in (gracefulShutdownPath m', m'))"

definition startupPath :: "lifecycleConfig \<Rightarrow> string \<times> lifecycleConfig" where
  "startupPath m =
     (let m' = (if gracefulStartupPath m = [] then m\<lparr>gracefulStartupPath := defaultLifecycleStartupPath\<rparr> else m)
      in (gracefulStartupPath m', m'))"

text \<open>
  \<open>mux.HandleFunc\<close> on plain paths (no method, no wildcard): a pattern without a slash is
  not accepted, and neither is one that is already registered; both panic.
\<close>

definition HandleFunc :: "string \<Rightarrow> handler \<Rightarrow> mux \<Rightarrow> mux outcome" where
  "HandleFunc pattern h x =
     (if CHR ''/'' \<notin> set pattern then Panic ''http: invalid pattern''
      else if pattern \<in> fst ` set x then Panic ''http: pattern conflicts with a registered pattern''
      else Ok (x @ [(pattern, h)]))"

definition startLifecycleManager :: "lifecycleConfig \<Rightarrow> lifecycleConfig outcome" where
  "startLifecycleManager m =
     (if running m then Ok m
      else
        (let (sp, m1) = shutdownPath (m\<lparr>running := True\<rparr>); (up, m2) = startupPath m1 in
         bind_outcome (HandleFunc sp gracefulShutdownHandler []) (\<lambda>x1.
         bind_outcome (HandleFunc up gracefulStartupHandler x1) (\<lambda>x2.
           let addr = (if gracefulAddr m2 \<noteq> [] then gracefulAddr m2 else cdpLifecycleBindAddr);
               port = (if gracefulPort m2 \<noteq> 0 then Itoa (gracefulPort m2) else defaultLifecycleBindPort)
           in Ok (m2\<lparr>lifecycleServer := Some \<lparr>hs_Addr = JoinHostPort addr port, hs_Handler = x2\<rparr>\<rparr>)))))"

text \<open>Closing a channel twice panics.\<close>

definition close_errorExitCh :: "lifecycleConfig \<Rightarrow> lifecycleConfig outcome" where
  "close_errorExitCh m =
     (if errorExitCh_closed m then Panic ''close of closed channel'' else Ok (m\<lparr>errorExitCh_closed := True\<rparr>))"

definition ErrServerClosed :: go_error where "ErrServerClosed = Err ''http: Server closed''"

text \<open>\<open>served\<close> is the error \<open>ListenAndServe\<close> returned.\<close>

definition startLifecycleServer :: "go_error option \<Rightarrow> lifecycleConfig \<Rightarrow> lifecycleConfig outcome" where
  "startLifecycleServer served m =
     (if served \<noteq> None \<and> served \<noteq> Some ErrServerClosed then close_errorExitCh m else Ok m)"

definition stopLifecycleServer :: "go_error option \<Rightarrow> lifecycleConfig \<Rightarrow> lifecycleConfig outcome" where
  "stopLifecycleServer closed m =
     (let m' = m\<lparr>running := False\<rparr> in
      if lifecycleServer m' \<noteq> None \<and> closed \<noteq> None then close_errorExitCh m' else Ok m')"

definition lifecycleServerExited :: "lifecycleConfig \<Rightarrow> bool" where
  "lifecycleServerExited m = errorExitCh_closed m"

section \<open>Graceful shutdown\<close>

text \<open>What the calls of the proxy answer and how long they take.\<close>

record shutdown_env =
  se_get :: "string \<Rightarrow> http_response result"
  se_write :: "go_error option"
  se_post :: "string \<Rightarrow> go_error option"
  se_dump_takes :: nat
  se_drain_takes :: nat
  se_quit_takes :: nat

datatype event = EvDump int | EvDrain int | EvQuit int | EvReturn int

text \<open>The events with their times, and the manager when the call returns.\<close>

definition gracefulShutdown :: "shutdown_env \<Rightarrow> int \<Rightarrow> lifecycleConfig \<Rightarrow> event list \<times> lifecycleConfig" where
  "gracefulShutdown env now m =
     (let timeout = seconds (shutdownGracePeriodSeconds m);
          deadline = now + timeout;
          (ev1, t1, p1) =
            (if dumpEnvoyConfigOnExitEnabled m
             then ([EvDump now], now + int (se_dump_takes env), snd (snd (DumpConfig (se_get env) (se_write env) (proxy m))))
             else ([], now, proxy m));
          (ev2, t2, p2) =
            (if shutdownDrainListenersEnabled m
             then ([EvDrain t1], t1 + int (se_drain_takes env), snd (Drain (se_post env) p1))
             else ([], t1, p1));
          t3 = max t2 deadline;
          p3 = snd (Quit (se_post env) p2);
          t4 = t3 + int (se_quit_takes env)
      in (ev1 @ ev2 @ [EvQuit t3, EvReturn t4], m\<lparr>proxy := p3\<rparr>))"

section \<open>Graceful startup\<close>

text \<open>
  The polling goroutine: the time at which a call of \<open>Ready\<close> that reported true
  returned, if one did before the context was found done.
\<close>

function poll_ready :: "(int \<Rightarrow> string \<Rightarrow> http_response result) \<Rightarrow> (int \<Rightarrow> nat) \<Rightarrow> int \<Rightarrow> int \<Rightarrow> Proxy \<Rightarrow> int option \<times> Proxy" where
  "poll_ready get takes deadline t p =
     (if t \<ge> deadline then (None, p)
      else
        (let (r, err, p') = Ready (get t) p; t' = t + int (takes t) in
         if r then (Some t', p')
         else poll_ready get takes deadline (t' + poll_interval) p'))"
  by pat_completeness auto
termination
  by (relation "measure (\<lambda>(get, takes, deadline, t, p). nat (deadline - t))") (auto simp: poll_interval_def)

declare poll_ready.simps [simp del]

text \<open>
  The time at which \<open>gracefulStartup\<close> returns, whether it saw the proxy ready, and the
  proxy after the polling goroutine has ended.
\<close>

definition gracefulStartup :: "(int \<Rightarrow> string \<Rightarrow> http_response result) \<Rightarrow> (int \<Rightarrow> nat) \<Rightarrow> int \<Rightarrow> lifecycleConfig
    \<Rightarrow> int \<times> bool \<times> lifecycleConfig" where
  "gracefulStartup get takes now m =
     (if startupGracePeriodSeconds m = 0 then (now, False, m)
      else
        (let deadline = now + seconds (startupGracePeriodSeconds m) in
         case poll_ready get takes deadline now (proxy m) of
           (Some t, p) \<Rightarrow> (min t deadline, t < deadline, m\<lparr>proxy := p\<rparr>)
         | (None, p) \<Rightarrow> (max now deadline, False, m\<lparr>proxy := p\<rparr>)))"

section \<open>Concurrent shutdown requests\<close>

text \<open>
  Every request to the shutdown endpoint, and the signal handler, starts a goroutine of
  its own. A goroutine is its request time and where it is.
\<close>

datatype sd_pc = SdDump | SdDrain | SdWait | SdDone

record lsys =
  clock :: int
  mgr :: lifecycleConfig
  shutdowns :: "(int \<times> sd_pc) list"

datatype llabel = LRequest | LTick nat | LDumped nat | LDrained nat | LQuitted nat

inductive lstep :: "lsys \<Rightarrow> llabel \<Rightarrow> lsys \<Rightarrow> bool" where
  request: "lstep s LRequest (s\<lparr>shutdowns := shutdowns s @ [(clock s, SdDump)]\<rparr>)"
| tick: "lstep s (LTick d) (s\<lparr>clock := clock s + int d\<rparr>)"
| dumped: "i < length (shutdowns s) \<Longrightarrow> shutdowns s ! i = (t, SdDump) \<Longrightarrow>
     p = (if dumpEnvoyConfigOnExitEnabled (mgr s) then snd (snd (DumpConfig get write (proxy (mgr s)))) else proxy (mgr s)) \<Longrightarrow>
     lstep s (LDumped i) (s\<lparr>shutdowns := (shutdowns s)[i := (t, SdDrain)], mgr := (mgr s)\<lparr>proxy := p\<rparr>\<rparr>)"
| drained: "i < length (shutdowns s) \<Longrightarrow> shutdowns s ! i = (t, SdDrain) \<Longrightarrow>
     p = (if shutdownDrainListenersEnabled (mgr s) then snd (Drain post (proxy (mgr s))) else proxy (mgr s)) \<Longrightarrow>
     lstep s (LDrained i) (s\<lparr>shutdowns := (shutdowns s)[i := (t, SdWait)], mgr := (mgr s)\<lparr>proxy := p\<rparr>\<rparr>)"
| quitted: "i < length (shutdowns s) \<Longrightarrow> shutdowns s ! i = (t, SdWait) \<Longrightarrow>
     t + seconds (shutdownGracePeriodSeconds (mgr s)) \<le> clock s \<Longrightarrow>
     lstep s (LQuitted i) (s\<lparr>shutdowns := (shutdowns s)[i := (t, SdDone)],
       mgr := (mgr s)\<lparr>proxy := snd (Quit post (proxy (mgr s)))\<rparr>\<rparr>)"

text \<open>
  The handlers: a request for a shutdown is answered at once, its goroutine is the \<open>request\<close> step; one for a startup is answered when
  \<open>gracefulStartup\<close> has returned. And the dispatch of the server on the path, with the status of the answer.
\<close>

definition serve_shutdown :: "lsys \<Rightarrow> int \<times> lsys" where
  "serve_shutdown s = (200, s\<lparr>shutdowns := shutdowns s @ [(clock s, SdDump)]\<rparr>)"

definition serve_startup :: "(int \<Rightarrow> string \<Rightarrow> http_response result) \<Rightarrow> (int \<Rightarrow> nat) \<Rightarrow> lsys \<Rightarrow> int \<times> lsys" where
  "serve_startup get takes s =
     (case gracefulStartup get takes (clock s) (mgr s) of (t, _, m) \<Rightarrow> (200, s\<lparr>clock := t, mgr := m\<rparr>))"

definition ServeHTTP :: "http_Server \<Rightarrow> (int \<Rightarrow> string \<Rightarrow> http_response result) \<Rightarrow> (int \<Rightarrow> nat) \<Rightarrow> string \<Rightarrow> lsys \<Rightarrow> int \<times> lsys" where
  "ServeHTTP srv get takes path s =
     (case map_of (hs_Handler srv) path of
        Some gracefulShutdownHandler \<Rightarrow> serve_shutdown s
      | Some gracefulStartupHandler \<Rightarrow> serve_startup get takes s
      | None \<Rightarrow> (404, s))"

lemma serve_shutdown_requests: "lstep s LRequest (snd (serve_shutdown s))"
  by (simp add: serve_shutdown_def lstep.request)

text \<open>A manager with a running proxy and no request yet.\<close>

definition lstart :: "lsys \<Rightarrow> bool" where
  "lstart s \<longleftrightarrow> shutdowns s = [] \<and> state (proxy (mgr s)) = stateRunning"

text \<open>Somebody has waited for the whole grace period.\<close>

definition waited :: "lsys \<Rightarrow> bool" where
  "waited s \<longleftrightarrow> (\<exists>(t, pc) \<in> set (shutdowns s). pc = SdDone \<and> t + seconds (shutdownGracePeriodSeconds (mgr s)) \<le> clock s)"

definition linv :: "lsys \<Rightarrow> bool" where
  "linv s \<longleftrightarrow>
     (if waited s then state (proxy (mgr s)) = stateStopped
      else state (proxy (mgr s)) = stateRunning
           \<or> (state (proxy (mgr s)) = stateDraining \<and> shutdownDrainListenersEnabled (mgr s)))
     \<and> (\<forall>(t, pc) \<in> set (shutdowns s). t \<le> clock s
          \<and> (pc = SdDone \<longrightarrow> t + seconds (shutdownGracePeriodSeconds (mgr s)) \<le> clock s))"

section \<open>Lemmas\<close>

lemma int64_eq: "int64 i = signed_take_bit 63 i"
proof -
  have "signed_take_bit 63 (take_bit 64 i) = signed_take_bit 63 i"
    by (simp add: signed_take_bit_take_bit)
  then show ?thesis
    by (simp add: int64_def sint_uint unsigned_of_int)
qed

lemma seconds_exact:
  assumes "- 9223372036 \<le> n" "n \<le> 9223372036"
  shows "seconds n = n * 1000000000"
proof -
  have "signed_take_bit 63 (n * 1000000000) = n * 1000000000"
    by (rule signed_take_bit_int_eq_self) (use assms in simp_all)
  then show ?thesis unfolding seconds_def int64_eq .
qed

lemma seconds_overflow: "seconds 9223372037 = - 9223372036709551616"
  by (simp add: seconds_def int64_eq signed_take_bit_eq_take_bit_shift take_bit_eq_mod)

text \<open>What the steps of the shutdown goroutines do to the proxy's state.\<close>

lemma shutdown_op_phases:
  "state (if b then snd (snd (DumpConfig get w p)) else p) = state p"
  "state (if b then snd (Drain post p) else p) = (if b \<and> state p = stateRunning then stateDraining else state p)"
  by (simp_all add: phase_simps)

lemma linv_start: "lstart s \<Longrightarrow> linv s"
  by (simp add: lstart_def linv_def waited_def)

lemma waited_update_not_done:
  assumes "i < length xs" and "xs ! i = (t, pc)" and "pc \<noteq> SdDone" and "pc' \<noteq> SdDone"
  shows "(t', SdDone) \<in> set (xs[i := (t, pc')]) \<longleftrightarrow> (t', SdDone) \<in> set xs"
proof
  assume "(t', SdDone) \<in> set (xs[i := (t, pc')])"
  then show "(t', SdDone) \<in> set xs"
    using set_update_subset_insert [of xs i "(t, pc')"] assms(4) by auto
next
  assume "(t', SdDone) \<in> set xs"
  then obtain j where j: "j < length xs" "xs ! j = (t', SdDone)" by (auto simp: in_set_conv_nth)
  with assms have "i \<noteq> j" by auto
  with j show "(t', SdDone) \<in> set (xs[i := (t, pc')])"
    by (auto simp: in_set_conv_nth intro!: exI [of _ j])
qed

lemma waited_alt:
  "waited s \<longleftrightarrow> (\<exists>t. (t, SdDone) \<in> set (shutdowns s) \<and> t + seconds (shutdownGracePeriodSeconds (mgr s)) \<le> clock s)"
  by (auto simp: waited_def)

lemma linv_alt:
  "linv s \<longleftrightarrow>
     (if waited s then state (proxy (mgr s)) = stateStopped
      else state (proxy (mgr s)) = stateRunning
           \<or> (state (proxy (mgr s)) = stateDraining \<and> shutdownDrainListenersEnabled (mgr s)))
     \<and> (\<forall>t pc. (t, pc) \<in> set (shutdowns s) \<longrightarrow> t \<le> clock s)
     \<and> (\<forall>t. (t, SdDone) \<in> set (shutdowns s) \<longrightarrow> t + seconds (shutdownGracePeriodSeconds (mgr s)) \<le> clock s)"
  unfolding linv_def by (auto split: prod.splits)

lemma linv_step:
  assumes inv: "linv s" and step: "lstep s l s'"
  shows "linv s'"
  using step
proof cases
  case request
  then have "waited s' \<longleftrightarrow> waited s" by (auto simp: waited_alt)
  with request inv show ?thesis by (auto simp: linv_alt)
next
  case (tick d)
  then have "waited s' \<longleftrightarrow> waited s"
    using inv by (force simp: waited_alt linv_alt)
  with tick inv show ?thesis by (force simp: linv_alt)
next
  case (dumped i t p get wr)
  have keep: "(t', SdDone) \<in> set (shutdowns s') \<longleftrightarrow> (t', SdDone) \<in> set (shutdowns s)" for t'
    using waited_update_not_done [OF dumped(3,4), of SdDrain] dumped(2) by simp
  have "waited s' \<longleftrightarrow> waited s" using dumped(2) keep by (simp add: waited_alt)
  moreover have "t' \<le> clock s'" if "(t', pc) \<in> set (shutdowns s')" for t' pc
    using that inv dumped(2,3,4) set_update_subset_insert [of "shutdowns s" i "(t, SdDrain)"] nth_mem [OF dumped(3)]
    by (auto simp: linv_alt)
  ultimately show ?thesis
    using inv dumped(2,5) keep by (simp add: linv_alt shutdown_op_phases)
next
  case (drained i t p post)
  have keep: "(t', SdDone) \<in> set (shutdowns s') \<longleftrightarrow> (t', SdDone) \<in> set (shutdowns s)" for t'
    using waited_update_not_done [OF drained(3,4), of SdWait] drained(2) by simp
  have "waited s' \<longleftrightarrow> waited s" using drained(2) keep by (simp add: waited_alt)
  moreover have "t' \<le> clock s'" if "(t', pc) \<in> set (shutdowns s')" for t' pc
    using that inv drained(2,3,4) set_update_subset_insert [of "shutdowns s" i "(t, SdWait)"] nth_mem [OF drained(3)]
    by (auto simp: linv_alt)
  ultimately show ?thesis
    using inv drained(2,5) keep by (auto simp: linv_alt shutdown_op_phases)
next
  case (quitted i t post)
  have fin: "(t, SdDone) \<in> set (shutdowns s')"
    using quitted by (simp add: set_update_memI)
  have "waited s'" using fin quitted by (auto simp: waited_alt)
  moreover have "state (proxy (mgr s')) = stateStopped"
    using inv quitted(2) by (auto simp: linv_alt phase_simps split: if_splits)
  moreover have "t' \<le> clock s'" if "(t', pc) \<in> set (shutdowns s')" for t' pc
    using that inv quitted(2,3,4) set_update_subset_insert [of "shutdowns s" i "(t, SdDone)"] nth_mem [OF quitted(3)]
    by (auto simp: linv_alt)
  moreover have "t' + seconds (shutdownGracePeriodSeconds (mgr s')) \<le> clock s'" if "(t', SdDone) \<in> set (shutdowns s')" for t'
    using that inv quitted(2,4,5) set_update_subset_insert [of "shutdowns s" i "(t, SdDone)"]
    by (auto simp: linv_alt)
  ultimately show ?thesis by (simp add: linv_alt)
qed

interpretation shutdown_threads: invariant_system lstart lstep linv
  by unfold_locales (auto intro: linv_start linv_step)

text \<open>Polling: a positive answer comes from a call that started before the deadline.\<close>

lemma poll_ready_after_start:
  "poll_ready get takes deadline t p = (Some t', p') \<Longrightarrow> t \<le> t'"
proof (induction get takes deadline t p rule: poll_ready.induct)
  case (1 get takes deadline t p)
  obtain r err q where rdy: "Ready (get t) p = (r, err, q)" by (metis prod_cases3)
  from "1.prems" have notyet: "\<not> deadline \<le> t" by (auto simp: poll_ready.simps [of _ _ _ t])
  show ?case
  proof (cases r)
    case True
    then show ?thesis using "1.prems" notyet rdy by (simp add: poll_ready.simps [of _ _ _ t])
  next
    case False
    then have "poll_ready get takes deadline (t + int (takes t) + poll_interval) q = (Some t', p')"
      using "1.prems" notyet rdy by (simp add: poll_ready.simps [of _ _ _ t])
    from 1(1) [OF notyet rdy [symmetric] refl refl refl False this] show ?thesis
      by (simp add: poll_interval_def)
  qed
qed

lemma Ready_running:
  "state p = stateRunning \<Longrightarrow> fst (Ready get p) = (case get (admin_url p ''/ready'') of Inl _ \<Rightarrow> False | Inr r \<Rightarrow> StatusCode r = 200)"
  by (auto simp: Ready_def getState_def Let_def split: sum.split)

lemma Ready_keeps: "cfg (snd (snd (Ready get p))) = cfg p" "state (snd (snd (Ready get p))) = state p"
  by (simp_all add: Ready_def Let_def split: sum.split)

text \<open>If Envoy answers 200 from time \<open>T\<close> on and calls take at most \<open>d\<close>, one of the polls sees it in time.\<close>

lemma poll_ready_prompt:
  assumes "state p = stateRunning"
    and "\<And>s. T \<le> s \<Longrightarrow> \<exists>r. get s (admin_url p ''/ready'') = Inr r \<and> StatusCode r = 200"
    and "\<And>s. int (takes s) \<le> d"
    and "t \<le> max now (T + poll_interval + d)"
  shows "case poll_ready get takes deadline t p of
      (Some t', p') \<Rightarrow> t' \<le> max now (T + poll_interval + d) + d
    | (None, p') \<Rightarrow> deadline \<le> max now (T + poll_interval + d)"
  using assms
proof (induction get takes deadline t p rule: poll_ready.induct)
  case (1 get takes deadline t p)
  obtain r err p' where rdy: "Ready (get t) p = (r, err, p')" by (metis prod_cases3)
  have keep: "cfg p' = cfg p" "state p' = stateRunning"
    using Ready_keeps [of "get t" p] rdy 1(2) by simp_all
  have url: "admin_url p' u = admin_url p u" for u using keep by (simp add: admin_url_def)
  show ?case
  proof (cases "deadline \<le> t")
    case True
    then show ?thesis using 1(5) by (simp add: poll_ready.simps [of _ _ _ t])
  next
    case False
    show ?thesis
    proof (cases r)
      case True
      then show ?thesis using 1(4) [of t] 1(5) False rdy by (simp add: poll_ready.simps [of _ _ _ t])
    next
      case nr: False
      have "t < T"
      proof (rule ccontr)
        assume "\<not> t < T"
        with 1(3) [of t] obtain x where "get t (admin_url p ''/ready'') = Inr x" "StatusCode x = 200" by auto
        with 1(2) Ready_running [of p "get t"] rdy nr show False by simp
      qed
      then have "t + int (takes t) + poll_interval \<le> max now (T + poll_interval + d)"
        using 1(4) [of t] by simp
      from 1(1) [OF False rdy [symmetric] refl refl refl nr keep(2) _ 1(4) this] 1(3) False rdy nr url
      show ?thesis by (simp add: poll_ready.simps [of _ _ _ t])
    qed
  qed
qed

text \<open>The polls only record their requests, and there are at most as many as fit into the time left.\<close>

lemma Ready_effect: "\<exists>k. k \<le> 1 \<and> snd (snd (Ready get p)) = p\<lparr>requests := requests p @ replicate k (GET (admin_url p ''/ready''))\<rparr>"
  by (rule exI [of _ "if getState p \<in> {stateExited, stateStopped, stateDraining} then 0 else 1"])
    (auto simp: Ready_def Let_def split: sum.split)

lemma poll_ready_polls:
  "\<exists>k. snd (poll_ready get takes deadline t p) = p\<lparr>requests := requests p @ replicate k (GET (admin_url p ''/ready''))\<rparr>
    \<and> (k = 0 \<or> (int k - 1) * poll_interval < deadline - t)"
proof (induction get takes deadline t p rule: poll_ready.induct)
  case (1 get takes deadline t p)
  obtain r err q where rdy: "Ready (get t) p = (r, err, q)" by (metis prod_cases3)
  obtain j where j: "j \<le> 1" "q = p\<lparr>requests := requests p @ replicate j (GET (admin_url p ''/ready''))\<rparr>"
    using Ready_effect [of "get t" p] rdy by auto
  show ?case
  proof (cases "deadline \<le> t \<or> r")
    case True
    have "poll_ready get takes deadline t p = (if deadline \<le> t then (None, p) else (Some (t + int (takes t)), q))"
      using True rdy by (subst poll_ready.simps) (auto simp: Let_def)
    moreover have "j = 0 \<or> (int j - 1) * poll_interval < deadline - t" if "\<not> deadline \<le> t"
      using that j(1) by (cases "j = 0") (auto simp: le_Suc_eq)
    ultimately show ?thesis
      using j(2) by (intro exI [of _ "if deadline \<le> t then 0 else j"]) simp
  next
    case False
    then have rec: "poll_ready get takes deadline t p = poll_ready get takes deadline (t + int (takes t) + poll_interval) q"
      using rdy by (simp add: poll_ready.simps [of _ _ _ t])
    from False 1 [OF _ rdy [symmetric] refl refl refl] obtain k
      where k: "snd (poll_ready get takes deadline (t + int (takes t) + poll_interval) q)
          = q\<lparr>requests := requests q @ replicate k (GET (admin_url q ''/ready''))\<rparr>"
        "k = 0 \<or> (int k - 1) * poll_interval < deadline - (t + int (takes t) + poll_interval)" by auto
    have "j + k = 0 \<or> (int (j + k) - 1) * poll_interval < deadline - t"
      using k(2) j(1) False by (cases "j = 0") (auto simp: poll_interval_def)
    moreover have "admin_url q = admin_url p" using j(2) by (simp add: admin_url_def fun_eq_iff)
    ultimately show ?thesis
      using rec k(1) j(2) by (intro exI [of _ "j + k"]) (simp add: replicate_add)
  qed
qed

lemma seconds_range: "seconds n < 9223372036854775808"
  using sint_less [of "word_of_int (n * 1000000000) :: 64 word"] by (simp add: seconds_def int64_def)

lemma quit_time:
  "EvQuit t \<in> set (fst (gracefulShutdown env now m)) \<longleftrightarrow>
     t = max (now + (if dumpEnvoyConfigOnExitEnabled m then int (se_dump_takes env) else 0)
                  + (if shutdownDrainListenersEnabled m then int (se_drain_takes env) else 0))
           (now + seconds (shutdownGracePeriodSeconds m))"
  by (auto simp: gracefulShutdown_def Let_def)

section \<open>Properties\<close>

definition sample_manager :: lifecycleConfig where
  "sample_manager = \<lparr>shutdownDrainListenersEnabled = True, shutdownGracePeriodSeconds = 2, gracefulAddr = [],
     gracefulPort = 0, gracefulShutdownPath = [], startupGracePeriodSeconds = 1, gracefulStartupPath = [],
     dumpEnvoyConfigOnExitEnabled = True, proxy = running_proxy, lifecycleServer = None, errorExitCh_closed = False,
     running = False\<rparr>"

definition sample_env :: shutdown_env where
  "sample_env = \<lparr>se_get = \<lambda>_. Inl (Err ''refused''), se_write = None, se_post = \<lambda>_. None, se_dump_takes = 5,
     se_drain_takes = 7, se_quit_takes = 3\<rparr>"

text \<open>C22: What one graceful shutdown does. For a grace period that fits a duration, the
  shutdown dumps the configuration at once if asked to, then drains the listeners if asked
  to, and quits Envoy not before the grace period is over, and exactly when it is over if the
  dump and the drain fit into it. A running or draining proxy ends stopped.\<close>

theorem shutdown_schedule:
  assumes "0 \<le> shutdownGracePeriodSeconds m" and "shutdownGracePeriodSeconds m \<le> 9223372036"
  shows "\<exists>tq. let dump = (if dumpEnvoyConfigOnExitEnabled m then int (se_dump_takes env) else 0);
               drain = (if shutdownDrainListenersEnabled m then int (se_drain_takes env) else 0);
               over = now + shutdownGracePeriodSeconds m * 1000000000
           in fst (gracefulShutdown env now m) =
                (if dumpEnvoyConfigOnExitEnabled m then [EvDump now] else [])
                @ (if shutdownDrainListenersEnabled m then [EvDrain (now + dump)] else [])
                @ [EvQuit tq, EvReturn (tq + int (se_quit_takes env))]
              \<and> over \<le> tq \<and> (now + dump + drain \<le> over \<longrightarrow> tq = over)
              \<and> state (proxy (snd (gracefulShutdown env now m))) =
                  (if state (proxy m) \<in> {stateRunning, stateDraining} then stateStopped else state (proxy m))"
proof -
  have s: "seconds (shutdownGracePeriodSeconds m) = shutdownGracePeriodSeconds m * 1000000000"
    using assms by (intro seconds_exact) auto
  let ?t = "max (now + (if dumpEnvoyConfigOnExitEnabled m then int (se_dump_takes env) else 0)
      + (if shutdownDrainListenersEnabled m then int (se_drain_takes env) else 0))
    (now + shutdownGracePeriodSeconds m * 1000000000)"
  show ?thesis
    by (rule exI [of _ ?t]) (simp add: gracefulShutdown_def s Let_def phase_simps)
qed

theorem shutdown_schedule_witness:
  "fst (gracefulShutdown sample_env 100 sample_manager) = [EvDump 100, EvDrain 105, EvQuit 2000000100, EvReturn 2000000103]
   \<and> state (proxy (snd (gracefulShutdown sample_env 100 sample_manager))) = stateStopped"
  using shutdown_schedule [of sample_manager sample_env 100]
  by (simp add: sample_manager_def sample_env_def running_state)



text \<open>C23: Startup blocks long enough and not too long. Graceful startup of a running proxy
  never returns after the grace period; if Envoy reports ready from some time on and calls
  take at most \<open>d\<close>, it returns within one poll interval and two calls of that time; and if
  it saw the proxy ready, it returned before the grace period was over.\<close>

theorem startup_prompt_and_bounded:
  assumes "0 < startupGracePeriodSeconds m" and "startupGracePeriodSeconds m \<le> 9223372036"
    and "state (proxy m) = stateRunning"
    and "\<And>s. T \<le> s \<Longrightarrow> \<exists>r. get s (admin_url (proxy m) ''/ready'') = Inr r \<and> StatusCode r = 200"
    and "\<And>s. int (takes s) \<le> d"
  shows "now \<le> fst (gracefulStartup get takes now m)
    \<and> fst (gracefulStartup get takes now m) \<le> now + startupGracePeriodSeconds m * 1000000000
    \<and> fst (gracefulStartup get takes now m) \<le> max now (T + poll_interval + d) + d
    \<and> (fst (snd (gracefulStartup get takes now m)) \<longrightarrow>
         fst (gracefulStartup get takes now m) < now + startupGracePeriodSeconds m * 1000000000)"
proof -
  let ?dl = "now + startupGracePeriodSeconds m * 1000000000"
  have s: "seconds (startupGracePeriodSeconds m) = startupGracePeriodSeconds m * 1000000000"
    using assms by (intro seconds_exact) auto
  have d0: "0 \<le> d" using assms(5) [of 0] by linarith
  obtain o' p' where poll: "poll_ready get takes ?dl now (proxy m) = (o', p')" by fastforce
  have prompt: "case (o', p') of (Some t', p') \<Rightarrow> t' \<le> max now (T + poll_interval + d) + d
      | (None, p') \<Rightarrow> ?dl \<le> max now (T + poll_interval + d)"
    using poll_ready_prompt [of "proxy m" T get takes d now now ?dl] assms(3-5) poll by simp
  show ?thesis
  proof (cases o')
    case None
    then show ?thesis using assms(1) s poll prompt d0 by (simp add: gracefulStartup_def Let_def)
  next
    case (Some t)
    with poll have "now \<le> t" by (auto intro: poll_ready_after_start)
    with Some show ?thesis using assms(1) s poll prompt d0 by (simp add: gracefulStartup_def Let_def)
  qed
qed

theorem startup_prompt_and_bounded_witness:
  "fst (gracefulStartup (\<lambda>s _. if s < 200000000 then Inl (Err ''refused'') else Inr \<lparr>StatusCode = 200, Body = Inr []\<rparr>)
         (\<lambda>_. 1000) 0 sample_manager) \<le> 250002000"
  using startup_prompt_and_bounded [of sample_manager 200000000
      "\<lambda>s _. if s < 200000000 then Inl (Err ''refused'') else Inr \<lparr>StatusCode = 200, Body = Inr []\<rparr>" "\<lambda>_. 1000" 1000 0]
  by (simp add: sample_manager_def running_state poll_interval_def)



text \<open>C37: the polling of a startup ends. It asks the proxy's readiness endpoint and nothing else, at most
  twenty times per second of the grace period, and leaves the rest of the manager and of the
  proxy as they were.\<close>

theorem startup_polling_ends:
  assumes "0 \<le> startupGracePeriodSeconds m" and "startupGracePeriodSeconds m \<le> 9223372036"
  shows "\<exists>k. snd (snd (gracefulStartup get takes now m)) =
      m\<lparr>proxy := (proxy m)\<lparr>requests := requests (proxy m) @ replicate k (GET (admin_url (proxy m) ''/ready''))\<rparr>\<rparr>
    \<and> int k \<le> 20 * startupGracePeriodSeconds m"
proof (cases "startupGracePeriodSeconds m = 0")
  case True
  then show ?thesis by (intro exI [of _ 0]) (simp add: gracefulStartup_def)
next
  case False
  have s: "seconds (startupGracePeriodSeconds m) = startupGracePeriodSeconds m * 1000000000"
    using assms by (intro seconds_exact) auto
  obtain k where k: "snd (poll_ready get takes (now + startupGracePeriodSeconds m * 1000000000) now (proxy m))
        = (proxy m)\<lparr>requests := requests (proxy m) @ replicate k (GET (admin_url (proxy m) ''/ready''))\<rparr>"
      "k = 0 \<or> (int k - 1) * poll_interval < now + startupGracePeriodSeconds m * 1000000000 - now"
    using poll_ready_polls by blast
  have "int k \<le> 20 * startupGracePeriodSeconds m" using k(2) assms(1) by (auto simp: poll_interval_def)
  with False s k(1) show ?thesis
    by (intro exI [of _ k]) (auto simp: gracefulStartup_def Let_def split: prod.split option.split)
qed

theorem startup_polling_ends_witness:
  "\<exists>k. requests (proxy (snd (snd (gracefulStartup (\<lambda>_ _. Inl (Err ''refused'')) (\<lambda>_. 0) 0 sample_manager))))
     = requests running_proxy @ replicate k (GET (admin_url running_proxy ''/ready'')) \<and> k \<le> 20"
  using startup_polling_ends [of sample_manager "\<lambda>_ _. Inl (Err ''refused'')" "\<lambda>_. 0" 0] by (force simp: sample_manager_def)

text \<open>C38: the largest grace period. A shutdown quits Envoy no earlier than the configured number of seconds after it
  began, whatever the calls before it take, exactly if that number is at most 9223372036,
  the largest for which the duration in nanoseconds does not wrap.\<close>

theorem grace_period_bound:
  "(\<forall>env now. \<exists>t. EvQuit t \<in> set (fst (gracefulShutdown env now m)) \<and> now + shutdownGracePeriodSeconds m * 1000000000 \<le> t)
     \<longleftrightarrow> shutdownGracePeriodSeconds m \<le> 9223372036"
proof
  let ?env = "\<lparr>se_get = \<lambda>_. Inl (Err []), se_write = None, se_post = \<lambda>_. None, se_dump_takes = 0, se_drain_takes = 0, se_quit_takes = 0\<rparr>"
  assume "\<forall>env now. \<exists>t. EvQuit t \<in> set (fst (gracefulShutdown env now m)) \<and> now + shutdownGracePeriodSeconds m * 1000000000 \<le> t"
  then have "\<exists>t. EvQuit t \<in> set (fst (gracefulShutdown ?env 0 m)) \<and> 0 + shutdownGracePeriodSeconds m * 1000000000 \<le> t" by blast
  then have "shutdownGracePeriodSeconds m * 1000000000 \<le> max 0 (seconds (shutdownGracePeriodSeconds m))"
    by (simp add: quit_time cong: if_cong)
  with seconds_range [of "shutdownGracePeriodSeconds m"] show "shutdownGracePeriodSeconds m \<le> 9223372036" by linarith
next
  assume le: "shutdownGracePeriodSeconds m \<le> 9223372036"
  show "\<forall>env now. \<exists>t. EvQuit t \<in> set (fst (gracefulShutdown env now m)) \<and> now + shutdownGracePeriodSeconds m * 1000000000 \<le> t"
  proof (cases "- 9223372036 \<le> shutdownGracePeriodSeconds m")
    case True
    with le show ?thesis by (simp add: quit_time seconds_exact)
  qed (simp add: quit_time max_def)
qed

text \<open>A grace period of 9223372037 seconds or a little more wraps to a negative duration: Envoy is then quit at once.\<close>

lemma long_grace_period_quits_at_once:
  assumes "shutdownGracePeriodSeconds m = 9223372037" and "\<not> dumpEnvoyConfigOnExitEnabled m" and "\<not> shutdownDrainListenersEnabled m"
  shows "fst (gracefulShutdown env now m) = [EvQuit now, EvReturn (now + int (se_quit_takes env))]"
  using assms by (simp add: gracefulShutdown_def Let_def seconds_overflow)

end
