(* ===== verification/Dns_Server.thy ===== *)
theory Dns_Server
  imports Go_Net
begin

text \<open>
  The DNS proxy, \<open>pkg/dns/dns.go\<close>: construction, starting and stopping as a step
  relation over the server, its two listening loops and the goroutine that waits for them;
  the UDP loop; and the handling of an accepted TCP connection with its two-byte length
  prefix. The Consul gRPC client and the operating system are arguments; what arrives on a
  socket is a script of bytes, stalls and datagrams.
\<close>

section \<open>Data\<close>

type_synonym byte = "8 word"

definition ErrServerDisabled :: go_error where "ErrServerDisabled = Err ''server is disabled''"
definition ErrServerRunning :: go_error where "ErrServerRunning = Err ''server is already running''"

record DNSServerParams =
  dp_BindAddr :: string
  dp_Port :: int
  dp_Partition :: string
  dp_Namespace :: string
  dp_Token :: string

text \<open>A socket that was bound to a port, open or closed.\<close>

datatype sock = Sock bool int

text \<open>
  Where the loops of the current run are: the UDP loop, which wakes up at least every ten
  seconds, the TCP loop at its head or blocked in \<open>Accept\<close>, or ended.
\<close>

datatype loop = NotStarted | AtHead | InAccept | Ended

record DNSServer =
  bindAddr :: "nat list"
  port :: int
  running :: bool
  connUDP :: "sock option"
  listenerTCP :: "sock option"
  partition :: string
  namespace :: string
  token :: string
  cancelled :: bool
  udp_loop :: loop
  tcp_loop :: loop
  crashed :: bool

definition NewDNSServer :: "DNSServerParams \<Rightarrow> DNSServer result" where
  "NewDNSServer p =
     (if dp_Port p = - 1 then Inl ErrServerDisabled
      else case ParseIP (dp_BindAddr p) of
        None \<Rightarrow> Inl (Err (''error parsing specified dns bind addr '' @ [CHR 0x27] @ dp_BindAddr p @ [CHR 0x27]))
      | Some ip \<Rightarrow> Inr \<lparr>bindAddr = ip, port = dp_Port p, running = False, connUDP = None, listenerTCP = None,
          partition = dp_Partition p, namespace = dp_Namespace p, token = dp_Token p, cancelled = False,
          udp_loop = NotStarted, tcp_loop = NotStarted, crashed = False\<rparr>)"

fun sock_port :: "sock option \<Rightarrow> int" where
  "sock_port None = - 1"
| "sock_port (Some (Sock _ p)) = p"

definition TcpPort :: "DNSServer \<Rightarrow> int" where "TcpPort d = sock_port (listenerTCP d)"
definition UdpPort :: "DNSServer \<Rightarrow> int" where "UdpPort d = sock_port (connUDP d)"

fun close_sock :: "sock option \<Rightarrow> sock option" where
  "close_sock None = None"
| "close_sock (Some (Sock _ p)) = Some (Sock False p)"

section \<open>Starting and stopping\<close>

text \<open>\<open>listenUDP\<close> and \<open>listenTCP\<close> are the ports the operating system bound, or errors.\<close>

definition Start :: "int result \<Rightarrow> int result \<Rightarrow> DNSServer \<Rightarrow> go_error option \<times> DNSServer" where
  "Start listenUDP listenTCP d =
     (if running d then (Some ErrServerRunning, d)
      else if port d = - 1 then (Some ErrServerDisabled, d)
      else case listenUDP of
        Inl e \<Rightarrow> (Some (Wrap ''error listening for udp'' e), d)
      | Inr u \<Rightarrow>
          (let d1 = d\<lparr>connUDP := Some (Sock True u)\<rparr> in
           case listenTCP of
             Inl e \<Rightarrow> (Some (Wrap ''error listening to tcp'' e), d1)
           | Inr t \<Rightarrow> (None, d1\<lparr>listenerTCP := Some (Sock True t), running := True, cancelled := False,
                              udp_loop := AtHead, tcp_loop := AtHead\<rparr>)))"

definition Stop :: "DNSServer \<Rightarrow> DNSServer" where
  "Stop d = (if \<not> running d then d else d\<lparr>cancelled := True\<rparr>)"

text \<open>The parent context may also be cancelled. A panic ends the whole process.\<close>

datatype dlabel =
    LStart "go_error option" | LStop | LParentDone | LUdpIter | LUdpEnd | LTcpCheck | LTcpEnd
  | LAccept | LAcceptError | LRunEnd

inductive dstep :: "DNSServer \<Rightarrow> dlabel \<Rightarrow> DNSServer \<Rightarrow> bool" where
  start: "\<not> crashed d \<Longrightarrow> Start u t d = (e, d') \<Longrightarrow> dstep d (LStart e) d'"
| stop: "\<not> crashed d \<Longrightarrow> dstep d LStop (Stop d)"
| parent_done: "\<not> crashed d \<Longrightarrow> running d \<Longrightarrow> dstep d LParentDone (d\<lparr>cancelled := True\<rparr>)"
| udp_iter: "\<not> crashed d \<Longrightarrow> udp_loop d = AtHead \<Longrightarrow> \<not> cancelled d \<Longrightarrow> dstep d LUdpIter d"
| udp_end: "\<not> crashed d \<Longrightarrow> udp_loop d = AtHead \<Longrightarrow> cancelled d \<Longrightarrow>
     dstep d LUdpEnd (d\<lparr>connUDP := close_sock (connUDP d), udp_loop := Ended\<rparr>)"
| tcp_check: "\<not> crashed d \<Longrightarrow> tcp_loop d = AtHead \<Longrightarrow> \<not> cancelled d \<Longrightarrow> dstep d LTcpCheck (d\<lparr>tcp_loop := InAccept\<rparr>)"
| tcp_end: "\<not> crashed d \<Longrightarrow> tcp_loop d = AtHead \<Longrightarrow> cancelled d \<Longrightarrow>
     dstep d LTcpEnd (d\<lparr>listenerTCP := close_sock (listenerTCP d), tcp_loop := Ended\<rparr>)"
| accept: "\<not> crashed d \<Longrightarrow> tcp_loop d = InAccept \<Longrightarrow> dstep d LAccept (d\<lparr>tcp_loop := AtHead\<rparr>)"
| accept_error: "\<not> crashed d \<Longrightarrow> tcp_loop d = InAccept \<Longrightarrow> dstep d LAcceptError (d\<lparr>tcp_loop := AtHead, crashed := True\<rparr>)"
| run_end: "\<not> crashed d \<Longrightarrow> running d \<Longrightarrow> udp_loop d = Ended \<Longrightarrow> tcp_loop d = Ended \<Longrightarrow> dstep d LRunEnd (d\<lparr>running := False\<rparr>)"

definition dstart :: "DNSServer \<Rightarrow> bool" where
  "dstart d \<longleftrightarrow> (\<exists>p. NewDNSServer p = Inr d)"

fun sock_open :: "sock option \<Rightarrow> bool" where
  "sock_open None = False"
| "sock_open (Some (Sock b _)) = b"

definition dns_inv :: "DNSServer \<Rightarrow> bool" where
  "dns_inv d \<longleftrightarrow>
     port d \<noteq> - 1
     \<and> (running d \<longrightarrow> udp_loop d \<noteq> NotStarted \<and> tcp_loop d \<noteq> NotStarted)
     \<and> (\<not> running d \<longrightarrow> udp_loop d \<in> {NotStarted, Ended} \<and> tcp_loop d \<in> {NotStarted, Ended})
     \<and> (udp_loop d = AtHead \<longrightarrow> sock_open (connUDP d))
     \<and> (tcp_loop d \<in> {AtHead, InAccept} \<longrightarrow> sock_open (listenerTCP d))
     \<and> (tcp_loop d \<in> {NotStarted, Ended} \<longrightarrow> \<not> sock_open (listenerTCP d))
     \<and> (running d \<and> (udp_loop d = Ended \<or> tcp_loop d = Ended) \<longrightarrow> cancelled d)
     \<and> udp_loop d \<noteq> InAccept"

section \<open>Queries\<close>

datatype Protocol = PROTOCOL_UDP | PROTOCOL_TCP

text \<open>A \<open>QueryRequest\<close> with the metadata of its outgoing context.\<close>

record query =
  q_Msg :: "byte list"
  q_Protocol :: Protocol
  q_partition :: string
  q_namespace :: string
  q_token :: string

definition mk_query :: "DNSServer \<Rightarrow> Protocol \<Rightarrow> byte list \<Rightarrow> query" where
  "mk_query d proto msg = \<lparr>q_Msg = msg, q_Protocol = proto, q_partition = partition d, q_namespace = namespace d, q_token = token d\<rparr>"

type_synonym dns_client = "query \<Rightarrow> byte list result"

section \<open>UDP\<close>

text \<open>What one read of the UDP socket gives: a datagram with its sender, a time-out or another error, or the socket was closed.\<close>

datatype udp_in = Datagram "byte list" nat | UTimeout | UError | UClosed

text \<open>The query made and the response sent; \<open>wr\<close> is the error of \<open>WriteTo\<close>.\<close>

definition queryConsulAndRespondUDP :: "dns_client \<Rightarrow> (byte list \<times> nat \<Rightarrow> go_error option) \<Rightarrow> DNSServer \<Rightarrow> byte list \<Rightarrow> nat
    \<Rightarrow> query \<times> (byte list \<times> nat) option" where
  "queryConsulAndRespondUDP client wr d buf addr =
     (let req = mk_query d PROTOCOL_UDP buf in
      case client req of
        Inl e \<Rightarrow> (req, None)
      | Inr resp \<Rightarrow> (req, if wr (resp, addr) = None then Some (resp, addr) else None))"

text \<open>
  The loop over what the socket gives, until the context is done (before the \<open>k\<close>-th
  iteration when \<open>isdone k\<close>); every datagram is handled by a goroutine of its own. A read
  takes at most 512 bytes; the rest of a larger datagram is dropped.
\<close>

fun proxyUDP :: "dns_client \<Rightarrow> (byte list \<times> nat \<Rightarrow> go_error option) \<Rightarrow> (nat \<Rightarrow> bool) \<Rightarrow> DNSServer \<Rightarrow> nat \<Rightarrow> udp_in list
    \<Rightarrow> (query \<times> (byte list \<times> nat) option) list" where
  "proxyUDP client wr isdone d k [] = []"
| "proxyUDP client wr isdone d k (x # xs) =
     (if isdone k then []
      else case x of
        UClosed \<Rightarrow> []
      | UTimeout \<Rightarrow> proxyUDP client wr isdone d (Suc k) xs
      | UError \<Rightarrow> proxyUDP client wr isdone d (Suc k) xs
      | Datagram msg addr \<Rightarrow>
          queryConsulAndRespondUDP client wr d (take 512 msg) addr # proxyUDP client wr isdone d (Suc k) xs)"

section \<open>TCP\<close>

text \<open>What arrives on a connection: a byte, or a stall that lasts beyond the read deadline; then the end of the stream.\<close>

datatype rd = Byte byte | Stall

datatype rderr = RdEOF | RdTimeout

text \<open>\<open>io.ReadFull\<close>: the bytes, or an error; in both cases what is left of the stream.\<close>

fun ReadFull :: "nat \<Rightarrow> rd list \<Rightarrow> (rderr + byte list) \<times> rd list" where
  "ReadFull 0 inp = (Inr [], inp)"
| "ReadFull (Suc n) [] = (Inl RdEOF, [])"
| "ReadFull (Suc n) (Stall # inp) = (Inl RdTimeout, inp)"
| "ReadFull (Suc n) (Byte b # inp) = (case ReadFull n inp of (r, rest) \<Rightarrow> (map_sum id (Cons b) r, rest))"

text \<open>A big-endian uint16: \<open>binary.Read\<close> and \<open>binary.Write\<close>.\<close>

definition be16 :: "16 word \<Rightarrow> byte list" where
  "be16 w = [ucast (drop_bit 8 w), ucast w]"

definition of_be16 :: "byte list \<Rightarrow> 16 word" where
  "of_be16 bs = (case bs of [h, l] \<Rightarrow> push_bit 8 (ucast h) + ucast l | _ \<Rightarrow> 0)"

text \<open>The environment of a connection, per iteration: is the context done, and the errors of the calls on it.\<close>

record conn_env =
  ce_done :: "nat \<Rightarrow> bool"
  ce_setdl :: "nat \<Rightarrow> go_error option"
  ce_wlen :: "nat \<Rightarrow> go_error option"
  ce_wmsg :: "nat \<Rightarrow> go_error option"

text \<open>The queries made and the bytes written until the connection is closed.\<close>

lemma ReadFull_length: "length (snd (ReadFull n inp)) \<le> length inp"
  by (induction n inp rule: ReadFull.induct) (auto split: prod.splits)

lemma ReadFull_shrinks: "ReadFull (Suc n) inp = (Inr bs, rest) \<Longrightarrow> length rest < length inp"
proof (cases "(Suc n, inp)" rule: ReadFull.cases)
  case (4 m b inp')
  assume "ReadFull (Suc n) inp = (Inr bs, rest)"
  with 4 ReadFull_length [of m inp'] show ?thesis by (auto split: prod.splits)
qed auto

lemma ReadFull_two_frames:
  assumes "(Inr hdr, inp1) = ReadFull 2 inp" and "(r, inp2) = ReadFull n inp1"
  shows "length inp2 < length inp"
proof -
  have "length inp1 < length inp"
    using assms(1) ReadFull_shrinks [of 1 inp hdr inp1] by (simp add: numeral_2_eq_2)
  moreover have "length inp2 \<le> length inp1"
    using ReadFull_length [of n inp1] assms(2) by (metis snd_conv)
  ultimately show ?thesis by simp
qed

function proxyTCPAcceptedConn :: "dns_client \<Rightarrow> conn_env \<Rightarrow> DNSServer \<Rightarrow> nat \<Rightarrow> rd list \<Rightarrow> query list \<times> byte list" where
  "proxyTCPAcceptedConn client env d k inp =
     (if ce_done env k \<or> ce_setdl env k \<noteq> None then ([], [])
      else case ReadFull 2 inp of
        (Inl e, _) \<Rightarrow> ([], [])
      | (Inr hdr, inp1) \<Rightarrow>
          (case ReadFull (unat (of_be16 hdr)) inp1 of
             (Inl e, inp2) \<Rightarrow> proxyTCPAcceptedConn client env d (Suc k) inp2
           | (Inr data, inp2) \<Rightarrow>
               (let req = mk_query d PROTOCOL_TCP data in
                case client req of
                  Inl e \<Rightarrow> ([req], [])
                | Inr resp \<Rightarrow>
                    if length resp > 65535 then ([req], [])
                    else if ce_wlen env k \<noteq> None then ([req], [])
                    else if ce_wmsg env k \<noteq> None then ([req], be16 (of_nat (length resp)))
                    else (case proxyTCPAcceptedConn client env d (Suc k) inp2 of
                            (reqs, out) \<Rightarrow> (req # reqs, be16 (of_nat (length resp)) @ resp @ out)))))"
  by pat_completeness auto
termination
  by (relation "measure (\<lambda>(client, env, d, k, inp). length inp)")
     (auto dest: ReadFull_two_frames)

declare proxyTCPAcceptedConn.simps [simp del]

section \<open>Invariant\<close>

lemma sock_open_close [simp]: "\<not> sock_open (close_sock s)"
  by (cases s rule: close_sock.cases) auto

lemma NewDNSServer_inv: "NewDNSServer p = Inr d \<Longrightarrow> dns_inv d"
  by (auto simp: NewDNSServer_def dns_inv_def split: if_split_asm option.split_asm)

lemma Start_cases:
  assumes "Start u t d = (e, d')"
  obtains (unchanged) "e \<noteq> None" "d' = d"
  | (leak) x y where "\<not> running d" "u = Inr x" "e = Some (Wrap ''error listening to tcp'' y)" "d' = d\<lparr>connUDP := Some (Sock True x)\<rparr>"
  | (started) x y where "\<not> running d" "u = Inr x" "t = Inr y" "e = None"
      "d' = d\<lparr>connUDP := Some (Sock True x), listenerTCP := Some (Sock True y), running := True, cancelled := False,
              udp_loop := AtHead, tcp_loop := AtHead\<rparr>"
  using assms by (auto simp: Start_def Let_def split: if_split_asm sum.split_asm)

lemma dns_inv_step:
  assumes "dns_inv d" and "dstep d l d'"
  shows "dns_inv d'"
  using assms(2)
proof cases
  case (start u t e)
  from start(3) show ?thesis
    using assms(1) by (cases rule: Start_cases) (auto simp: dns_inv_def)
next
  case stop
  then show ?thesis using assms(1) by (auto simp: dns_inv_def Stop_def)
qed (use assms(1) in \<open>auto simp: dns_inv_def\<close>)

interpretation dns_server: invariant_system dstart dstep dns_inv
  by unfold_locales (auto simp: dstart_def intro: NewDNSServer_inv dns_inv_step)

text \<open>A server whose TCP loop is blocked stays running until a connection arrives.\<close>

lemma blocked_step:
  assumes "dstep d l d'" and "l \<noteq> LAccept" and "l \<noteq> LAcceptError"
    and "running d \<and> tcp_loop d = InAccept \<and> sock_open (listenerTCP d)"
  shows "running d' \<and> tcp_loop d' = InAccept \<and> sock_open (listenerTCP d')"
  using assms by (cases rule: dstep.cases) (auto simp: Start_def Stop_def)

lemma blocked_steps:
  assumes "steps dstep d ls d'" and "LAccept \<notin> set ls" and "LAcceptError \<notin> set ls"
    and "running d \<and> tcp_loop d = InAccept \<and> sock_open (listenerTCP d)"
  shows "running d' \<and> tcp_loop d' = InAccept \<and> sock_open (listenerTCP d')"
  using assms
proof (induction rule: steps.induct)
  case (steps_Cons d l d1 ls d')
  have "running d1 \<and> tcp_loop d1 = InAccept \<and> sock_open (listenerTCP d1)"
    using blocked_step [OF steps_Cons.hyps(1)] steps_Cons.prems by auto
  with steps_Cons.prems steps_Cons.IH show ?case by simp
qed simp

section \<open>Frames\<close>

text \<open>The contract of a self-delimiting message encoding, and what its users get.\<close>

locale framing =
  fixes encode :: "'m \<Rightarrow> 'b list" and decode :: "'b list \<Rightarrow> ('m \<times> 'b list) option" and fits :: "'m \<Rightarrow> bool"
  assumes decode_encode: "fits x \<Longrightarrow> decode (encode x @ r) = Some (x, r)"
    and encode_nonempty: "encode x \<noteq> []"
begin

lemma stream_inj:
  "\<forall>x \<in> set xs. fits x \<Longrightarrow> \<forall>y \<in> set ys. fits y \<Longrightarrow> concat (map encode xs) = concat (map encode ys) \<Longrightarrow> xs = ys"
proof (induction xs arbitrary: ys)
  case Nil
  then show ?case by (cases ys) (auto simp: encode_nonempty)
next
  case (Cons x xs)
  obtain y ys' where ys: "ys = y # ys'"
    using Cons.prems by (cases ys) (auto simp: encode_nonempty)
  have d: "decode (concat (map encode (x # xs))) = Some (x, concat (map encode xs))"
    "decode (concat (map encode ys)) = Some (y, concat (map encode ys'))"
    using Cons.prems(1,2) ys by (simp_all add: decode_encode)
  have "Some (x, concat (map encode xs)) = Some (y, concat (map encode ys'))"
    using d(1) unfolding Cons.prems(3) d(2) by (rule sym)
  then have "x = y" and tails: "concat (map encode xs) = concat (map encode ys')" by simp_all
  moreover have "xs = ys'"
    by (rule Cons.IH [OF _ _ tails]) (use Cons.prems(1,2) ys in simp_all)
  ultimately show ?case using ys by simp
qed

end

text \<open>A DNS message on TCP: its length in two bytes, then the message.\<close>

definition frame :: "byte list \<Rightarrow> byte list" where
  "frame msg = be16 (of_nat (length msg)) @ msg"

definition unframe :: "byte list \<Rightarrow> (byte list \<times> byte list) option" where
  "unframe s =
     (case s of
        h # l # r \<Rightarrow> (let n = unat (of_be16 [h, l]) in if n \<le> length r then Some (take n r, drop n r) else None)
      | _ \<Rightarrow> None)"

definition fits16 :: "byte list \<Rightarrow> bool" where
  "fits16 msg \<longleftrightarrow> length msg \<le> 65535"

lemma of_be16_be16 [simp]: "of_be16 (be16 w) = w"
proof -
  have "uint (push_bit 8 (ucast (ucast (drop_bit 8 w) :: byte)) + ucast (ucast w :: byte) :: 16 word) = uint w"
  proof -
    have b: "0 \<le> uint w" "uint w < 65536" using uint_lt2p [of w] by simp_all
    have "uint w div 256 mod 256 = uint w div 256" using b by (intro mod_pos_pos_trivial) linarith+
    then have *: "uint w div 256 mod 256 * 256 + uint w mod 256 = uint w" by simp
    have "uint (push_bit 8 (ucast (ucast (drop_bit 8 w) :: byte)) + ucast (ucast w :: byte) :: 16 word)
        = uint w div 256 mod 256 * 256 + uint w mod 256"
      using b by (simp add: uint_word_ariths unsigned_ucast_eq unsigned_push_bit_eq unsigned_drop_bit_eq
          push_bit_eq_mult drop_bit_eq_div take_bit_eq_mod uint_div_distrib uint_mod_distrib)
    then show ?thesis unfolding * .
  qed
  then have "push_bit 8 (ucast (ucast (drop_bit 8 w) :: byte)) + ucast (ucast w :: byte) = w" by (simp only: word_uint_eq_iff)
  then show ?thesis by (simp add: of_be16_def be16_def)
qed

lemma be16_length [simp]: "length (be16 w) = 2"
  by (simp add: be16_def)

lemma unat_length [simp]: "fits16 msg \<Longrightarrow> unat (word_of_nat (length msg) :: 16 word) = length msg"
  by (simp add: fits16_def unat_of_nat)

lemma ReadFull_exact: "ReadFull (length bs) (map Byte bs @ rest) = (Inr bs, rest)"
  by (induction bs) auto

lemma ReadFull_header: "ReadFull 2 (map Byte (be16 w) @ rest) = (Inr (be16 w), rest)"
  using ReadFull_exact [of "be16 w" rest] by simp

lemma ReadFull_stall: "length bs < n \<Longrightarrow> ReadFull n (map Byte bs @ Stall # rest) = (Inl RdTimeout, rest)"
proof (induction bs arbitrary: n)
  case Nil
  then show ?case by (cases n) auto
next
  case (Cons b bs)
  then obtain m where n: "n = Suc m" by (cases n) auto
  with Cons show ?case by simp
qed

interpretation tcp: framing frame unframe fits16
proof
  fix x r :: "byte list"
  show "unframe (frame x @ r) = Some (x, r)" if "fits16 x"
  proof -
    obtain h l where hl: "be16 (of_nat (length x)) = [h, l]" by (simp add: be16_def)
    have "of_be16 [h, l] = of_nat (length x)" using hl of_be16_be16 by metis
    with that hl show ?thesis by (simp add: unframe_def frame_def Let_def)
  qed
  show "frame x \<noteq> []" by (simp add: frame_def be16_def)
qed

section \<open>Properties\<close>

definition quiet_env :: "conn_env \<Rightarrow> bool" where
  "quiet_env env \<longleftrightarrow> (\<forall>k. \<not> ce_done env k \<and> ce_setdl env k = None \<and> ce_wlen env k = None \<and> ce_wmsg env k = None)"

definition quiet :: conn_env where
  "quiet = \<lparr>ce_done = \<lambda>_. False, ce_setdl = \<lambda>_. None, ce_wlen = \<lambda>_. None, ce_wmsg = \<lambda>_. None\<rparr>"

lemma quiet_is_quiet: "quiet_env quiet"
  by (simp add: quiet_env_def quiet_def)

lemma conn_frame:
  assumes "quiet_env env" and "fits16 msg" and "client (mk_query d PROTOCOL_TCP msg) = Inr resp" and "fits16 resp"
  shows "proxyTCPAcceptedConn client env d k (map Byte (frame msg) @ inp) =
    (let (qs, out) = proxyTCPAcceptedConn client env d (Suc k) inp in (mk_query d PROTOCOL_TCP msg # qs, frame resp @ out))"
proof -
  have "ReadFull 2 (map Byte (frame msg) @ inp) = (Inr (be16 (of_nat (length msg))), map Byte msg @ inp)"
    using ReadFull_header [of "of_nat (length msg)"] by (simp add: frame_def)
  moreover have "ReadFull (unat (of_be16 (be16 (of_nat (length msg))))) (map Byte msg @ inp) = (Inr msg, inp)"
    using assms(2) ReadFull_exact [of msg inp] by simp
  ultimately show ?thesis
    using assms
    by (simp add: proxyTCPAcceptedConn.simps [of _ _ _ k] quiet_env_def fits16_def frame_def Let_def split: prod.split)
qed

lemma conn_end: "quiet_env env \<Longrightarrow> proxyTCPAcceptedConn client env d k [] = ([], [])"
  by (simp add: proxyTCPAcceptedConn.simps numeral_2_eq_2)

lemma conn_frames:
  assumes "quiet_env env"
  shows "\<forall>x \<in> set ms. fits16 x \<and> client (mk_query d PROTOCOL_TCP x) = Inr (answer x) \<and> fits16 (answer x) \<Longrightarrow>
    proxyTCPAcceptedConn client env d k (map Byte (concat (map frame ms))) =
      (map (mk_query d PROTOCOL_TCP) ms, concat (map frame (map answer ms)))"
proof (induction ms arbitrary: k)
  case Nil
  then show ?case using assms by (simp add: conn_end)
next
  case (Cons x ms)
  have "proxyTCPAcceptedConn client env d k (map Byte (frame x) @ map Byte (concat (map frame ms))) =
      (mk_query d PROTOCOL_TCP x # map (mk_query d PROTOCOL_TCP) ms, frame (answer x) @ concat (map frame (map answer ms)))"
    using conn_frame [OF assms, of x client d "answer x" k] Cons by simp
  then show ?case by simp
qed

definition sample_dns :: DNSServer where
  "sample_dns = \<lparr>bindAddr = v4_in_v6 [127, 0, 0, 1], port = 8600, running = False, connUDP = None, listenerTCP = None,
     partition = ''p'', namespace = ''ns'', token = ''t'', cancelled = False, udp_loop = NotStarted, tcp_loop = NotStarted,
     crashed = False\<rparr>"

lemma sample_dns_new: "dstart sample_dns"
proof -
  have "NewDNSServer \<lparr>dp_BindAddr = dotted 127 0 0 1, dp_Port = 8600, dp_Partition = ''p'', dp_Namespace = ''ns'', dp_Token = ''t''\<rparr> = Inr sample_dns"
    by (simp add: NewDNSServer_def parse_dotted sample_dns_def)
  then show ?thesis unfolding dstart_def by blast
qed

text \<open>C10: DNS over TCP. On a connection without errors, any sequence of requests of at most
  65535 bytes, each sent with its two-byte length, is forwarded to Consul request by request
  with the proxy's partition, namespace and token, and the client receives exactly the
  answers, each with its length, in the order of the requests; no other sequence of messages
  reads the same.\<close>

theorem tcp_requests_answered:
  assumes "quiet_env env"
    and "\<forall>x \<in> set ms. fits16 x \<and> client (mk_query d PROTOCOL_TCP x) = Inr (answer x) \<and> fits16 (answer x)"
  shows "proxyTCPAcceptedConn client env d k (map Byte (concat (map frame ms))) =
      (map (mk_query d PROTOCOL_TCP) ms, concat (map frame (map answer ms)))
    \<and> (\<forall>rs. (\<forall>r \<in> set rs. fits16 r) \<and>
         snd (proxyTCPAcceptedConn client env d k (map Byte (concat (map frame ms)))) = concat (map frame rs) \<longrightarrow> rs = map answer ms)"
proof -
  have "proxyTCPAcceptedConn client env d k (map Byte (concat (map frame ms))) =
      (map (mk_query d PROTOCOL_TCP) ms, concat (map frame (map answer ms)))"
    using conn_frames [OF assms(1), of ms client d answer k] assms(2) by simp
  moreover have "rs = map answer ms" if "\<forall>r \<in> set rs. fits16 r" "concat (map frame rs) = concat (map frame (map answer ms))" for rs
    by (rule tcp.stream_inj [OF that(1) _ that(2)]) (use assms(2) in auto)
  ultimately show ?thesis by auto
qed

theorem tcp_requests_answered_witness:
  "snd (proxyTCPAcceptedConn (\<lambda>q. Inr (rev (q_Msg q))) quiet sample_dns 0 (map Byte [0, 2, 7, 8, 0, 1, 9])) = [0, 2, 8, 7, 0, 1, 9]"
  using tcp_requests_answered [OF quiet_is_quiet, of "[[7, 8], [9]]" "\<lambda>q. Inr (rev (q_Msg q))" sample_dns rev 0]
  by (simp add: mk_query_def fits16_def frame_def be16_def)

text \<open>A stalled request loses the framing. When a client stalls past the read deadline
  in the middle of a request, the connection stays open and the bytes that follow, the rest
  of that request first, are read as if they started a new request.\<close>

lemma tcp_stall_desynchronises:
  assumes "\<not> ce_done env k" and "ce_setdl env k = None" and "length part < unat sz"
  shows "proxyTCPAcceptedConn client env d k (map Byte (be16 sz @ part) @ Stall # rest) =
    proxyTCPAcceptedConn client env d (Suc k) rest"
proof -
  have "ReadFull 2 (map Byte (be16 sz @ part) @ Stall # rest) = (Inr (be16 sz), map Byte part @ Stall # rest)"
    using ReadFull_header [of sz] by simp
  with assms show ?thesis
    by (simp add: proxyTCPAcceptedConn.simps [of _ _ _ k] ReadFull_stall)
qed

lemma tcp_stall_desynchronises_witness:
  "map q_Msg (fst (proxyTCPAcceptedConn (\<lambda>q. Inr []) quiet sample_dns 0
       (map Byte (be16 4 @ [1, 2]) @ Stall # map Byte (concat (map frame [[65]]))))) = [[65]]"
proof -
  have "proxyTCPAcceptedConn (\<lambda>q. Inr []) quiet sample_dns 0 (map Byte (be16 4 @ [1, 2]) @ Stall # map Byte (concat (map frame [[65]])))
      = proxyTCPAcceptedConn (\<lambda>q. Inr []) quiet sample_dns (Suc 0) (map Byte (concat (map frame [[65]])))"
    by (rule tcp_stall_desynchronises) (simp_all add: quiet_def)
  moreover have "proxyTCPAcceptedConn (\<lambda>q. Inr []) quiet sample_dns (Suc 0) (map Byte (concat (map frame [[65]])))
      = (map (mk_query sample_dns PROTOCOL_TCP) [[65]], concat (map frame (map (\<lambda>_. []) [[65::byte]])))"
    by (rule conn_frames [OF quiet_is_quiet]) (simp add: fits16_def)
  ultimately show ?thesis by (simp add: mk_query_def)
qed

text \<open>C25: DNS over UDP. As long as the server is not stopped, every datagram is forwarded to
  Consul, its first 512 bytes with the proxy's partition, namespace and token, and when
  Consul answers, the answer goes to the sender of that datagram; time-outs and read errors
  in between lose nothing.\<close>

theorem udp_datagrams_forwarded:
  assumes "\<forall>k. \<not> isdone k" and "UClosed \<notin> set xs"
  shows "proxyUDP client wr isdone d k xs =
    map (\<lambda>(msg, addr). (mk_query d PROTOCOL_UDP (take 512 msg),
           case client (mk_query d PROTOCOL_UDP (take 512 msg)) of
             Inl _ \<Rightarrow> None | Inr resp \<Rightarrow> if wr (resp, addr) = None then Some (resp, addr) else None))
      (List.map_filter (\<lambda>x. case x of Datagram msg addr \<Rightarrow> Some (msg, addr) | _ \<Rightarrow> None) xs)"
  using assms
  by (induction xs arbitrary: k)
     (auto simp: List.map_filter_simps queryConsulAndRespondUDP_def Let_def split: udp_in.splits sum.splits)

theorem udp_datagrams_forwarded_witness:
  "map snd (proxyUDP (\<lambda>q. Inr (q_Msg q)) (\<lambda>_. None) (\<lambda>_. False) sample_dns 0 [Datagram [1, 2] 5, UTimeout, Datagram [3] 6])
     = [Some ([1, 2], 5), Some ([3], 6)]"
  using udp_datagrams_forwarded [of "\<lambda>_. False" "[Datagram [1, 2] 5, UTimeout, Datagram [3] 6]" "\<lambda>q. Inr (q_Msg q)" "\<lambda>_. None" sample_dns 0]
  by (simp add: List.map_filter_simps mk_query_def)

text \<open>C26: The sockets of the server. In every reachable state of a DNS server that has not
  crashed: it listens on TCP exactly while it runs and its TCP loop has not ended, it has its
  UDP socket open while its UDP loop runs, a second start changes nothing, and an ended loop
  of a running server means that it was cancelled.\<close>

theorem dns_socket_ownership:
  assumes "reach dstart dstep d"
  shows "(sock_open (listenerTCP d) \<longleftrightarrow> running d \<and> tcp_loop d \<noteq> Ended)
    \<and> (running d \<and> udp_loop d \<noteq> Ended \<longrightarrow> sock_open (connUDP d))
    \<and> (running d \<longrightarrow> Start u t d = (Some ErrServerRunning, d))
    \<and> (running d \<and> (udp_loop d = Ended \<or> tcp_loop d = Ended) \<longrightarrow> cancelled d)"
proof -
  have "dns_inv d" by (rule dns_server.reach_inv [OF assms])
  then show ?thesis
    by (cases "tcp_loop d"; cases "udp_loop d"; cases "running d") (auto simp: dns_inv_def Start_def)
qed

definition started_dns :: DNSServer where
  "started_dns = snd (Start (Inr 8600) (Inr 8600) sample_dns)"

lemma started_dns_reach: "reach dstart dstep started_dns"
proof (rule reach_step)
  show "reach dstart dstep sample_dns" by (rule reach_start) (rule sample_dns_new)
  show "dstep sample_dns (LStart None) started_dns"
    by (rule dstep.start [where u = "Inr 8600" and t = "Inr 8600"]) (simp_all add: started_dns_def Start_def sample_dns_def)
qed

theorem dns_socket_ownership_witness:
  "sock_open (listenerTCP started_dns) \<and> Start (Inr 1) (Inr 1) started_dns = (Some ErrServerRunning, started_dns)"
  using dns_socket_ownership [OF started_dns_reach, of "Inr 1" "Inr 1"]
  by (simp add: started_dns_def Start_def sample_dns_def)

text \<open>Stopping needs one more connection. Once the TCP loop waits for a connection, the
  server stays running with its TCP listener open through stop calls, cancellations and
  everything else, until a connection arrives or accepting fails.\<close>

lemma stop_waits_for_connection:
  assumes "reach dstart dstep d" and "tcp_loop d = InAccept" and "steps dstep d ls d'"
    and "LAccept \<notin> set ls" and "LAcceptError \<notin> set ls"
  shows "running d' \<and> sock_open (listenerTCP d')"
proof -
  have "dns_inv d" by (rule dns_server.reach_inv [OF assms(1)])
  with assms(2) have "running d \<and> tcp_loop d = InAccept \<and> sock_open (listenerTCP d)"
    by (auto simp: dns_inv_def)
  with assms blocked_steps show ?thesis by blast
qed

text \<open>A failing TCP listen leaves the UDP socket of the failed start open.\<close>

lemma failed_start_leaks_udp:
  assumes "\<not> running d" and "port d \<noteq> - 1"
  shows "fst (Start (Inr u) (Inl e) d) \<noteq> None \<and> sock_open (connUDP (snd (Start (Inr u) (Inl e) d)))"
  using assms by (simp add: Start_def)

text \<open>A failed \<open>Accept\<close> hands a nil connection to the connection goroutine, which panics.\<close>

lemma accept_error_crashes: "dstep d LAcceptError d' \<Longrightarrow> crashed d'"
  by (auto elim: dstep.cases)

end
