(* ===== verification/Cli_Flags.thy ===== *)
theory Cli_Flags
  imports Prelude
begin

text \<open>
  The structures of \<open>cmd/consul-dataplane/config.go\<close> that hold what the flags, the environment and
  the configuration file set: every setting is a pointer, nil if it was not given. And
  their zero values.
\<close>

section \<open>Data\<close>

record TLSFlags =
  tf_Disabled :: "bool option"
  tf_CACertsPath :: "string option"
  tf_ServerName :: "string option"
  tf_CertFile :: "string option"
  tf_KeyFile :: "string option"
  tf_InsecureSkipVerify :: "bool option"

record StaticCredentialsFlags =
  stf_Token :: "string option"

record LoginCredentialsFlags =
  lf_AuthMethod :: "string option"
  lf_Namespace :: "string option"
  lf_Partition :: "string option"
  lf_Datacenter :: "string option"
  lf_BearerToken :: "string option"
  lf_BearerTokenPath :: "string option"
  lf_Meta :: "(string \<rightharpoonup> string) option"

record CredentialsFlags =
  crf_Type :: "string option"
  crf_Static :: "StaticCredentialsFlags"
  crf_Login :: "LoginCredentialsFlags"

record ConsulFlags =
  cf_Addresses :: "string option"
  cf_GRPCPort :: "int option"
  cf_ServerWatchDisabled :: "bool option"
  cf_TLS :: "TLSFlags"
  cf_Credentials :: "CredentialsFlags"

record ServiceFlags =
  svf_NodeName :: "string option"
  svf_NodeID :: "string option"
  svf_ServiceID :: "string option"
  svf_ServiceIDPath :: "string option"
  svf_Namespace :: "string option"
  svf_Partition :: "string option"

record ProxyFlags =
  pf_NodeName :: "string option"
  pf_NodeID :: "string option"
  pf_ID :: "string option"
  pf_IDPath :: "string option"
  pf_Namespace :: "string option"
  pf_Partition :: "string option"

record XDSServerFlags =
  xf_BindAddr :: "string option"
  xf_BindPort :: "int option"

record DNSServerFlags =
  nf_BindAddr :: "string option"
  nf_BindPort :: "int option"

record LogFlags =
  gf_Name :: "string"
  gf_LogLevel :: "string option"
  gf_LogJSON :: "bool option"

record PrometheusTelemetryFlags =
  pmf_RetentionTime :: "int option"
  pmf_CACertsPath :: "string option"
  pmf_KeyFile :: "string option"
  pmf_CertFile :: "string option"
  pmf_ServiceMetricsURL :: "string option"
  pmf_ScrapePath :: "string option"
  pmf_MergePort :: "int option"

record TelemetryFlags =
  tmf_UseCentralConfig :: "bool option"
  tmf_Prometheus :: "PrometheusTelemetryFlags"

record EnvoyFlags =
  ef_AdminBindAddr :: "string option"
  ef_AdminBindPort :: "int option"
  ef_ReadyBindAddr :: "string option"
  ef_ReadyBindPort :: "int option"
  ef_Concurrency :: "int option"
  ef_DrainTimeSeconds :: "int option"
  ef_DrainStrategy :: "string option"
  ef_ExecutablePath :: "string option"
  ef_ShutdownDrainListenersEnabled :: "bool option"
  ef_ShutdownGracePeriodSeconds :: "int option"
  ef_GracefulShutdownPath :: "string option"
  ef_GracefulAddr :: "string option"
  ef_GracefulPort :: "int option"
  ef_DumpEnvoyConfigOnExitEnabled :: "bool option"
  ef_StartupGracePeriodSeconds :: "int option"
  ef_GracefulStartupPath :: "string option"

record DataplaneConfigFlags =
  df_Mode :: "string option"
  df_Consul :: "ConsulFlags"
  df_Service :: "ServiceFlags"
  df_Proxy :: "ProxyFlags"
  df_Logging :: "LogFlags"
  df_XDSServer :: "XDSServerFlags"
  df_DNSServer :: "DNSServerFlags"
  df_Telemetry :: "TelemetryFlags"
  df_Envoy :: "EnvoyFlags"

record FlagOpts =
  fo_dataplaneConfig :: DataplaneConfigFlags
  fo_checkProxyHealth :: bool
  fo_printVersion :: bool
  fo_configFile :: string

text \<open>The zero values.\<close>

definition empty_TLSFlags :: TLSFlags where
  "empty_TLSFlags = \<lparr>tf_Disabled = None, tf_CACertsPath = None, tf_ServerName = None, tf_CertFile = None, tf_KeyFile =
     None, tf_InsecureSkipVerify = None\<rparr>"

definition empty_StaticCredentialsFlags :: StaticCredentialsFlags where
  "empty_StaticCredentialsFlags = \<lparr>stf_Token = None\<rparr>"

definition empty_LoginCredentialsFlags :: LoginCredentialsFlags where
  "empty_LoginCredentialsFlags = \<lparr>lf_AuthMethod = None, lf_Namespace = None, lf_Partition = None, lf_Datacenter = None, lf_BearerToken =
     None, lf_BearerTokenPath = None, lf_Meta = None\<rparr>"

definition empty_CredentialsFlags :: CredentialsFlags where
  "empty_CredentialsFlags = \<lparr>crf_Type = None, crf_Static = empty_StaticCredentialsFlags, crf_Login =
     empty_LoginCredentialsFlags\<rparr>"

definition empty_ConsulFlags :: ConsulFlags where
  "empty_ConsulFlags = \<lparr>cf_Addresses = None, cf_GRPCPort = None, cf_ServerWatchDisabled = None, cf_TLS = empty_TLSFlags,
     cf_Credentials = empty_CredentialsFlags\<rparr>"

definition empty_ServiceFlags :: ServiceFlags where
  "empty_ServiceFlags = \<lparr>svf_NodeName = None, svf_NodeID = None, svf_ServiceID = None, svf_ServiceIDPath = None, svf_Namespace
     = None, svf_Partition = None\<rparr>"

definition empty_ProxyFlags :: ProxyFlags where
  "empty_ProxyFlags = \<lparr>pf_NodeName = None, pf_NodeID = None, pf_ID = None, pf_IDPath = None, pf_Namespace = None,
     pf_Partition = None\<rparr>"

definition empty_XDSServerFlags :: XDSServerFlags where
  "empty_XDSServerFlags = \<lparr>xf_BindAddr = None, xf_BindPort = None\<rparr>"

definition empty_DNSServerFlags :: DNSServerFlags where
  "empty_DNSServerFlags = \<lparr>nf_BindAddr = None, nf_BindPort = None\<rparr>"

definition empty_LogFlags :: LogFlags where
  "empty_LogFlags = \<lparr>gf_Name = [], gf_LogLevel = None, gf_LogJSON = None\<rparr>"

definition empty_PrometheusTelemetryFlags :: PrometheusTelemetryFlags where
  "empty_PrometheusTelemetryFlags = \<lparr>pmf_RetentionTime = None, pmf_CACertsPath = None, pmf_KeyFile = None, pmf_CertFile = None,
     pmf_ServiceMetricsURL = None, pmf_ScrapePath = None, pmf_MergePort = None\<rparr>"

definition empty_TelemetryFlags :: TelemetryFlags where
  "empty_TelemetryFlags = \<lparr>tmf_UseCentralConfig = None, tmf_Prometheus = empty_PrometheusTelemetryFlags\<rparr>"

definition empty_EnvoyFlags :: EnvoyFlags where
  "empty_EnvoyFlags = \<lparr>ef_AdminBindAddr = None, ef_AdminBindPort = None, ef_ReadyBindAddr = None, ef_ReadyBindPort = None,
     ef_Concurrency = None, ef_DrainTimeSeconds = None, ef_DrainStrategy = None, ef_ExecutablePath = None,
     ef_ShutdownDrainListenersEnabled = None, ef_ShutdownGracePeriodSeconds = None, ef_GracefulShutdownPath = None,
     ef_GracefulAddr = None, ef_GracefulPort = None, ef_DumpEnvoyConfigOnExitEnabled = None,
     ef_StartupGracePeriodSeconds = None, ef_GracefulStartupPath = None\<rparr>"

definition empty_DataplaneConfigFlags :: DataplaneConfigFlags where
  "empty_DataplaneConfigFlags = \<lparr>df_Mode = None, df_Consul = empty_ConsulFlags, df_Service = empty_ServiceFlags, df_Proxy =
     empty_ProxyFlags, df_Logging = empty_LogFlags, df_XDSServer = empty_XDSServerFlags, df_DNSServer =
     empty_DNSServerFlags, df_Telemetry = empty_TelemetryFlags, df_Envoy = empty_EnvoyFlags\<rparr>"

section \<open>Settings by type\<close>

definition string_settings :: "(DataplaneConfigFlags \<Rightarrow> string option) list" where
  "string_settings =
    [\<lambda>c. df_Mode c,
     \<lambda>c. cf_Addresses (df_Consul c),
     \<lambda>c. tf_CACertsPath (cf_TLS (df_Consul c)),
     \<lambda>c. tf_ServerName (cf_TLS (df_Consul c)),
     \<lambda>c. tf_CertFile (cf_TLS (df_Consul c)),
     \<lambda>c. tf_KeyFile (cf_TLS (df_Consul c)),
     \<lambda>c. crf_Type (cf_Credentials (df_Consul c)),
     \<lambda>c. stf_Token (crf_Static (cf_Credentials (df_Consul c))),
     \<lambda>c. lf_AuthMethod (crf_Login (cf_Credentials (df_Consul c))),
     \<lambda>c. lf_Namespace (crf_Login (cf_Credentials (df_Consul c))),
     \<lambda>c. lf_Partition (crf_Login (cf_Credentials (df_Consul c))),
     \<lambda>c. lf_Datacenter (crf_Login (cf_Credentials (df_Consul c))),
     \<lambda>c. lf_BearerToken (crf_Login (cf_Credentials (df_Consul c))),
     \<lambda>c. lf_BearerTokenPath (crf_Login (cf_Credentials (df_Consul c))),
     \<lambda>c. svf_NodeName (df_Service c),
     \<lambda>c. svf_NodeID (df_Service c),
     \<lambda>c. svf_ServiceID (df_Service c),
     \<lambda>c. svf_ServiceIDPath (df_Service c),
     \<lambda>c. svf_Namespace (df_Service c),
     \<lambda>c. svf_Partition (df_Service c),
     \<lambda>c. pf_NodeName (df_Proxy c),
     \<lambda>c. pf_NodeID (df_Proxy c),
     \<lambda>c. pf_ID (df_Proxy c),
     \<lambda>c. pf_IDPath (df_Proxy c),
     \<lambda>c. pf_Namespace (df_Proxy c),
     \<lambda>c. pf_Partition (df_Proxy c),
     \<lambda>c. gf_LogLevel (df_Logging c),
     \<lambda>c. xf_BindAddr (df_XDSServer c),
     \<lambda>c. nf_BindAddr (df_DNSServer c),
     \<lambda>c. pmf_CACertsPath (tmf_Prometheus (df_Telemetry c)),
     \<lambda>c. pmf_KeyFile (tmf_Prometheus (df_Telemetry c)),
     \<lambda>c. pmf_CertFile (tmf_Prometheus (df_Telemetry c)),
     \<lambda>c. pmf_ServiceMetricsURL (tmf_Prometheus (df_Telemetry c)),
     \<lambda>c. pmf_ScrapePath (tmf_Prometheus (df_Telemetry c)),
     \<lambda>c. ef_AdminBindAddr (df_Envoy c),
     \<lambda>c. ef_ReadyBindAddr (df_Envoy c),
     \<lambda>c. ef_DrainStrategy (df_Envoy c),
     \<lambda>c. ef_ExecutablePath (df_Envoy c),
     \<lambda>c. ef_GracefulShutdownPath (df_Envoy c),
     \<lambda>c. ef_GracefulAddr (df_Envoy c),
     \<lambda>c. ef_GracefulStartupPath (df_Envoy c)]"

definition int_settings :: "(DataplaneConfigFlags \<Rightarrow> int option) list" where
  "int_settings =
    [\<lambda>c. cf_GRPCPort (df_Consul c),
     \<lambda>c. xf_BindPort (df_XDSServer c),
     \<lambda>c. nf_BindPort (df_DNSServer c),
     \<lambda>c. pmf_MergePort (tmf_Prometheus (df_Telemetry c)),
     \<lambda>c. ef_AdminBindPort (df_Envoy c),
     \<lambda>c. ef_ReadyBindPort (df_Envoy c),
     \<lambda>c. ef_Concurrency (df_Envoy c),
     \<lambda>c. ef_DrainTimeSeconds (df_Envoy c),
     \<lambda>c. ef_ShutdownGracePeriodSeconds (df_Envoy c),
     \<lambda>c. ef_GracefulPort (df_Envoy c),
     \<lambda>c. ef_StartupGracePeriodSeconds (df_Envoy c)]"

definition bool_settings :: "(DataplaneConfigFlags \<Rightarrow> bool option) list" where
  "bool_settings =
    [\<lambda>c. cf_ServerWatchDisabled (df_Consul c),
     \<lambda>c. tf_Disabled (cf_TLS (df_Consul c)),
     \<lambda>c. tf_InsecureSkipVerify (cf_TLS (df_Consul c)),
     \<lambda>c. gf_LogJSON (df_Logging c),
     \<lambda>c. tmf_UseCentralConfig (df_Telemetry c),
     \<lambda>c. ef_ShutdownDrainListenersEnabled (df_Envoy c),
     \<lambda>c. ef_DumpEnvoyConfigOnExitEnabled (df_Envoy c)]"

definition duration_settings :: "(DataplaneConfigFlags \<Rightarrow> int option) list" where
  "duration_settings =
    [\<lambda>c. pmf_RetentionTime (tmf_Prometheus (df_Telemetry c))]"

end
