(* ===== verification/Json_Decode.thy ===== *)
theory Json_Decode
  imports Json_Parser "HOL-Library.Log_Nat"
begin

text \<open>
  Decoding JSON into Go values, the part of \<open>encoding/json\<close> that the program uses: strings with
  invalid UTF-8 replaced, integers, floating point numbers as whole nanoseconds, pointers
  to scalars, maps, and structures whose fields are found by name without regard to case.
  And the printing of a value, which parses back to it. The limit that the library puts on
  the depth of a text is left out.
\<close>

section \<open>Strings\<close>

text \<open>The length of the valid UTF-8 sequence at the start of a string.\<close>

definition byte_in :: "nat \<Rightarrow> nat \<Rightarrow> char \<Rightarrow> bool" where
  "byte_in lo hi c \<longleftrightarrow> lo \<le> (of_char c :: nat) \<and> (of_char c :: nat) \<le> hi"

abbreviation cont :: "char \<Rightarrow> bool" where
  "cont \<equiv> byte_in 0x80 0xBF"

text \<open>The range of the second byte, which depends on the first, and the number of bytes.\<close>

definition lead :: "char \<Rightarrow> (nat \<times> nat \<times> nat) option" where
  "lead c =
     (if byte_in 0xC2 0xDF c then Some (2, 0x80, 0xBF)
      else if byte_in 0xE0 0xE0 c then Some (3, 0xA0, 0xBF)
      else if byte_in 0xED 0xED c then Some (3, 0x80, 0x9F)
      else if byte_in 0xE1 0xEF c then Some (3, 0x80, 0xBF)
      else if byte_in 0xF0 0xF0 c then Some (4, 0x90, 0xBF)
      else if byte_in 0xF1 0xF3 c then Some (4, 0x80, 0xBF)
      else if byte_in 0xF4 0xF4 c then Some (4, 0x80, 0x8F)
      else None)"

definition rune_len :: "string \<Rightarrow> nat option" where
  "rune_len s =
     (case s of
        [] \<Rightarrow> None
      | c # t \<Rightarrow>
          if byte_in 0 0x7F c then Some 1
          else (case lead c of
                  None \<Rightarrow> None
                | Some (n, lo, hi) \<Rightarrow>
                    if n \<le> length s \<and> byte_in lo hi (hd t) \<and> list_all cont (take (n - 2) (tl t)) then Some n else None))"

lemma rune_len_bounds: "rune_len s = Some n \<Longrightarrow> 0 < n \<and> n \<le> length s"
  by (auto simp: rune_len_def lead_def split: list.split_asm if_split_asm)

text \<open>Every byte that does not start a valid sequence becomes the replacement character.\<close>

function coerce_utf8 :: "string \<Rightarrow> string" where
  "coerce_utf8 s =
     (if s = [] then []
      else case rune_len s of
        Some n \<Rightarrow> take n s @ coerce_utf8 (drop n s)
      | None \<Rightarrow> utf8 0xFFFD @ coerce_utf8 (tl s))"
  by pat_completeness auto
termination
  by (relation "measure length") (auto dest: rune_len_bounds)

declare coerce_utf8.simps [simp del]

definition valid_utf8 :: "string \<Rightarrow> bool" where
  "valid_utf8 s \<longleftrightarrow> coerce_utf8 s = s"

definition ascii :: "string \<Rightarrow> bool" where
  "ascii s \<longleftrightarrow> list_all (byte_in 0 0x7F) s"

lemma coerce_ascii [simp]: "byte_in 0 0x7F c \<Longrightarrow> coerce_utf8 (c # s) = c # coerce_utf8 s"
  by (simp add: coerce_utf8.simps [of "c # s"] rune_len_def)

lemma coerce_Nil [simp]: "coerce_utf8 [] = []"
  by (simp add: coerce_utf8.simps)

lemma ascii_valid: "ascii s \<Longrightarrow> valid_utf8 s"
  by (induction s) (simp_all add: ascii_def valid_utf8_def)

section \<open>Numbers\<close>

text \<open>
  A number as a fraction, its nearest float64 (ties to even) and the integer part of that. A
  number too large for a float64 is an error; one too large for an int64 converts to
  whatever the platform gives, \<open>oob\<close>.
\<close>

definition num_fraction :: "string \<Rightarrow> bool \<times> nat \<times> nat" where
  "num_fraction s =
     (let neg = (s \<noteq> [] \<and> hd s = CHR ''-''); t = (if neg then tl s else s);
          ip = takeWhile is_digit t; r = dropWhile is_digit t;
          dot = (r \<noteq> [] \<and> hd r = CHR ''.'');
          fp = (if dot then takeWhile is_digit (tl r) else []);
          x = (if dot then dropWhile is_digit (tl r) else r);
          xneg = (x \<noteq> [] \<and> tl x \<noteq> [] \<and> hd (tl x) = CHR ''-'');
          xd = int (digits_val (dropWhile (\<lambda>c. \<not> is_digit c) x));
          e = (if xneg then - xd else xd) - int (length fp)
      in (neg, digits_val (ip @ fp) * 10 ^ nat e, 10 ^ nat (- e)))"

definition round_even :: "nat \<Rightarrow> nat \<Rightarrow> nat" where
  "round_even n d =
     (let q = n div d; r = n mod d in if 2 * r < d \<or> (2 * r = d \<and> even q) then q else q + 1)"

definition trunc_float64 :: "nat \<Rightarrow> nat \<Rightarrow> nat" where
  "trunc_float64 n d =
     (if n = 0 then 0
      else
        (let e0 = int (floorlog 2 n) - int (floorlog 2 d) - 53;
             e = (if d * 2 ^ nat e0 * 2 ^ 53 \<le> n * 2 ^ nat (- e0) then e0 + 1 else e0);
             m = round_even (n * 2 ^ nat (- e)) (d * 2 ^ nat e)
         in m * 2 ^ nat e div 2 ^ nat (- e)))"

definition float_to_int64 :: "(string \<Rightarrow> int) \<Rightarrow> string \<Rightarrow> int result" where
  "float_to_int64 oob s =
     (case num_fraction s of (neg, n, d) \<Rightarrow>
        let v = int (trunc_float64 n d); w = (if neg then - v else v) in
        if 2 ^ 1024 \<le> v then Inl (Err ''json: cannot unmarshal number'')
        else if - (2 ^ 63) \<le> w \<and> w < 2 ^ 63 then Inr w else Inr (oob s))"

section \<open>Decoders\<close>

definition type_error :: "'a result" where
  "type_error = Inl (Err ''json: cannot unmarshal value into Go value'')"

text \<open>What decoding a value does to the variable it is decoded into.\<close>

type_synonym 's decoder = "json \<Rightarrow> 's \<Rightarrow> 's result"

fun as_string :: "json \<Rightarrow> string result" where
  "as_string (JStr s) = Inr (coerce_utf8 s)"
| "as_string _ = type_error"

fun as_int :: "json \<Rightarrow> int result" where
  "as_int (JNum t) = (case Atoi t of Inl _ \<Rightarrow> type_error | Inr n \<Rightarrow> Inr n)"
| "as_int _ = type_error"

fun as_bool :: "json \<Rightarrow> bool result" where
  "as_bool (JBool b) = Inr b"
| "as_bool _ = type_error"

text \<open>A pointer: null makes it nil, any other value is decoded into a fresh variable.\<close>

definition ptr_field :: "(json \<Rightarrow> 'a result) \<Rightarrow> ('a option \<Rightarrow> 's \<Rightarrow> 's) \<Rightarrow> 's decoder" where
  "ptr_field conv upd v s =
     (if v = JNull then Inr (upd None s) else map_sum id (\<lambda>x. upd (Some x) s) (conv v))"

text \<open>A string that is not a pointer: null leaves it.\<close>

definition plain_field :: "(json \<Rightarrow> 'a result) \<Rightarrow> ('a \<Rightarrow> 's \<Rightarrow> 's) \<Rightarrow> 's decoder" where
  "plain_field conv upd v s = (if v = JNull then Inr s else map_sum id (\<lambda>x. upd x s) (conv v))"

text \<open>A map of strings: its members are added to the map that is there; null makes it nil.\<close>

fun add_strings :: "(string \<times> json) list \<Rightarrow> (string \<rightharpoonup> string) \<Rightarrow> (string \<rightharpoonup> string) result" where
  "add_strings [] mp = Inr mp"
| "add_strings ((k, v) # ms) mp =
     (if v = JNull then add_strings ms (mp(coerce_utf8 k \<mapsto> []))
      else case as_string v of Inl e \<Rightarrow> Inl e | Inr x \<Rightarrow> add_strings ms (mp(coerce_utf8 k \<mapsto> x)))"

definition map_field :: "('s \<Rightarrow> (string \<rightharpoonup> string) option) \<Rightarrow> ((string \<rightharpoonup> string) option \<Rightarrow> 's \<Rightarrow> 's) \<Rightarrow> 's decoder" where
  "map_field get upd v s =
     (case v of
        JNull \<Rightarrow> Inr (upd None s)
      | JObj ms \<Rightarrow> map_sum id (\<lambda>mp. upd (Some mp) s) (add_strings ms (case get s of None \<Rightarrow> Map.empty | Some mp \<Rightarrow> mp))
      | _ \<Rightarrow> type_error)"

text \<open>
  The fields of a structure by name. A key matches exactly, or else up to case; to the
  letters K and S the Kelvin sign and the long s count as equal.
\<close>

fun fold_name :: "string \<Rightarrow> string" where
  "fold_name [] = []"
| "fold_name (c # s) =
     (if c = CHR 0xE2 \<and> take 2 s = [CHR 0x84, CHR 0xAA] then CHR ''K'' # fold_name (drop 2 s)
      else if c = CHR 0xC5 \<and> take 1 s = [CHR 0xBF] then CHR ''S'' # fold_name (drop 1 s)
      else upper_char c # fold_name s)"

definition find_field :: "(string \<times> 'a) list \<Rightarrow> string \<Rightarrow> 'a option" where
  "find_field fs k =
     (case map_of fs k of
        Some d \<Rightarrow> Some d
      | None \<Rightarrow> map_of (map (apfst fold_name) fs) (fold_name k))"

fun decode_members :: "(string \<times> 's decoder) list \<Rightarrow> (string \<times> json) list \<Rightarrow> 's \<Rightarrow> 's result" where
  "decode_members fs [] s = Inr s"
| "decode_members fs ((k, v) # ms) s =
     (case find_field fs (coerce_utf8 k) of
        None \<Rightarrow> decode_members fs ms s
      | Some d \<Rightarrow> (case d v s of Inl e \<Rightarrow> Inl e | Inr s' \<Rightarrow> decode_members fs ms s'))"

definition decode_struct :: "(string \<times> 's decoder) list \<Rightarrow> 's decoder" where
  "decode_struct fs v s =
     (case v of JNull \<Rightarrow> Inr s | JObj ms \<Rightarrow> decode_members fs ms s | _ \<Rightarrow> type_error)"

text \<open>A structure inside a structure is decoded in place.\<close>

definition struct_field :: "('s \<Rightarrow> 't) \<Rightarrow> ('t \<Rightarrow> 's \<Rightarrow> 's) \<Rightarrow> 't decoder \<Rightarrow> 's decoder" where
  "struct_field get upd d v s = map_sum id (\<lambda>x. upd x s) (d v (get s))"

section \<open>Which values decode\<close>

text \<open>Whether a decoder accepts a value depends on the value only.\<close>

definition accepts :: "'s decoder \<Rightarrow> (json \<Rightarrow> bool) \<Rightarrow> bool" where
  "accepts d P \<longleftrightarrow> (\<forall>v s. (\<exists>s'. d v s = Inr s') \<longleftrightarrow> P v)"

definition null_or :: "(json \<Rightarrow> bool) \<Rightarrow> json \<Rightarrow> bool" where
  "null_or P v \<longleftrightarrow> v = JNull \<or> P v"

fun is_str :: "json \<Rightarrow> bool" where
  "is_str (JStr s) \<longleftrightarrow> True" | "is_str _ \<longleftrightarrow> False"

fun is_bool :: "json \<Rightarrow> bool" where
  "is_bool (JBool b) \<longleftrightarrow> True" | "is_bool _ \<longleftrightarrow> False"

fun is_int :: "json \<Rightarrow> bool" where
  "is_int (JNum t) \<longleftrightarrow> (case Atoi t of Inl _ \<Rightarrow> False | Inr _ \<Rightarrow> True)" | "is_int _ \<longleftrightarrow> False"

fun is_string_map :: "json \<Rightarrow> bool" where
  "is_string_map (JObj ms) \<longleftrightarrow> list_all (null_or is_str) (map snd ms)" | "is_string_map _ \<longleftrightarrow> False"

fun is_struct :: "(string \<times> (json \<Rightarrow> bool)) list \<Rightarrow> json \<Rightarrow> bool" where
  "is_struct fs (JObj ms) \<longleftrightarrow> list_all (\<lambda>(k, v). case find_field fs (coerce_utf8 k) of None \<Rightarrow> True | Some P \<Rightarrow> P v) ms"
| "is_struct fs _ \<longleftrightarrow> False"

lemma map_sum_Inr [simp]: "map_sum id f r = Inr y \<longleftrightarrow> (\<exists>x. r = Inr x \<and> y = f x)"
  by (cases r) auto

lemma as_string_Inr [simp]: "(\<exists>x. as_string v = Inr x) \<longleftrightarrow> is_str v"
  by (cases v) (simp_all add: type_error_def)

lemma as_bool_Inr [simp]: "(\<exists>x. as_bool v = Inr x) \<longleftrightarrow> is_bool v"
  by (cases v) (simp_all add: type_error_def)

lemma as_int_Inr [simp]: "(\<exists>x. as_int v = Inr x) \<longleftrightarrow> is_int v"
  by (cases v) (simp_all add: type_error_def split: sum.split)

lemma accepts_ptr:
  "(\<And>v. (\<exists>x. conv v = Inr x) \<longleftrightarrow> P v) \<Longrightarrow> accepts (ptr_field conv upd) (null_or P)"
  by (auto simp: accepts_def ptr_field_def null_or_def)

lemma accepts_plain:
  "(\<And>v. (\<exists>x. conv v = Inr x) \<longleftrightarrow> P v) \<Longrightarrow> accepts (plain_field conv upd) (null_or P)"
  by (auto simp: accepts_def plain_field_def null_or_def)

lemma null_or_simps [simp]: "null_or P JNull" "v \<noteq> JNull \<Longrightarrow> null_or P v \<longleftrightarrow> P v"
  by (simp_all add: null_or_def)

lemma add_strings_Inr: "(\<exists>x. add_strings ms mp = Inr x) \<longleftrightarrow> list_all (null_or is_str) (map snd ms)"
proof (induction ms arbitrary: mp)
  case (Cons m ms)
  obtain k v where m: "m = (k, v)" by fastforce
  show ?case
  proof (cases "v = JNull")
    case True
    with Cons m show ?thesis by simp
  next
    case False
    with Cons m as_string_Inr [of v] show ?thesis by (cases "as_string v") auto
  qed
qed simp

lemma accepts_map: "accepts (map_field get upd) (null_or is_string_map)"
  unfolding accepts_def
proof (intro allI)
  fix v s
  show "(\<exists>s'. map_field get upd v s = Inr s') \<longleftrightarrow> null_or is_string_map v"
    using add_strings_Inr by (cases v) (simp_all add: map_field_def type_error_def)
qed

text \<open>Two tables of fields with the same names, the second with what each field accepts.\<close>

definition accepts_fields :: "(string \<times> 's decoder) list \<Rightarrow> (string \<times> (json \<Rightarrow> bool)) list \<Rightarrow> bool" where
  "accepts_fields fs ps \<longleftrightarrow> list_all2 (\<lambda>f p. fst f = fst p \<and> accepts (snd f) (snd p)) fs ps"

lemma map_of_accepts:
  "accepts_fields fs ps \<Longrightarrow> rel_option accepts (map_of (map (apfst g) fs) k) (map_of (map (apfst g) ps) k)"
  unfolding accepts_fields_def by (induction rule: list_all2_induct) auto

lemma find_field_accepts:
  assumes "accepts_fields fs ps"
  shows "rel_option accepts (find_field fs k) (find_field ps k)"
  using map_of_accepts [OF assms, of fold_name "fold_name k"] map_of_accepts [OF assms, of id k]
  by (auto simp: find_field_def apfst_def map_prod.id elim!: option.rel_cases split: option.split)

lemma decode_members_Inr:
  assumes "accepts_fields fs ps"
  shows "(\<exists>x. decode_members fs ms s = Inr x) \<longleftrightarrow> is_struct ps (JObj ms)"
proof (induction ms arbitrary: s)
  case (Cons m ms)
  obtain k v where m: "m = (k, v)" by fastforce
  have "rel_option accepts (find_field fs (coerce_utf8 k)) (find_field ps (coerce_utf8 k))"
    by (rule find_field_accepts [OF assms])
  then show ?case
  proof cases
    case None
    with Cons m show ?thesis by simp
  next
    case (Some d P)
    then have "(\<exists>s'. d v s = Inr s') \<longleftrightarrow> P v" by (simp add: accepts_def)
    with Some Cons m show ?thesis by (cases "d v s") auto
  qed
qed simp

lemma accepts_struct: "accepts_fields fs ps \<Longrightarrow> accepts (decode_struct fs) (null_or (is_struct ps))"
  using decode_members_Inr [of fs ps] unfolding accepts_def decode_struct_def null_or_def
  by (auto split: json.split simp: type_error_def)

lemma accepts_struct_field: "accepts d P \<Longrightarrow> accepts (struct_field get upd d) P"
  by (simp add: accepts_def struct_field_def)

lemma accepts_fields_Nil [simp]: "accepts_fields [] []"
  by (simp add: accepts_fields_def)

lemma accepts_fields_Cons [simp]:
  "accepts_fields ((n, d) # fs) ((k, P) # ps) \<longleftrightarrow> n = k \<and> accepts d P \<and> accepts_fields fs ps"
  by (simp add: accepts_fields_def)

lemmas accepts_rules = accepts_ptr accepts_plain accepts_map accepts_struct accepts_struct_field

section \<open>Printing\<close>

text \<open>Quotes and backslashes are escaped with a backslash, control characters by their code.\<close>

definition hex_digit :: "nat \<Rightarrow> char" where
  "hex_digit n = char_of (if n < 10 then 48 + n else 87 + n)"

definition print_char :: "char \<Rightarrow> string" where
  "print_char c =
     (if c = CHR 0x22 \<or> c = CHR 0x5C then [CHR 0x5C, c]
      else if (of_char c :: nat) < 32
      then [CHR 0x5C, CHR ''u'', CHR ''0'', CHR ''0'', hex_digit (of_char c div 16), hex_digit (of_char c mod 16)]
      else [c])"

definition print_string :: "string \<Rightarrow> string" where
  "print_string s = quote (concat (map print_char s))"

primrec print_json :: "json \<Rightarrow> string" where
  "print_json JNull = ''null''"
| "print_json (JBool b) = (if b then ''true'' else ''false'')"
| "print_json (JNum t) = t"
| "print_json (JStr s) = print_string s"
| "print_json (JArr vs) = arr (map print_json vs)"
| "print_json (JObj ms) = CHR ''{'' # Join (map (\<lambda>(k, t). print_string k @ CHR '':'' # t) (map (map_prod id print_json) ms)) '','' @ [CHR ''}'']"

text \<open>Values whose numbers are numbers.\<close>

primrec wf_json :: "json \<Rightarrow> bool" where
  "wf_json JNull \<longleftrightarrow> True"
| "wf_json (JBool b) \<longleftrightarrow> True"
| "wf_json (JNum t) \<longleftrightarrow> number_text t"
| "wf_json (JStr s) \<longleftrightarrow> True"
| "wf_json (JArr vs) \<longleftrightarrow> list_all id (map wf_json vs)"
| "wf_json (JObj ms) \<longleftrightarrow> list_all snd (map (map_prod id wf_json) ms)"

lemma hex_digit_val: "n < 16 \<Longrightarrow> hex_val (hex_digit n) = Some n"
  by (auto simp: hex_val_def hex_digit_def of_char_of Let_def)

lemma print_char_body: "string_body s v \<Longrightarrow> string_body (print_char c @ s) (c # v)"
proof -
  assume b: "string_body s v"
  consider "c = CHR 0x22 \<or> c = CHR 0x5C" | "c \<noteq> CHR 0x22" "c \<noteq> CHR 0x5C" "(of_char c :: nat) < 32" | "plain_char c"
    unfolding plain_char_def by (meson not_le)
  then show ?thesis
  proof cases
    case 1
    with b body_escape [of c c s v] show ?thesis by (auto simp: print_char_def)
  next
    case 2
    let ?n = "of_char c :: nat"
    have "hex_val CHR ''0'' = Some 0" by (simp add: hex_val_def)
    moreover have "?n div 16 * 16 + ?n mod 16 = ?n" by simp
    ultimately have "hex4 CHR ''0'' CHR ''0'' (hex_digit (?n div 16)) (hex_digit (?n mod 16)) = Some ?n"
      using 2(3) by (simp add: hex4_def hex_digit_val)
    with 2 have "read_unicode (print_char c @ s) = Some ([c], s)"
      by (simp add: print_char_def read_unicode_def utf8_def)
    with b body_unicode [of "print_char c @ s" "[c]" s v] show ?thesis by simp
  next
    case 3
    with b body_plain [of c s v] show ?thesis by (auto simp: print_char_def plain_char_def)
  qed
qed

lemma print_string_body: "string_body (concat (map print_char s)) s"
  by (induction s) (auto intro: body_Nil print_char_body)

lemma denotes_print_string: "denotes (print_string s) (JStr s)"
  unfolding print_string_def quote_def by (intro d_str print_string_body)

lemma print_members:
  "list_all (\<lambda>(k, v). denotes (f v) v) ms \<Longrightarrow> ms \<noteq> [] \<Longrightarrow>
   denotes_members (Join (map (\<lambda>(k, t). print_string k @ CHR '':'' # t) (map (map_prod id f) ms)) '','') ms"
proof (induction ms)
  case (Cons m ms)
  obtain k v where m: "m = (k, v)" by fastforce
  let ?k = "concat (map print_char k)"
  have k: "string_body ?k k" and v: "denotes (f v) v" using Cons.prems m by (auto intro: print_string_body)
  have one: "print_string k @ CHR '':'' # t = CHR 0x22 # ?k @ CHR 0x22 # CHR '':'' # t" for t
    by (simp add: print_string_def quote_def)
  show ?case
  proof (cases ms)
    case Nil
    with m k v m_one [of "[]" ?k k "[]" "[]" "f v" v "[]"] show ?thesis by (simp add: one)
  next
    case c: (Cons x xs)
    let ?r = "Join (map (\<lambda>(k, t). print_string k @ CHR '':'' # t) (map (map_prod id f) ms)) '',''"
    have "Join (map (\<lambda>(k, t). print_string k @ CHR '':'' # t) (map (map_prod id f) (m # ms))) '','' = (print_string k @ CHR '':'' # f v) @ CHR '','' # ?r"
      using m c by simp
    moreover have "denotes_members ?r ms" by (rule Cons.IH) (use Cons.prems(1) c in simp_all)
    ultimately show ?thesis using m m_more [of "[]" ?k k "[]" "[]" "f v" v "[]" ?r ms] k v by (simp only: one) simp
  qed
qed simp

lemma denotes_print: "wf_json v \<Longrightarrow> denotes (print_json v) v"
proof (induction v)
  case (JArr vs)
  then have "\<forall>x \<in> set vs. denotes (print_json x) x" by (auto simp: list_all_iff)
  then have "list_all2 denotes (map print_json vs) vs" by (simp add: list_all2_map1 list_all2_same)
  then show ?case by (simp add: denotes_arr)
next
  case (JObj ms)
  show ?case
  proof (cases "ms = []")
    case True
    then show ?thesis using d_obj_empty [of "[]"] by simp
  next
    case False
    have "list_all (\<lambda>(k, v). denotes (print_json v) v) ms" using JObj by (auto simp: list_all_iff)
    from d_obj [OF print_members [OF this False]] show ?thesis by simp
  qed
qed (auto intro: denotes_print_string d_null d_true d_false d_num)

lemma parse_print: "wf_json v \<Longrightarrow> parse_json (print_json v) = Some v"
  using parse_json_complete [OF denotes_print, of v "[]" "[]"] by simp

end
