(* ===== verification/Flags_Env.thy ===== *)
theory Flags_Env
  imports Json_Decode
begin

text \<open>
  How settings are read from the command line and the environment:
  \<open>cmd/consul-dataplane/flags.go\<close>, \<open>env.go\<close>, \<open>map_flag.go\<close> and \<open>duration.go\<close>, with the
  parts of Go's \<open>flag\<close> and \<open>time\<close> packages they rest on. A flag of pointer type is an
  option; setting it parses a string. The environment is a function from names to values.
\<close>

section \<open>Durations\<close>

text \<open>
  \<open>time.ParseDuration\<close>: a sign, then numbers with units. The fraction is truncated to
  nanoseconds; it is exact here, where the library multiplies with float64, which differs at most
  for fractions of more digits than nanoseconds have.
\<close>

definition unit_ns :: "string \<Rightarrow> int option" where
  "unit_ns u =
     (if u = ''ns'' then Some 1
      else if u = ''us'' \<or> u = [CHR 0xC2, CHR 0xB5, CHR ''s''] \<or> u = [CHR 0xCE, CHR 0xBC, CHR ''s''] then Some 1000
      else if u = ''ms'' then Some 1000000
      else if u = ''s'' then Some 1000000000
      else if u = ''m'' then Some 60000000000
      else if u = ''h'' then Some 3600000000000
      else None)"

definition invalid_duration :: "'a result" where
  "invalid_duration = Inl (Err ''time: invalid duration'')"

text \<open>One number with its unit: its value, and the rest of the string.\<close>

definition duration_term :: "string \<Rightarrow> (int \<times> string) result" where
  "duration_term s =
     (let ip = takeWhile is_digit s; s1 = drop (length ip) s;
          dot = (s1 \<noteq> [] \<and> hd s1 = CHR ''.'');
          fp = (if dot then takeWhile is_digit (tl s1) else []);
          s2 = (if dot then drop (length fp) (tl s1) else s1);
          u = takeWhile (\<lambda>c. c \<noteq> CHR ''.'' \<and> \<not> is_digit c) s2
      in if ip = [] \<and> fp = [] \<or> u = [] then invalid_duration
         else case unit_ns u of
           None \<Rightarrow> invalid_duration
         | Some n \<Rightarrow>
             (let v = int (digits_val ip) * n + int (digits_val fp) * n div 10 ^ length fp
              in if v > 2 ^ 63 then invalid_duration else Inr (v, drop (length u) s2)))"

lemma duration_term_shorter:
  assumes "duration_term s = Inr (v, rest)"
  shows "length rest < length s"
proof -
  define ip where "ip = takeWhile is_digit s"
  define s1 where "s1 = drop (length ip) s"
  define dot where "dot = (s1 \<noteq> [] \<and> hd s1 = CHR ''.'')"
  define fp where "fp = (if dot then takeWhile is_digit (tl s1) else [])"
  define s2 where "s2 = (if dot then drop (length fp) (tl s1) else s1)"
  define u where "u = takeWhile (\<lambda>c. c \<noteq> CHR ''.'' \<and> \<not> is_digit c) s2"
  have "u \<noteq> []" "rest = drop (length u) s2"
    using assms [unfolded duration_term_def Let_def, folded ip_def, folded s1_def, folded dot_def, folded fp_def,
        folded s2_def, folded u_def]
    by (simp_all add: invalid_duration_def split: if_split_asm option.split_asm)
  moreover have "length u \<le> length s2" unfolding u_def by (rule length_takeWhile_le)
  moreover have "length s2 \<le> length s" by (auto simp: s2_def s1_def)
  ultimately show ?thesis by (cases u) auto
qed

function duration_terms :: "int \<Rightarrow> string \<Rightarrow> int result" where
  "duration_terms d s =
     (if s = [] then Inr d
      else case duration_term s of
        Inl e \<Rightarrow> Inl e
      | Inr (v, rest) \<Rightarrow> if d + v > 2 ^ 63 then invalid_duration else duration_terms (d + v) rest)"
  by pat_completeness auto
termination
  by (relation "measure (\<lambda>(d, s). length s)") (auto dest: duration_term_shorter)

declare duration_terms.simps [simp del]

definition ParseDuration :: "string \<Rightarrow> int result" where
  "ParseDuration s0 =
     (let neg = (s0 \<noteq> [] \<and> hd s0 = CHR ''-'');
          s = (if s0 \<noteq> [] \<and> hd s0 \<in> {CHR ''-'', CHR ''+''} then tl s0 else s0)
      in if s = ''0'' then Inr 0
         else if s = [] then invalid_duration
         else case duration_terms 0 s of
           Inl e \<Rightarrow> Inl e
         | Inr d \<Rightarrow> if neg then Inr (- d) else if d > 2 ^ 63 - 1 then invalid_duration else Inr d)"

text \<open>
  \<open>time.Duration.String\<close>: hours, minutes and seconds, or a single smaller unit below a second. \<open>fmtFrac\<close>
  writes the last digits of a number as a fraction without trailing zeros and returns
  the rest of the number.
\<close>

fun fmtFrac :: "nat \<Rightarrow> nat \<Rightarrow> bool \<Rightarrow> string \<Rightarrow> string \<times> nat" where
  "fmtFrac 0 v print buf = (if print then CHR ''.'' # buf else buf, v)"
| "fmtFrac (Suc prec) v print buf =
     (let digit = v mod 10; print' = (print \<or> digit \<noteq> 0)
      in fmtFrac prec (v div 10) print' (if print' then char_of (48 + digit) # buf else buf))"

definition unsigned_duration :: "nat \<Rightarrow> string" where
  "unsigned_duration u =
     (let small = (\<lambda>prec unit. case fmtFrac prec u False unit of (buf, v) \<Rightarrow> nat_digits v @ buf) in
      if u = 0 then ''0s''
      else if u < 1000 then small 0 ''ns''
      else if u < 1000000 then small 3 [CHR 0xC2, CHR 0xB5, CHR ''s'']
      else if u < 1000000000 then small 6 ''ms''
      else
        (case fmtFrac 9 u False ''s'' of (buf, secs) \<Rightarrow>
           let s = nat_digits (secs mod 60) @ buf; mins = secs div 60 in
           if mins = 0 then s
           else (let m = nat_digits (mins mod 60) @ ''m'' @ s; hours = mins div 60 in
                 if hours = 0 then m else nat_digits hours @ ''h'' @ m)))"

definition Duration_String :: "int \<Rightarrow> string" where
  "Duration_String d = (if d < 0 then CHR ''-'' # unsigned_duration (nat (- d)) else unsigned_duration (nat d))"

text \<open>
  The switch of \<open>Duration.UnmarshalJSON\<close> on what the JSON decodes to, a number of nanoseconds or a text. And
  the method itself, which gets the JSON as text; when the decoder calls it for a field, that
  text is the one of the value it stands at.
\<close>

fun duration_of_json :: "(string \<Rightarrow> int) \<Rightarrow> json \<Rightarrow> int result" where
  "duration_of_json oob (JNum t) = float_to_int64 oob t"
| "duration_of_json oob (JStr s) = ParseDuration (coerce_utf8 s)"
| "duration_of_json oob _ = Inl (Err ''invalid duration'')"

definition UnmarshalJSON :: "(string \<Rightarrow> int) \<Rightarrow> string \<Rightarrow> int result" where
  "UnmarshalJSON oob b =
     (case parse_json b of None \<Rightarrow> Inl (Err ''invalid JSON'') | Some v \<Rightarrow> duration_of_json oob v)"

section \<open>Flag values\<close>

text \<open>
  The four pointer-valued flag types: the pointer they store into and whether \<open>Set\<close> was
  called. \<open>Get\<close> and \<open>String\<close> only look at the pointer after \<open>Set\<close>.
\<close>

record 'a ptr_value =
  pv_v :: "'a option"
  pv_b :: bool

definition newPtrValue :: "'a option \<Rightarrow> 'a ptr_value" where
  "newPtrValue p = \<lparr>pv_v = p, pv_b = False\<rparr>"

definition set_ptr :: "(string \<Rightarrow> 'a result) \<Rightarrow> string \<Rightarrow> 'a ptr_value \<Rightarrow> go_error option \<times> 'a ptr_value" where
  "set_ptr parse val s =
     (case parse val of Inl e \<Rightarrow> (Some e, s) | Inr n \<Rightarrow> (None, \<lparr>pv_v = Some n, pv_b = True\<rparr>))"

definition stringPtrValue_Set :: "string \<Rightarrow> string ptr_value \<Rightarrow> go_error option \<times> string ptr_value" where
  "stringPtrValue_Set = set_ptr Inr"
definition intPtrValue_Set :: "string \<Rightarrow> int ptr_value \<Rightarrow> go_error option \<times> int ptr_value" where
  "intPtrValue_Set = set_ptr Atoi"
definition boolPtrValue_Set :: "string \<Rightarrow> bool ptr_value \<Rightarrow> go_error option \<times> bool ptr_value" where
  "boolPtrValue_Set = set_ptr ParseBool"
definition durationPtrValue_Set :: "string \<Rightarrow> int ptr_value \<Rightarrow> go_error option \<times> int ptr_value" where
  "durationPtrValue_Set = set_ptr ParseDuration"

definition ptr_Get :: "'a ptr_value \<Rightarrow> 'a option" where
  "ptr_Get s = (if pv_b s then pv_v s else None)"

definition ptr_String :: "('a \<Rightarrow> string) \<Rightarrow> 'a ptr_value \<Rightarrow> string outcome" where
  "ptr_String fmt s = (if pv_b s then bind_outcome (deref (pv_v s)) (\<lambda>x. Ok (fmt x)) else Ok [])"

definition FormatBool :: "bool \<Rightarrow> string" where
  "FormatBool b = (if b then ''true'' else ''false'')"

definition stringPtrValue_String :: "string ptr_value \<Rightarrow> string outcome" where
  "stringPtrValue_String = ptr_String id"
definition intPtrValue_String :: "int ptr_value \<Rightarrow> string outcome" where
  "intPtrValue_String = ptr_String Itoa"
definition boolPtrValue_String :: "bool ptr_value \<Rightarrow> string outcome" where
  "boolPtrValue_String = ptr_String FormatBool"

definition durationPtrValue_String :: "int ptr_value \<Rightarrow> string outcome" where
  "durationPtrValue_String = ptr_String Duration_String"

text \<open>The values behind pointers, with the zero value for nil.\<close>

definition stringVal :: "string option \<Rightarrow> string" where "stringVal s = (case s of None \<Rightarrow> [] | Some v \<Rightarrow> v)"
definition intVal :: "int option \<Rightarrow> int" where "intVal v = (case v of None \<Rightarrow> 0 | Some n \<Rightarrow> n)"
definition boolVal :: "bool option \<Rightarrow> bool" where "boolVal v = (case v of None \<Rightarrow> False | Some b \<Rightarrow> b)"
definition durationVal :: "int option \<Rightarrow> int" where "durationVal t = (case t of None \<Rightarrow> 0 | Some d \<Rightarrow> d)"

text \<open>A map flag: \<open>key=value\<close>, split at the first equals sign; a nil map is made first.\<close>

definition FlagMapValue_Set :: "string \<Rightarrow> (string \<rightharpoonup> string) option \<Rightarrow> (string \<rightharpoonup> string) option result" where
  "FlagMapValue_Set value h =
     (case index_of value CHR ''='' of
        None \<Rightarrow> Inl (Err (''Missing \"=\" value in argument: '' @ value))
      | Some idx \<Rightarrow>
          (let headers = (case h of None \<Rightarrow> Map.empty | Some mp \<Rightarrow> mp)
           in Inr (Some (headers(take idx value \<mapsto> drop (Suc idx) value)))))"

section \<open>The environment\<close>

type_synonym environ = "string \<Rightarrow> string option"

definition asString :: "string \<Rightarrow> string option result" where
  "asString s = (if s = [] then Inr None else Inr (Some s))"
definition asInt :: "string \<Rightarrow> int option result" where
  "asInt s = (if s = [] then Inr None else map_sum id Some (Atoi s))"
definition asBool :: "string \<Rightarrow> bool option result" where
  "asBool s = (if s = [] then Inr None else map_sum id Some (ParseBool s))"
definition asDuration :: "string \<Rightarrow> int option result" where
  "asDuration s = (if s = [] then Inr None else map_sum id Some (ParseDuration s))"

definition parseEnvError :: "environ \<Rightarrow> string \<Rightarrow> (string \<Rightarrow> 'a option result) \<Rightarrow> 'a option result" where
  "parseEnvError env name parseFn =
     (case env name of
        None \<Rightarrow> Inr None
      | Some valStr \<Rightarrow>
          (case parseFn valStr of
             Inl e \<Rightarrow> Inl (Err (''unable to parse environment variable '' @ name @ ''='' @ valStr))
           | Inr valT \<Rightarrow> Inr valT))"

definition parseEnv :: "environ \<Rightarrow> string \<Rightarrow> (string \<Rightarrow> 'a option result) \<Rightarrow> 'a option outcome" where
  "parseEnv env name parseFn =
     (case parseEnvError env name parseFn of Inl (Err e) \<Rightarrow> Fatal e | Inl (Wrap e _) \<Rightarrow> Fatal e | Inr v \<Rightarrow> Ok v)"

text \<open>The numbered variables of a map flag that are set and not empty, in order of their number.\<close>

definition multiValueEnv :: "environ \<Rightarrow> string \<Rightarrow> (string \<times> string) list" where
  "multiValueEnv env baseName =
     List.map_filter (\<lambda>i. let name = baseName @ Itoa i in
         case env name of None \<Rightarrow> None | Some val \<Rightarrow> if val = [] then None else Some (name, val))
       [1..9]"

section \<open>Parsing the command line\<close>

text \<open>
  A flag set as \<open>flag.FlagSet\<close> sees it: by name, is it boolean, and how setting it to a
  string changes the state \<open>'c\<close> behind it.
\<close>

type_synonym 'c flag_set = "string \<rightharpoonup> (bool \<times> (string \<Rightarrow> 'c \<Rightarrow> 'c result))"

text \<open>\<open>FlagSet.parseOne\<close>: no more flags (with the remaining arguments), or the flag's name and its value if it has one.\<close>

datatype parsed = NoMore "string list" | FlagArg string "string option" | BadFlag go_error

definition split_flag :: "string list \<Rightarrow> parsed" where
  "split_flag args =
     (case args of
        [] \<Rightarrow> NoMore []
      | s # rest \<Rightarrow>
          if length s < 2 \<or> hd s \<noteq> CHR ''-'' then NoMore args
          else if s = ''--'' then NoMore rest
          else
            (let name = (if s ! 1 = CHR ''-'' then drop 2 s else drop 1 s) in
             if name = [] \<or> hd name = CHR ''-'' \<or> hd name = CHR ''='' then BadFlag (Err (''bad flag syntax: '' @ s))
             else case index_of name CHR ''='' of
               None \<Rightarrow> FlagArg name None
             | Some i \<Rightarrow> FlagArg (take i name) (Some (drop (Suc i) name))))"

definition set_flag :: "string \<Rightarrow> (string \<Rightarrow> 'c \<Rightarrow> 'c result) \<Rightarrow> string \<Rightarrow> 'c \<Rightarrow> 'c result" where
  "set_flag name setf v c =
     (case setf v c of Inl e \<Rightarrow> Inl (Wrap (''invalid value for flag -'' @ name) e) | Inr c' \<Rightarrow> Inr c')"

text \<open>\<open>FlagSet.Parse\<close>: the state after all flags and the remaining arguments.\<close>

fun Parse :: "'c flag_set \<Rightarrow> string list \<Rightarrow> 'c \<Rightarrow> ('c \<times> string list) result" where
  "Parse fs [] c = Inr (c, [])"
| "Parse fs (a # rest) c =
     (case split_flag (a # rest) of
        NoMore args \<Rightarrow> Inr (c, args)
      | BadFlag e \<Rightarrow> Inl e
      | FlagArg name val \<Rightarrow>
          (case fs name of
             None \<Rightarrow> if name = ''help'' \<or> name = ''h'' then Inl (Err ''flag: help requested'')
                     else Inl (Err (''flag provided but not defined: -'' @ name))
           | Some (isBool, setf) \<Rightarrow>
               (case val of
                  Some v \<Rightarrow> (case set_flag name setf v c of Inl e \<Rightarrow> Inl e | Inr c' \<Rightarrow> Parse fs rest c')
                | None \<Rightarrow>
                    if isBool then (case set_flag name setf ''true'' c of Inl e \<Rightarrow> Inl e | Inr c' \<Rightarrow> Parse fs rest c')
                    else (case rest of
                            [] \<Rightarrow> Inl (Err (''flag needs an argument: -'' @ name))
                          | v # rest' \<Rightarrow> (case set_flag name setf v c of Inl e \<Rightarrow> Inl e | Inr c' \<Rightarrow> Parse fs rest' c')))))"

section \<open>Durations in text\<close>

text \<open>
  Reading back what \<open>Duration_String\<close> writes, and a number with a unit: the value of a term that starts with
  digits, the digits of a fraction, and a text of several terms.
\<close>

lemma digits_val_Nil [simp]: "digits_val [] = 0"
  by (simp add: digits_val_def)

lemma takeWhile_digits:
  assumes "list_all is_digit ds" and "\<not> is_digit c"
  shows "takeWhile is_digit (ds @ c # r) = ds"
  using assms by (induction ds) auto

lemma digits_val_append: "digits_val (xs @ ys) = digits_val xs * 10 ^ length ys + digits_val ys"
proof (induction ys rule: rev_induct)
  case (snoc y ys)
  have "digits_val ((xs @ ys) @ [y]) = 10 * digits_val (xs @ ys) + ((of_char y :: nat) - 48)" by (simp add: digits_val_def)
  moreover have "digits_val (ys @ [y]) = 10 * digits_val ys + ((of_char y :: nat) - 48)" by (simp add: digits_val_def)
  ultimately show ?case using snoc by (simp add: algebra_simps)
qed (simp add: digits_val_def)

text \<open>The fraction as digits.\<close>

lemma fmtFrac_numeral:
  "fmtFrac (numeral k) v p buf =
     (let digit = v mod 10; print' = (p \<or> digit \<noteq> 0)
      in fmtFrac (pred_numeral k) (v div 10) print' (if print' then char_of (48 + digit) # buf else buf))"
  by (simp add: numeral_eq_Suc [of k])

lemma fmtFrac_True:
  "\<exists>ds. fmtFrac p v True buf = (CHR ''.'' # ds @ buf, v div 10 ^ p) \<and> list_all is_digit ds \<and> length ds = p \<and> digits_val ds = v mod 10 ^ p"
proof (induction p arbitrary: v buf)
  case (Suc p)
  let ?d = "char_of (48 + v mod 10)"
  obtain ds where ds: "fmtFrac p (v div 10) True (?d # buf) = (CHR ''.'' # ds @ ?d # buf, v div 10 div 10 ^ p)"
    "list_all is_digit ds" "length ds = p" "digits_val ds = v div 10 mod 10 ^ p" using Suc by blast
  have "digits_val (ds @ [?d]) = v mod 10 ^ Suc p"
    using ds(4) by (simp add: digits_val_append) (simp add: digits_val_def mod_mult2_eq del: of_char_of)
  moreover have "is_digit ?d" by (simp add: is_digit_def del: of_char_of)
  ultimately show ?case using ds by (intro exI [of _ "ds @ [?d]"]) (simp add: div_mult2_eq)
qed (simp add: digits_val_def)

lemma fmtFrac_False:
  "snd (fmtFrac p v False buf) = v div 10 ^ p
   \<and> (if v mod 10 ^ p = 0 then fst (fmtFrac p v False buf) = buf
      else \<exists>ds. fst (fmtFrac p v False buf) = CHR ''.'' # ds @ buf \<and> ds \<noteq> [] \<and> list_all is_digit ds \<and> length ds \<le> p
        \<and> digits_val ds * 10 ^ (p - length ds) = v mod 10 ^ p)"
proof (induction p arbitrary: v buf)
  case (Suc p)
  let ?d = "char_of (48 + v mod 10)"
  have split: "v mod 10 ^ Suc p = v div 10 mod 10 ^ p * 10 + v mod 10" by (simp add: mod_mult2_eq)
  show ?case
  proof (cases "v mod 10 = 0")
    case True
    with Suc [of "v div 10" buf] split show ?thesis by (auto simp: div_mult2_eq Suc_diff_le)
  next
    case False
    obtain ds where ds: "fmtFrac p (v div 10) True (?d # buf) = (CHR ''.'' # ds @ ?d # buf, v div 10 div 10 ^ p)"
      "list_all is_digit ds" "length ds = p" "digits_val ds = v div 10 mod 10 ^ p" using fmtFrac_True by blast
    have "digits_val (ds @ [?d]) = v mod 10 ^ Suc p"
      unfolding split using ds(4) by (simp add: digits_val_append) (simp add: digits_val_def del: of_char_of)
    moreover have "is_digit ?d" by (simp add: is_digit_def del: of_char_of)
    ultimately show ?thesis using ds False split by (auto simp: div_mult2_eq intro!: exI [of _ "ds @ [?d]"])
  qed
qed simp

text \<open>One term: a number, perhaps with a fraction, and a unit.\<close>

definition ends_unit :: "string \<Rightarrow> bool" where
  "ends_unit r \<longleftrightarrow> r = [] \<or> is_digit (hd r)"

definition unit_text :: "string \<Rightarrow> bool" where
  "unit_text u \<longleftrightarrow> u \<noteq> [] \<and> list_all (\<lambda>c. c \<noteq> CHR ''.'' \<and> \<not> is_digit c) u"

lemma takeWhile_unit:
  "unit_text u \<Longrightarrow> ends_unit r \<Longrightarrow> takeWhile (\<lambda>c. c \<noteq> CHR ''.'' \<and> \<not> is_digit c) (u @ r) = u"
  by (cases r) (auto simp: unit_text_def ends_unit_def list_all_iff takeWhile_append)

lemma takeWhile_digits':
  "list_all is_digit ds \<Longrightarrow> unit_text u \<Longrightarrow> takeWhile is_digit (ds @ u @ r) = ds"
  by (cases u) (auto simp: unit_text_def intro: takeWhile_digits)

lemma duration_term_int:
  assumes "unit_text u" and "unit_ns u = Some n" and "ends_unit r" and "int k * n \<le> 2 ^ 63"
  shows "duration_term (nat_digits k @ u @ r) = Inr (int k * n, r)"
proof -
  have "takeWhile is_digit (nat_digits k @ u @ r) = nat_digits k" using nat_digits_props assms(1) by (intro takeWhile_digits') auto
  moreover have "hd (u @ r) \<noteq> CHR ''.''" using assms(1) by (cases u) (auto simp: unit_text_def)
  ultimately show ?thesis
    using assms nat_digits_props [of k] takeWhile_unit [OF assms(1,3)] by (auto simp: duration_term_def Let_def unit_text_def)
qed

lemma duration_term_frac:
  assumes "unit_text u" and "unit_ns u = Some (10 ^ p)" and "ends_unit r" and "list_all is_digit ds" and "ds \<noteq> []" and "length ds \<le> p"
    and "int (k * 10 ^ p + digits_val ds * 10 ^ (p - length ds)) \<le> 2 ^ 63"
  shows "duration_term (nat_digits k @ CHR ''.'' # ds @ u @ r) = Inr (int (k * 10 ^ p + digits_val ds * 10 ^ (p - length ds)), r)"
proof -
  have ip: "takeWhile is_digit (nat_digits k @ CHR ''.'' # ds @ u @ r) = nat_digits k"
    using nat_digits_props by (intro takeWhile_digits) (auto simp: is_digit_def)
  have fp: "takeWhile is_digit (ds @ u @ r) = ds" using assms(1,4) by (intro takeWhile_digits')
  have "(10::int) ^ p = 10 ^ (p - length ds) * 10 ^ length ds" using assms(6) by (simp flip: power_add)
  then have "int (digits_val ds) * 10 ^ p div 10 ^ length ds = int (digits_val ds) * 10 ^ (p - length ds)" by simp
  then show ?thesis
    using assms nat_digits_props [of k] takeWhile_unit [OF assms(1,3)] ip fp by (auto simp: duration_term_def Let_def unit_text_def)
qed

lemma duration_term_fmt:
  assumes "unit_text u" and "unit_ns u = Some (10 ^ p)" and "int (k * 10 ^ p + v mod 10 ^ p) \<le> 2 ^ 63"
  shows "duration_term (nat_digits k @ fst (fmtFrac p v False u)) = Inr (int (k * 10 ^ p + v mod 10 ^ p), [])"
proof (cases "v mod 10 ^ p = 0")
  case True
  with assms fmtFrac_False [of p v u] duration_term_int [of u "10 ^ p" "[]" k] show ?thesis by (simp add: ends_unit_def)
next
  case False
  with fmtFrac_False [of p v u] obtain ds where ds: "fst (fmtFrac p v False u) = CHR ''.'' # ds @ u" "ds \<noteq> []" "list_all is_digit ds"
    "length ds \<le> p" "digits_val ds * 10 ^ (p - length ds) = v mod 10 ^ p" by auto
  with assms duration_term_frac [of u p "[]" ds k] show ?thesis by (simp add: ends_unit_def)
qed

lemma duration_terms_step:
  assumes "duration_term s = Inr (v, r)" and "d + v \<le> 2 ^ 63"
  shows "duration_terms d s = duration_terms (d + v) r"
  using assms duration_term_shorter [OF assms(1)] by (subst duration_terms.simps) auto

lemma duration_terms_end [simp]: "duration_terms d [] = Inr d"
  by (subst duration_terms.simps) simp

lemma ends_unit_digits [simp]: "ends_unit (nat_digits k @ r)"
  using nat_digits_props [of k] by (cases "nat_digits k") (auto simp: ends_unit_def)

text \<open>Reading what \<open>unsigned_duration\<close> writes, term by term.\<close>

lemma duration_terms_unsigned:
  assumes u: "int u \<le> 2 ^ 63"
  shows "duration_terms 0 (unsigned_duration u) = Inr (int u)"
proof -
  have small: "duration_terms 0 (nat_digits (snd (fmtFrac p u False t)) @ fst (fmtFrac p u False t)) = Inr (int u)"
    if "unit_text t" "unit_ns t = Some (10 ^ p)" for p t
  proof -
    have "u div 10 ^ p * 10 ^ p + u mod 10 ^ p = u" by (rule div_mult_mod_eq)
    then show ?thesis
      using that u duration_terms_step [OF duration_term_fmt [of t p "u div 10 ^ p" u], of 0] fmtFrac_False [of p u t]
      by (simp del: of_nat_add of_nat_mult of_nat_power)
  qed
  define buf where "buf = fst (fmtFrac 9 u False ''s'')"
  define secs where "secs = u div 1000000000"
  have f9: "fmtFrac 9 u False ''s'' = (buf, secs)" using fmtFrac_False [of 9 u "''s''"] by (simp add: buf_def secs_def prod_eq_iff)
  let ?s = "nat_digits (secs mod 60) @ buf"
  let ?m = "nat_digits (secs div 60 mod 60) @ ''m'' @ ?s"
  have us: "u = secs * 1000000000 + u mod 1000000000" by (simp add: secs_def)
  have s: "duration_terms d ?s = Inr (d + int (secs mod 60 * 10 ^ 9 + u mod 10 ^ 9))"
    if "d + int (secs mod 60 * 10 ^ 9 + u mod 10 ^ 9) \<le> 2 ^ 63" "0 \<le> d" for d
    using that duration_terms_step [OF duration_term_fmt [of "''s''" 9 "secs mod 60" u], of d]
    by (simp add: unit_text_def unit_ns_def is_digit_def buf_def)
  have m: "duration_terms d ?m = Inr (d + int (secs mod 3600 * 10 ^ 9 + u mod 10 ^ 9))"
    if "d + int (secs mod 3600 * 10 ^ 9 + u mod 10 ^ 9) \<le> 2 ^ 63" "0 \<le> d" for d
  proof -
    have split: "secs mod 3600 = secs div 60 mod 60 * 60 + secs mod 60" using mod_mult2_eq [of secs 60 60] by simp
    have one: "duration_term ?m = Inr (int (secs div 60 mod 60) * 60000000000, ?s)"
      by (rule duration_term_int) (use that split in \<open>auto simp: unit_text_def unit_ns_def is_digit_def\<close>)
    show ?thesis using that split by (subst duration_terms_step [OF one]) (auto simp: s algebra_simps)
  qed
  have h: "duration_terms 0 (nat_digits (secs div 60 div 60) @ ''h'' @ ?m) = Inr (int u)"
  proof -
    have split: "secs = secs div 60 div 60 * 3600 + secs mod 3600" by (simp flip: div_mult2_eq)
    have one: "duration_term (nat_digits (secs div 60 div 60) @ ''h'' @ ?m) = Inr (int (secs div 60 div 60) * 3600000000000, ?m)"
      by (rule duration_term_int) (use u us split in \<open>auto simp: unit_text_def unit_ns_def is_digit_def\<close>)
    have "int (secs div 60 div 60) * 3600000000000 + int (secs mod 3600 * 10 ^ 9 + u mod 10 ^ 9) = int u" using us split by simp
    with u m [of "int (secs div 60 div 60) * 3600000000000"] show ?thesis by (subst duration_terms_step [OF one]) auto
  qed
  have secs1: "u = secs * 10 ^ 9 + u mod 10 ^ 9" using us by simp
  consider "u = 0" | "0 < u" "u < 1000" | "1000 \<le> u" "u < 1000000" | "1000000 \<le> u" "u < 1000000000" | "1000000000 \<le> u" by linarith
  then show ?thesis
  proof cases
    case 1
    have "nat_digits 0 = ''0''" by code_simp
    with 1 show ?thesis using duration_terms_step [OF duration_term_int [of "''s''" 1000000000 "[]" 0], of 0]
      by (simp add: unsigned_duration_def unit_text_def unit_ns_def is_digit_def ends_unit_def)
  next
    case 2
    then show ?thesis using small [of "''ns''" 0] by (simp add: unsigned_duration_def unit_text_def unit_ns_def is_digit_def)
  next
    case 3
    then show ?thesis using small [of "[CHR 0xC2, CHR 0xB5, CHR ''s'']" 3]
      by (simp add: unsigned_duration_def unit_text_def unit_ns_def is_digit_def split_beta)
  next
    case 4
    then show ?thesis using small [of "''ms''" 6] by (simp add: unsigned_duration_def unit_text_def unit_ns_def is_digit_def split_beta)
  next
    case 5
    have "unsigned_duration u = (if secs div 60 = 0 then ?s else if secs div 60 div 60 = 0 then ?m else nat_digits (secs div 60 div 60) @ ''h'' @ ?m)"
      using 5 by (simp add: unsigned_duration_def f9 Let_def)
    moreover have "secs div 60 = 0 \<Longrightarrow> secs mod 60 = secs" "secs div 60 div 60 = 0 \<Longrightarrow> secs mod 3600 = secs"
      by (auto simp: div_eq_0_iff simp flip: div_mult2_eq)
    ultimately show ?thesis using u secs1 s [of 0] m [of 0] h by (auto simp del: of_nat_add of_nat_mult of_nat_power)
  qed
qed

lemma unsigned_duration_head: "\<exists>c cs. unsigned_duration u = c # cs \<and> is_digit c \<and> cs \<noteq> []"
proof -
  have start: "\<exists>c cs. nat_digits k @ b = c # cs \<and> is_digit c \<and> cs \<noteq> []" if "b \<noteq> []" for k b
    using nat_digits_props [of k] that by (cases "nat_digits k") auto
  have frac: "fst (fmtFrac p v False t) \<noteq> []" if "t \<noteq> []" for p v t
    using fmtFrac_False [of p v t] that by (auto split: if_split_asm)
  have zero: "is_digit CHR ''0''" by (simp add: is_digit_def)
  show ?thesis
    using start [of "''ns''"] start [OF frac] start [of "''m'' @ b" for b] start [of "''h'' @ b" for b] zero
    by (auto simp: unsigned_duration_def Let_def split_beta)
qed

lemma ParseDuration_String:
  assumes "- (2 ^ 63) \<le> d \<and> d < 2 ^ 63"
  shows "ParseDuration (Duration_String d) = Inr d"
proof -
  have abs: "abs d \<le> 2 ^ 63" using assms by (simp add: abs_le_iff)
  obtain c cs where u: "unsigned_duration (nat (abs d)) = c # cs" "is_digit c" "cs \<noteq> []" using unsigned_duration_head by blast
  have "duration_terms 0 (c # cs) = Inr (abs d)" using abs duration_terms_unsigned [of "nat (abs d)"] u(1) by simp
  moreover have "c \<noteq> CHR ''-''" "c \<noteq> CHR ''+''" using u(2) by (auto simp: is_digit_def)
  ultimately show ?thesis using assms u by (auto simp: ParseDuration_def Duration_String_def Let_def)
qed

lemma ParseDuration_ns:
  assumes "- (2 ^ 63) \<le> d \<and> d < 2 ^ 63"
  shows "ParseDuration (Itoa d @ ''ns'') = Inr d"
proof -
  have abs: "abs d \<le> 2 ^ 63" using assms by (simp add: abs_le_iff)
  define t where "t = nat_digits (nat (abs d)) @ ''ns''"
  obtain c cs where t: "t = c # cs" "is_digit c" "cs \<noteq> []" using nat_digits_props [of "nat (abs d)"] by (cases "nat_digits (nat (abs d))") (auto simp: t_def)
  have "duration_term t = Inr (abs d, [])"
    using abs duration_term_int [of "''ns''" 1 "[]" "nat (abs d)"] by (simp add: t_def unit_text_def unit_ns_def is_digit_def ends_unit_def)
  then have "duration_terms 0 t = Inr (abs d)" using assms by (subst duration_terms_step) auto
  moreover have "c \<noteq> CHR ''-''" "c \<noteq> CHR ''+''" using t(2) by (auto simp: is_digit_def)
  moreover have "Itoa d @ ''ns'' = (if d < 0 then CHR ''-'' # t else t)" by (simp add: Itoa_def t_def)
  ultimately show ?thesis using assms t by (auto simp: ParseDuration_def Let_def)
qed

lemma ParseDuration_unit:
  assumes "unit_text u" and "unit_ns u = Some n" and "int k * n < 2 ^ 63"
  shows "ParseDuration (nat_digits k @ u) = Inr (int k * n)"
proof -
  obtain c cs where t: "nat_digits k @ u = c # cs" "is_digit c" "cs \<noteq> []"
    using nat_digits_props [of k] assms(1) by (cases "nat_digits k") (auto simp: unit_text_def)
  have "duration_term (nat_digits k @ u) = Inr (int k * n, [])"
    using assms duration_term_int [of u n "[]" k] by (simp add: ends_unit_def)
  then have "duration_terms 0 (nat_digits k @ u) = Inr (int k * n)" using assms by (subst duration_terms_step) auto
  moreover have "c \<noteq> CHR ''-''" "c \<noteq> CHR ''+''" using t(2) by (auto simp: is_digit_def)
  ultimately show ?thesis using assms t by (auto simp: ParseDuration_def Let_def)
qed

lemma ParseDuration_seconds:
  assumes "n \<le> 9223372036"
  shows "ParseDuration (nat_digits n @ ''s'') = Inr (int n * 1000000000)"
  using assms by (intro ParseDuration_unit) (auto simp: unit_text_def unit_ns_def is_digit_def)

section \<open>The contract of a flag type\<close>

text \<open>What a flag type promises: setting it to the text of a value stores that value.\<close>

locale flag_type =
  fixes parse :: "string \<Rightarrow> 'a result" and fmt :: "'a \<Rightarrow> string" and ok :: "'a \<Rightarrow> bool"
  assumes parse_fmt: "ok x \<Longrightarrow> parse (fmt x) = Inr x"
begin

lemma set_get: "ok x \<Longrightarrow> \<exists>s'. set_ptr parse (fmt x) s = (None, s') \<and> ptr_Get s' = Some x \<and> ptr_String fmt s' = Ok (fmt x)"
  by (auto simp: set_ptr_def parse_fmt ptr_Get_def ptr_String_def)

lemma set_rejects: "parse v = Inl e \<Longrightarrow> set_ptr parse v s = (Some e, s)"
  by (simp add: set_ptr_def)

lemma set_succeeds: "ok x \<Longrightarrow> fst (set_ptr parse (fmt x) s) = None"
  by (simp add: set_ptr_def parse_fmt)

lemma set_last_wins: "ok x \<Longrightarrow> set_ptr parse (fmt x) (snd (set_ptr parse v s)) = set_ptr parse (fmt x) s'"
  by (simp add: set_ptr_def parse_fmt)

end

interpretation string_flag: flag_type Inr id "\<lambda>_. True"
  by unfold_locales simp

interpretation int_flag: flag_type Atoi Itoa "\<lambda>i. - (2 ^ 63) \<le> i \<and> i < 2 ^ 63"
  by unfold_locales (simp add: Atoi_Itoa)

interpretation bool_flag: flag_type ParseBool FormatBool "\<lambda>_. True"
  by unfold_locales (simp add: ParseBool_def FormatBool_def)

interpretation duration_flag: flag_type ParseDuration Duration_String "\<lambda>d. - (2 ^ 63) \<le> d \<and> d < 2 ^ 63"
  by unfold_locales (rule ParseDuration_String)

text \<open>C27: The flag values round-trip. Setting a string, integer, boolean or duration flag, whatever it held,
  to the text of a value of its type (for the numbers, any value of 64 bits) succeeds, and
  then \<open>Get\<close> gives a pointer to that value and \<open>String\<close> the text it was set to.
\<close>

theorem flag_values_roundtrip:
  assumes "- (2 ^ 63) \<le> i \<and> i < 2 ^ 63" and "- (2 ^ 63) \<le> d \<and> d < 2 ^ 63"
  shows "(\<exists>s'. stringPtrValue_Set t s = (None, s') \<and> ptr_Get s' = Some t \<and> stringPtrValue_String s' = Ok t)
    \<and> (\<exists>n'. intPtrValue_Set (Itoa i) n = (None, n') \<and> ptr_Get n' = Some i \<and> intPtrValue_String n' = Ok (Itoa i))
    \<and> (\<exists>c'. boolPtrValue_Set (FormatBool b) c = (None, c') \<and> ptr_Get c' = Some b \<and> boolPtrValue_String c' = Ok (FormatBool b))
    \<and> (\<exists>u'. durationPtrValue_Set (Duration_String d) u = (None, u') \<and> ptr_Get u' = Some d
           \<and> durationPtrValue_String u' = Ok (Duration_String d))"
  using string_flag.set_get [of t s] int_flag.set_get [OF assms(1), of n] bool_flag.set_get [of b c] duration_flag.set_get [OF assms(2), of u]
  by (simp add: stringPtrValue_Set_def intPtrValue_Set_def boolPtrValue_Set_def durationPtrValue_Set_def
      stringPtrValue_String_def intPtrValue_String_def boolPtrValue_String_def durationPtrValue_String_def)

theorem flag_values_roundtrip_witness:
  "(\<exists>n'. intPtrValue_Set ''-9223372036854775808'' (newPtrValue None) = (None, n') \<and> ptr_Get n' = Some (- (2 ^ 63)) \<and> intPtrValue_String n' = Ok ''-9223372036854775808'')
   \<and> (\<exists>u'. durationPtrValue_Set ''1h0m30.5s'' (newPtrValue None) = (None, u') \<and> ptr_Get u' = Some 3630500000000 \<and> durationPtrValue_String u' = Ok ''1h0m30.5s'')"
proof -
  have t: "Itoa (- (2 ^ 63)) = ''-9223372036854775808''" "Duration_String 3630500000000 = ''1h0m30.5s''"
    by (simp_all add: Itoa_def Duration_String_def unsigned_duration_def Let_def fmtFrac_numeral nat_digits.simps digit_chars)
  show ?thesis
    using flag_values_roundtrip [of "- (2 ^ 63)" 3630500000000 "[]" "newPtrValue None" "newPtrValue None" True "newPtrValue None" "newPtrValue None"] t by simp
qed

section \<open>Settings on the command line\<close>

text \<open>
  The ways to write a setting, with one dash or two: \<open>-name=value\<close>, \<open>-name value\<close>, and the name alone
  for a boolean flag that is set.
\<close>

datatype flag_form = Joined | Separate | Bare

definition dashes :: "bool \<Rightarrow> string" where
  "dashes two = (if two then ''--'' else ''-'')"

fun write_flag :: "bool \<Rightarrow> flag_form \<Rightarrow> string \<Rightarrow> string \<Rightarrow> string list" where
  "write_flag two Joined n v = [dashes two @ n @ ''='' @ v]"
| "write_flag two Separate n v = [dashes two @ n, v]"
| "write_flag two Bare n v = [dashes two @ n]"

fun form_ok :: "bool \<Rightarrow> flag_form \<Rightarrow> string \<Rightarrow> bool" where
  "form_ok isBool Joined v \<longleftrightarrow> True"
| "form_ok isBool Separate v \<longleftrightarrow> \<not> isBool"
| "form_ok isBool Bare v \<longleftrightarrow> isBool \<and> v = ''true''"

definition flag_args :: "(bool \<times> flag_form \<times> string \<times> string) list \<Rightarrow> string list" where
  "flag_args = concat \<circ> map (\<lambda>(two, f, n, v). write_flag two f n v)"

fun apply_settings :: "'c flag_set \<Rightarrow> (string \<times> string) list \<Rightarrow> 'c \<Rightarrow> 'c result" where
  "apply_settings fs [] c = Inr c"
| "apply_settings fs ((n, v) # xs) c =
     (case fs n of
        None \<Rightarrow> Inl (Err (''flag provided but not defined: -'' @ n))
      | Some (_, setf) \<Rightarrow> (case set_flag n setf v c of Inl e \<Rightarrow> Inl e | Inr c' \<Rightarrow> apply_settings fs xs c'))"

definition flag_name :: "string \<Rightarrow> bool" where
  "flag_name n \<longleftrightarrow> n \<noteq> [] \<and> hd n \<noteq> CHR ''-'' \<and> CHR ''='' \<notin> set n \<and> n \<noteq> ''help'' \<and> n \<noteq> ''h''"

lemma split_flag_name:
  assumes n: "flag_name n" and m: "m = n \<or> (\<exists>v. m = n @ CHR ''='' # v)"
  shows "split_flag ((dashes two @ m) # rest) =
    (case index_of m CHR ''='' of None \<Rightarrow> FlagArg m None | Some i \<Rightarrow> FlagArg (take i m) (Some (drop (Suc i) m)))"
proof -
  from n obtain c cs where nc: "n = c # cs" "c \<noteq> CHR ''-''" "c \<noteq> CHR ''=''" by (cases n) (auto simp: flag_name_def)
  then obtain ms where ms: "m = c # ms" using m by auto
  with nc(2,3) show ?thesis unfolding ms by (cases two) (simp_all add: split_flag_def dashes_def Let_def)
qed

lemma split_flag_arg:
  assumes "flag_name n"
  shows "split_flag ((dashes two @ n @ CHR ''='' # v) # rest) = FlagArg n (Some v)" "split_flag ((dashes two @ n) # rest) = FlagArg n None"
proof -
  have "index_of (n @ CHR ''='' # v) CHR ''='' = Some (length n)"
    unfolding index_of_Some_iff using assms by (auto simp: flag_name_def)
  with split_flag_name [OF assms, of "n @ CHR ''='' # v" two rest] show "split_flag ((dashes two @ n @ CHR ''='' # v) # rest) = FlagArg n (Some v)" by simp
  have "index_of n CHR ''='' = None" using assms by (simp add: index_of_None_iff flag_name_def)
  with split_flag_name [OF assms, of n two rest] show "split_flag ((dashes two @ n) # rest) = FlagArg n None" by simp
qed

text \<open>
  Parsing sets the flags one after the other, so that the last setting of a flag wins, however the settings are
  written, stops at the first undefined flag or invalid value, and hands over the further arguments.
\<close>

lemma Parse_flag:
  assumes "flag_name n" and "\<And>b setf. fs n = Some (b, setf) \<Longrightarrow> form_ok b f v"
  shows "Parse fs (write_flag two f n v @ rest) c =
    (case fs n of
       None \<Rightarrow> Inl (Err (''flag provided but not defined: -'' @ n))
     | Some (_, setf) \<Rightarrow> (case set_flag n setf v c of Inl e \<Rightarrow> Inl e | Inr c' \<Rightarrow> Parse fs rest c'))"
proof -
  have "n \<noteq> ''help''" "n \<noteq> ''h''" using assms(1) by (auto simp: flag_name_def)
  then show ?thesis
    using assms(2) by (cases f) (auto simp: split_flag_arg [OF assms(1)] split: option.split sum.split)
qed

lemma Parse_settings:
  assumes "\<forall>(two, f, n, v) \<in> set xs. flag_name n \<and> (\<forall>b setf. fs n = Some (b, setf) \<longrightarrow> form_ok b f v)"
    and tail: "split_flag tail = NoMore rest"
  shows "Parse fs (flag_args xs @ tail) c =
    (case apply_settings fs (map (\<lambda>x. snd (snd x)) xs) c of Inl e \<Rightarrow> Inl e | Inr c' \<Rightarrow> Inr (c', rest))"
  using assms(1)
proof (induction xs arbitrary: c)
  case Nil
  from tail show ?case by (cases tail) (auto simp: flag_args_def split_flag_def)
next
  case (Cons x xs)
  obtain two f n v where x: "x = (two, f, n, v)" by (cases x)
  with Cons.prems have n: "flag_name n" "\<And>b setf. fs n = Some (b, setf) \<Longrightarrow> form_ok b f v" by auto
  have IH: "Parse fs (flag_args xs @ tail) c' = (case apply_settings fs (map (\<lambda>x. snd (snd x)) xs) c' of Inl e \<Rightarrow> Inl e | Inr c' \<Rightarrow> Inr (c', rest))" for c'
    using Cons by auto
  have args: "flag_args (x # xs) @ tail = write_flag two f n v @ flag_args xs @ tail"
    by (simp add: flag_args_def x)
  note Parse_flag [of n fs f v two "flag_args xs @ tail" c, OF n(1) n(2)]
  then show ?case unfolding args by (simp add: x IH split: option.split sum.split)
qed

end
