(* ===== verification/Config_File.thy ===== *)
theory Config_File
  imports Cli_Flags Flags_Env
begin

text \<open>
  The configuration file of \<open>cmd/consul-dataplane/config.go\<close>: how \<open>encoding/json\<close> decodes a text into the
  structure of settings by the JSON names in its field tags, the text of the defaults,
  which texts are accepted, and that settings written as a file are read back.
\<close>

section \<open>The fields by their JSON names\<close>

definition tls_fields :: "(string \<times> TLSFlags decoder) list" where
  "tls_fields =
    [(''disabled'', ptr_field as_bool (\<lambda>x. tf_Disabled_update (\<lambda>_. x))),
     (''caCertsPath'', ptr_field as_string (\<lambda>x. tf_CACertsPath_update (\<lambda>_. x))),
     (''serverName'', ptr_field as_string (\<lambda>x. tf_ServerName_update (\<lambda>_. x))),
     (''certFile'', ptr_field as_string (\<lambda>x. tf_CertFile_update (\<lambda>_. x))),
     (''keyFile'', ptr_field as_string (\<lambda>x. tf_KeyFile_update (\<lambda>_. x))),
     (''insecureSkipVerify'', ptr_field as_bool (\<lambda>x. tf_InsecureSkipVerify_update (\<lambda>_. x)))]"

definition static_fields :: "(string \<times> StaticCredentialsFlags decoder) list" where
  "static_fields =
    [(''token'', ptr_field as_string (\<lambda>x. stf_Token_update (\<lambda>_. x)))]"

definition login_fields :: "(string \<times> LoginCredentialsFlags decoder) list" where
  "login_fields =
    [(''authMethod'', ptr_field as_string (\<lambda>x. lf_AuthMethod_update (\<lambda>_. x))),
     (''namespace'', ptr_field as_string (\<lambda>x. lf_Namespace_update (\<lambda>_. x))),
     (''partition'', ptr_field as_string (\<lambda>x. lf_Partition_update (\<lambda>_. x))),
     (''datacenter'', ptr_field as_string (\<lambda>x. lf_Datacenter_update (\<lambda>_. x))),
     (''bearerToken'', ptr_field as_string (\<lambda>x. lf_BearerToken_update (\<lambda>_. x))),
     (''bearerTokenPath'', ptr_field as_string (\<lambda>x. lf_BearerTokenPath_update (\<lambda>_. x))),
     (''meta'', map_field lf_Meta (\<lambda>x. lf_Meta_update (\<lambda>_. x)))]"

definition credentials_fields :: "(string \<times> CredentialsFlags decoder) list" where
  "credentials_fields =
    [(''type'', ptr_field as_string (\<lambda>x. crf_Type_update (\<lambda>_. x))),
     (''static'', struct_field crf_Static (\<lambda>x. crf_Static_update (\<lambda>_. x)) (decode_struct static_fields)),
     (''login'', struct_field crf_Login (\<lambda>x. crf_Login_update (\<lambda>_. x)) (decode_struct login_fields))]"

definition consul_fields :: "(string \<times> ConsulFlags decoder) list" where
  "consul_fields =
    [(''addresses'', ptr_field as_string (\<lambda>x. cf_Addresses_update (\<lambda>_. x))),
     (''grpcPort'', ptr_field as_int (\<lambda>x. cf_GRPCPort_update (\<lambda>_. x))),
     (''serverWatchDisabled'', ptr_field as_bool (\<lambda>x. cf_ServerWatchDisabled_update (\<lambda>_. x))),
     (''tls'', struct_field cf_TLS (\<lambda>x. cf_TLS_update (\<lambda>_. x)) (decode_struct tls_fields)),
     (''credentials'', struct_field cf_Credentials (\<lambda>x. cf_Credentials_update (\<lambda>_. x)) (decode_struct credentials_fields))]"

definition service_fields :: "(string \<times> ServiceFlags decoder) list" where
  "service_fields =
    [(''nodeName'', ptr_field as_string (\<lambda>x. svf_NodeName_update (\<lambda>_. x))),
     (''nodeID'', ptr_field as_string (\<lambda>x. svf_NodeID_update (\<lambda>_. x))),
     (''serviceID'', ptr_field as_string (\<lambda>x. svf_ServiceID_update (\<lambda>_. x))),
     (''serviceIDPath'', ptr_field as_string (\<lambda>x. svf_ServiceIDPath_update (\<lambda>_. x))),
     (''namespace'', ptr_field as_string (\<lambda>x. svf_Namespace_update (\<lambda>_. x))),
     (''partition'', ptr_field as_string (\<lambda>x. svf_Partition_update (\<lambda>_. x)))]"

definition proxy_fields :: "(string \<times> ProxyFlags decoder) list" where
  "proxy_fields =
    [(''nodeName'', ptr_field as_string (\<lambda>x. pf_NodeName_update (\<lambda>_. x))),
     (''nodeID'', ptr_field as_string (\<lambda>x. pf_NodeID_update (\<lambda>_. x))),
     (''id'', ptr_field as_string (\<lambda>x. pf_ID_update (\<lambda>_. x))),
     (''idPath'', ptr_field as_string (\<lambda>x. pf_IDPath_update (\<lambda>_. x))),
     (''namespace'', ptr_field as_string (\<lambda>x. pf_Namespace_update (\<lambda>_. x))),
     (''partition'', ptr_field as_string (\<lambda>x. pf_Partition_update (\<lambda>_. x)))]"

definition xdsServer_fields :: "(string \<times> XDSServerFlags decoder) list" where
  "xdsServer_fields =
    [(''bindAddress'', ptr_field as_string (\<lambda>x. xf_BindAddr_update (\<lambda>_. x))),
     (''bindPort'', ptr_field as_int (\<lambda>x. xf_BindPort_update (\<lambda>_. x)))]"

definition dnsServer_fields :: "(string \<times> DNSServerFlags decoder) list" where
  "dnsServer_fields =
    [(''bindAddress'', ptr_field as_string (\<lambda>x. nf_BindAddr_update (\<lambda>_. x))),
     (''bindPort'', ptr_field as_int (\<lambda>x. nf_BindPort_update (\<lambda>_. x)))]"

definition logging_fields :: "(string \<times> LogFlags decoder) list" where
  "logging_fields =
    [(''Name'', plain_field as_string (\<lambda>x. gf_Name_update (\<lambda>_. x))),
     (''logLevel'', ptr_field as_string (\<lambda>x. gf_LogLevel_update (\<lambda>_. x))),
     (''logJSON'', ptr_field as_bool (\<lambda>x. gf_LogJSON_update (\<lambda>_. x)))]"

definition prometheus_fields :: "(string \<Rightarrow> int) \<Rightarrow> (string \<times> PrometheusTelemetryFlags decoder) list" where
  "prometheus_fields oob =
    [(''retentionTime'', ptr_field (duration_of_json oob) (\<lambda>x. pmf_RetentionTime_update (\<lambda>_. x))),
     (''caCertsPath'', ptr_field as_string (\<lambda>x. pmf_CACertsPath_update (\<lambda>_. x))),
     (''keyFile'', ptr_field as_string (\<lambda>x. pmf_KeyFile_update (\<lambda>_. x))),
     (''certFile'', ptr_field as_string (\<lambda>x. pmf_CertFile_update (\<lambda>_. x))),
     (''serviceMetricsURL'', ptr_field as_string (\<lambda>x. pmf_ServiceMetricsURL_update (\<lambda>_. x))),
     (''scrapePath'', ptr_field as_string (\<lambda>x. pmf_ScrapePath_update (\<lambda>_. x))),
     (''mergePort'', ptr_field as_int (\<lambda>x. pmf_MergePort_update (\<lambda>_. x)))]"

definition telemetry_fields :: "(string \<Rightarrow> int) \<Rightarrow> (string \<times> TelemetryFlags decoder) list" where
  "telemetry_fields oob =
    [(''useCentralConfig'', ptr_field as_bool (\<lambda>x. tmf_UseCentralConfig_update (\<lambda>_. x))),
     (''prometheus'', struct_field tmf_Prometheus (\<lambda>x. tmf_Prometheus_update (\<lambda>_. x)) (decode_struct (prometheus_fields oob)))]"

definition envoy_fields :: "(string \<times> EnvoyFlags decoder) list" where
  "envoy_fields =
    [(''adminBindAddress'', ptr_field as_string (\<lambda>x. ef_AdminBindAddr_update (\<lambda>_. x))),
     (''adminBindPort'', ptr_field as_int (\<lambda>x. ef_AdminBindPort_update (\<lambda>_. x))),
     (''readyBindAddress'', ptr_field as_string (\<lambda>x. ef_ReadyBindAddr_update (\<lambda>_. x))),
     (''readyBindPort'', ptr_field as_int (\<lambda>x. ef_ReadyBindPort_update (\<lambda>_. x))),
     (''concurrency'', ptr_field as_int (\<lambda>x. ef_Concurrency_update (\<lambda>_. x))),
     (''drainTimeSeconds'', ptr_field as_int (\<lambda>x. ef_DrainTimeSeconds_update (\<lambda>_. x))),
     (''drainStrategy'', ptr_field as_string (\<lambda>x. ef_DrainStrategy_update (\<lambda>_. x))),
     (''executablePath'', ptr_field as_string (\<lambda>x. ef_ExecutablePath_update (\<lambda>_. x))),
     (''shutdownDrainListenersEnabled'', ptr_field as_bool (\<lambda>x. ef_ShutdownDrainListenersEnabled_update (\<lambda>_. x))),
     (''shutdownGracePeriodSeconds'', ptr_field as_int (\<lambda>x. ef_ShutdownGracePeriodSeconds_update (\<lambda>_. x))),
     (''gracefulShutdownPath'', ptr_field as_string (\<lambda>x. ef_GracefulShutdownPath_update (\<lambda>_. x))),
     (''gracefulAddr'', ptr_field as_string (\<lambda>x. ef_GracefulAddr_update (\<lambda>_. x))),
     (''gracefulPort'', ptr_field as_int (\<lambda>x. ef_GracefulPort_update (\<lambda>_. x))),
     (''dumpEnvoyConfigOnExitEnabled'', ptr_field as_bool (\<lambda>x. ef_DumpEnvoyConfigOnExitEnabled_update (\<lambda>_. x))),
     (''startupGracePeriodSeconds'', ptr_field as_int (\<lambda>x. ef_StartupGracePeriodSeconds_update (\<lambda>_. x))),
     (''gracefulStartupPath'', ptr_field as_string (\<lambda>x. ef_GracefulStartupPath_update (\<lambda>_. x)))]"

definition config_fields :: "(string \<Rightarrow> int) \<Rightarrow> (string \<times> DataplaneConfigFlags decoder) list" where
  "config_fields oob =
    [(''mode'', ptr_field as_string (\<lambda>x. df_Mode_update (\<lambda>_. x))),
     (''consul'', struct_field df_Consul (\<lambda>x. df_Consul_update (\<lambda>_. x)) (decode_struct consul_fields)),
     (''service'', struct_field df_Service (\<lambda>x. df_Service_update (\<lambda>_. x)) (decode_struct service_fields)),
     (''proxy'', struct_field df_Proxy (\<lambda>x. df_Proxy_update (\<lambda>_. x)) (decode_struct proxy_fields)),
     (''logging'', struct_field df_Logging (\<lambda>x. df_Logging_update (\<lambda>_. x)) (decode_struct logging_fields)),
     (''xdsServer'', struct_field df_XDSServer (\<lambda>x. df_XDSServer_update (\<lambda>_. x)) (decode_struct xdsServer_fields)),
     (''dnsServer'', struct_field df_DNSServer (\<lambda>x. df_DNSServer_update (\<lambda>_. x)) (decode_struct dnsServer_fields)),
     (''telemetry'', struct_field df_Telemetry (\<lambda>x. df_Telemetry_update (\<lambda>_. x)) (decode_struct (telemetry_fields oob))),
     (''envoy'', struct_field df_Envoy (\<lambda>x. df_Envoy_update (\<lambda>_. x)) (decode_struct envoy_fields))]"


text \<open>\<open>json.Unmarshal\<close> into fresh settings.\<close>

definition Unmarshal :: "(string \<Rightarrow> int) \<Rightarrow> string \<Rightarrow> DataplaneConfigFlags result" where
  "Unmarshal oob text =
     (case parse_json text of
        None \<Rightarrow> Inl (Err ''invalid JSON'')
      | Some v \<Rightarrow> decode_struct (config_fields oob) v empty_DataplaneConfigFlags)"

section \<open>The defaults\<close>

text \<open>The lines of the text with their indentation.\<close>

definition default_text :: string where
  "default_text = CHR 0x0A # Join (map (\<lambda>(n, l). replicate n (CHR 0x09) @ l)
     [(1, ''{''),
      (2, ''\"mode\": \"sidecar\",''),
      (2, ''\"consul\": {''),
      (3, ''\"grpcPort\": 8502,''),
      (3, ''\"serverWatchDisabled\": false,''),
      (3, ''\"tls\": {''),
      (4, ''\"disabled\": false,''),
      (4, ''\"insecureSkipVerify\": false''),
      (3, ''}''),
      (2, ''},''),
      (2, ''\"logging\": {''),
      (3, ''\"name\": \"consul-dataplane\",''),
      (3, ''\"logJSON\": false,''),
      (3, ''\"logLevel\": \"info\"''),
      (2, ''},''),
      (2, ''\"telemetry\": {''),
      (3, ''\"useCentralConfig\": true,''),
      (3, ''\"prometheus\": {''),
      (4, ''\"retentionTime\": \"60s\",''),
      (4, ''\"scrapePath\": \"/metrics\",''),
      (4, ''\"mergePort\": 20100''),
      (3, ''}''),
      (2, ''},''),
      (2, ''\"envoy\": {''),
      (3, ''\"adminBindAddress\": \"127.0.0.1\",''),
      (3, ''\"adminBindPort\": 19000,''),
      (3, ''\"readyBindPort\": 0,''),
      (3, ''\"concurrency\": 2,''),
      (3, ''\"drainTimeSeconds\": 30,''),
      (3, ''\"drainStrategy\": \"immediate\",''),
      (3, ''\"shutdownDrainListenersEnabled\": false,''),
      (3, ''\"shutdownGracePeriodSeconds\": 0,''),
      (3, ''\"gracefulShutdownPath\": \"/graceful_shutdown\",''),
      (3, ''\"gracefulPort\": 20300,''),
      (3, ''\"dumpEnvoyConfigOnExitEnabled\": false,''),
      (3, ''\"gracefulStartupPath\": \"/graceful_startup\",''),
      (3, ''\"startupGracePeriodSeconds\": 0''),
      (2, ''},''),
      (2, ''\"xdsServer\": {''),
      (3, ''\"bindAddress\": \"127.0.0.1\",''),
      (3, ''\"bindPort\": 0''),
      (2, ''},''),
      (2, ''\"dnsServer\": {''),
      (3, ''\"bindAddress\": \"127.0.0.1\",''),
      (3, ''\"bindPort\": -1''),
      (2, ''}''),
      (1, ''}'')]) [CHR 0x0A]"

definition buildDefaultConsulDPFlags :: "(string \<Rightarrow> int) \<Rightarrow> DataplaneConfigFlags result" where
  "buildDefaultConsulDPFlags oob = Unmarshal oob default_text"

text \<open>The settings that the JSON text of the defaults decodes to.\<close>

definition default_flags :: DataplaneConfigFlags where
  "default_flags =
     (empty_DataplaneConfigFlags
      \<lparr>df_Mode := Some ''sidecar'',
       df_Consul := empty_ConsulFlags
         \<lparr>cf_GRPCPort := Some 8502, cf_ServerWatchDisabled := Some False,
          cf_TLS := empty_TLSFlags\<lparr>tf_Disabled := Some False, tf_InsecureSkipVerify := Some False\<rparr>\<rparr>,
       df_Logging := \<lparr>gf_Name = ''consul-dataplane'', gf_LogLevel = Some ''info'', gf_LogJSON = Some False\<rparr>,
       df_Telemetry :=
         \<lparr>tmf_UseCentralConfig = Some True,
          tmf_Prometheus = empty_PrometheusTelemetryFlags
            \<lparr>pmf_RetentionTime := Some 60000000000, pmf_ScrapePath := Some ''/metrics'', pmf_MergePort := Some 20100\<rparr>\<rparr>,
       df_Envoy := empty_EnvoyFlags
         \<lparr>ef_AdminBindAddr := Some ''127.0.0.1'', ef_AdminBindPort := Some 19000, ef_ReadyBindPort := Some 0,
          ef_Concurrency := Some 2, ef_DrainTimeSeconds := Some 30, ef_DrainStrategy := Some ''immediate'',
          ef_ShutdownDrainListenersEnabled := Some False, ef_ShutdownGracePeriodSeconds := Some 0,
          ef_GracefulShutdownPath := Some ''/graceful_shutdown'', ef_GracefulPort := Some 20300,
          ef_DumpEnvoyConfigOnExitEnabled := Some False, ef_GracefulStartupPath := Some ''/graceful_startup'',
          ef_StartupGracePeriodSeconds := Some 0\<rparr>,
       df_XDSServer := \<lparr>xf_BindAddr = Some ''127.0.0.1'', xf_BindPort = Some 0\<rparr>,
       df_DNSServer := \<lparr>nf_BindAddr = Some ''127.0.0.1'', nf_BindPort = Some (- 1)\<rparr>\<rparr>)"

section \<open>Lemmas\<close>

lemmas field_tables = tls_fields_def static_fields_def login_fields_def credentials_fields_def consul_fields_def service_fields_def proxy_fields_def xdsServer_fields_def dnsServer_fields_def logging_fields_def prometheus_fields_def telemetry_fields_def envoy_fields_def config_fields_def

lemmas empty_flag_defs = empty_TLSFlags_def empty_StaticCredentialsFlags_def empty_LoginCredentialsFlags_def empty_CredentialsFlags_def empty_ConsulFlags_def empty_ServiceFlags_def empty_ProxyFlags_def empty_XDSServerFlags_def empty_DNSServerFlags_def empty_LogFlags_def empty_PrometheusTelemetryFlags_def empty_TelemetryFlags_def empty_EnvoyFlags_def empty_DataplaneConfigFlags_def

lemma coerce_literal: "list_all (byte_in 0 0x7F) s \<Longrightarrow> coerce_utf8 s = s"
  using ascii_valid by (simp add: ascii_def valid_utf8_def)

lemmas decode_simps = decode_struct_def struct_field_def ptr_field_def plain_field_def find_field_def coerce_literal byte_in_def

text \<open>The value of the text of the defaults.\<close>

definition default_json :: json where
  "default_json = JObj [(''mode'', JStr ''sidecar''),
      (''consul'', JObj [(''grpcPort'', JNum ''8502''),
        (''serverWatchDisabled'', JBool False),
        (''tls'', JObj [(''disabled'', JBool False),
          (''insecureSkipVerify'', JBool False)])]),
      (''logging'', JObj [(''name'', JStr ''consul-dataplane''),
        (''logJSON'', JBool False),
        (''logLevel'', JStr ''info'')]),
      (''telemetry'', JObj [(''useCentralConfig'', JBool True),
        (''prometheus'', JObj [(''retentionTime'', JStr ''60s''),
          (''scrapePath'', JStr ''/metrics''),
          (''mergePort'', JNum ''20100'')])]),
      (''envoy'', JObj [(''adminBindAddress'', JStr ''127.0.0.1''),
        (''adminBindPort'', JNum ''19000''),
        (''readyBindPort'', JNum ''0''),
        (''concurrency'', JNum ''2''),
        (''drainTimeSeconds'', JNum ''30''),
        (''drainStrategy'', JStr ''immediate''),
        (''shutdownDrainListenersEnabled'', JBool False),
        (''shutdownGracePeriodSeconds'', JNum ''0''),
        (''gracefulShutdownPath'', JStr ''/graceful_shutdown''),
        (''gracefulPort'', JNum ''20300''),
        (''dumpEnvoyConfigOnExitEnabled'', JBool False),
        (''gracefulStartupPath'', JStr ''/graceful_startup''),
        (''startupGracePeriodSeconds'', JNum ''0'')]),
      (''xdsServer'', JObj [(''bindAddress'', JStr ''127.0.0.1''),
        (''bindPort'', JNum ''0'')]),
      (''dnsServer'', JObj [(''bindAddress'', JStr ''127.0.0.1''),
        (''bindPort'', JNum ''-1'')])]"

lemma parse_default: "parse_json default_text = Some default_json"
  by code_simp

lemma default_numbers:
  "Atoi ''8502'' = Inr 8502" "Atoi ''20100'' = Inr 20100" "Atoi ''19000'' = Inr 19000" "Atoi ''0'' = Inr 0" "Atoi ''2'' = Inr 2"
  "Atoi ''30'' = Inr 30" "Atoi ''20300'' = Inr 20300" "Atoi ''-1'' = Inr (- 1)"
  by (simp_all add: Atoi_def Let_def digits_val_def is_digit_def)

lemma default_duration: "ParseDuration ''60s'' = Inr 60000000000"
  by code_simp

lemma fold_Name: "fold_name ''Name'' = ''NAME''" "fold_name ''name'' = ''NAME''"
  by code_simp+

text \<open>The text of the defaults is accepted and says what it should.\<close>

lemma buildDefaultConsulDPFlags_eq [simp]: "buildDefaultConsulDPFlags oob = Inr default_flags"
proof -
  have "decode_struct (config_fields oob) default_json empty_DataplaneConfigFlags = Inr default_flags"
    by (simp add: default_json_def default_flags_def decode_simps field_tables empty_flag_defs default_numbers default_duration
        fold_Name del: fold_name.simps)
  then show ?thesis by (simp add: buildDefaultConsulDPFlags_def Unmarshal_def parse_default)
qed

section \<open>Which texts are accepted\<close>

text \<open>The shapes of the values: a field may be null; a name that is not a field is ignored.\<close>

fun is_duration :: "json \<Rightarrow> bool" where
  "is_duration (JNum t) \<longleftrightarrow> (case num_fraction t of (neg, n, d) \<Rightarrow> int (trunc_float64 n d) < 2 ^ 1024)"
| "is_duration (JStr s) \<longleftrightarrow> (case ParseDuration (coerce_utf8 s) of Inl _ \<Rightarrow> False | Inr _ \<Rightarrow> True)"
| "is_duration _ \<longleftrightarrow> False"

definition tls_shape :: "(string \<times> (json \<Rightarrow> bool)) list" where
  "tls_shape =
    [(''disabled'', null_or is_bool),
     (''caCertsPath'', null_or is_str),
     (''serverName'', null_or is_str),
     (''certFile'', null_or is_str),
     (''keyFile'', null_or is_str),
     (''insecureSkipVerify'', null_or is_bool)]"

definition static_shape :: "(string \<times> (json \<Rightarrow> bool)) list" where
  "static_shape =
    [(''token'', null_or is_str)]"

definition login_shape :: "(string \<times> (json \<Rightarrow> bool)) list" where
  "login_shape =
    [(''authMethod'', null_or is_str),
     (''namespace'', null_or is_str),
     (''partition'', null_or is_str),
     (''datacenter'', null_or is_str),
     (''bearerToken'', null_or is_str),
     (''bearerTokenPath'', null_or is_str),
     (''meta'', null_or is_string_map)]"

definition credentials_shape :: "(string \<times> (json \<Rightarrow> bool)) list" where
  "credentials_shape =
    [(''type'', null_or is_str),
     (''static'', null_or (is_struct static_shape)),
     (''login'', null_or (is_struct login_shape))]"

definition consul_shape :: "(string \<times> (json \<Rightarrow> bool)) list" where
  "consul_shape =
    [(''addresses'', null_or is_str),
     (''grpcPort'', null_or is_int),
     (''serverWatchDisabled'', null_or is_bool),
     (''tls'', null_or (is_struct tls_shape)),
     (''credentials'', null_or (is_struct credentials_shape))]"

definition service_shape :: "(string \<times> (json \<Rightarrow> bool)) list" where
  "service_shape =
    [(''nodeName'', null_or is_str),
     (''nodeID'', null_or is_str),
     (''serviceID'', null_or is_str),
     (''serviceIDPath'', null_or is_str),
     (''namespace'', null_or is_str),
     (''partition'', null_or is_str)]"

definition proxy_shape :: "(string \<times> (json \<Rightarrow> bool)) list" where
  "proxy_shape =
    [(''nodeName'', null_or is_str),
     (''nodeID'', null_or is_str),
     (''id'', null_or is_str),
     (''idPath'', null_or is_str),
     (''namespace'', null_or is_str),
     (''partition'', null_or is_str)]"

definition xdsServer_shape :: "(string \<times> (json \<Rightarrow> bool)) list" where
  "xdsServer_shape =
    [(''bindAddress'', null_or is_str),
     (''bindPort'', null_or is_int)]"

definition dnsServer_shape :: "(string \<times> (json \<Rightarrow> bool)) list" where
  "dnsServer_shape =
    [(''bindAddress'', null_or is_str),
     (''bindPort'', null_or is_int)]"

definition logging_shape :: "(string \<times> (json \<Rightarrow> bool)) list" where
  "logging_shape =
    [(''Name'', null_or is_str),
     (''logLevel'', null_or is_str),
     (''logJSON'', null_or is_bool)]"

definition prometheus_shape :: "(string \<times> (json \<Rightarrow> bool)) list" where
  "prometheus_shape =
    [(''retentionTime'', null_or is_duration),
     (''caCertsPath'', null_or is_str),
     (''keyFile'', null_or is_str),
     (''certFile'', null_or is_str),
     (''serviceMetricsURL'', null_or is_str),
     (''scrapePath'', null_or is_str),
     (''mergePort'', null_or is_int)]"

definition telemetry_shape :: "(string \<times> (json \<Rightarrow> bool)) list" where
  "telemetry_shape =
    [(''useCentralConfig'', null_or is_bool),
     (''prometheus'', null_or (is_struct prometheus_shape))]"

definition envoy_shape :: "(string \<times> (json \<Rightarrow> bool)) list" where
  "envoy_shape =
    [(''adminBindAddress'', null_or is_str),
     (''adminBindPort'', null_or is_int),
     (''readyBindAddress'', null_or is_str),
     (''readyBindPort'', null_or is_int),
     (''concurrency'', null_or is_int),
     (''drainTimeSeconds'', null_or is_int),
     (''drainStrategy'', null_or is_str),
     (''executablePath'', null_or is_str),
     (''shutdownDrainListenersEnabled'', null_or is_bool),
     (''shutdownGracePeriodSeconds'', null_or is_int),
     (''gracefulShutdownPath'', null_or is_str),
     (''gracefulAddr'', null_or is_str),
     (''gracefulPort'', null_or is_int),
     (''dumpEnvoyConfigOnExitEnabled'', null_or is_bool),
     (''startupGracePeriodSeconds'', null_or is_int),
     (''gracefulStartupPath'', null_or is_str)]"

definition config_shape :: "(string \<times> (json \<Rightarrow> bool)) list" where
  "config_shape =
    [(''mode'', null_or is_str),
     (''consul'', null_or (is_struct consul_shape)),
     (''service'', null_or (is_struct service_shape)),
     (''proxy'', null_or (is_struct proxy_shape)),
     (''logging'', null_or (is_struct logging_shape)),
     (''xdsServer'', null_or (is_struct xdsServer_shape)),
     (''dnsServer'', null_or (is_struct dnsServer_shape)),
     (''telemetry'', null_or (is_struct telemetry_shape)),
     (''envoy'', null_or (is_struct envoy_shape))]"


definition config_file :: "json \<Rightarrow> bool" where
  "config_file = null_or (is_struct config_shape)"

lemmas shape_tables = tls_shape_def static_shape_def login_shape_def credentials_shape_def consul_shape_def service_shape_def proxy_shape_def xdsServer_shape_def dnsServer_shape_def logging_shape_def prometheus_shape_def telemetry_shape_def envoy_shape_def config_shape_def

lemma duration_Inr: "(\<exists>x. duration_of_json oob v = Inr x) \<longleftrightarrow> is_duration v"
  by (cases v) (auto simp: float_to_int64_def Let_def split: prod.split sum.split)

lemma config_accepts: "accepts (decode_struct (config_fields oob)) config_file"
  unfolding config_file_def
  by (intro accepts_struct) (simp add: field_tables shape_tables accepts_rules duration_Inr)

section \<open>Writing a configuration file\<close>

text \<open>
  The JSON of given settings, one member for each setting that is there. The members of the
  map are given as a list.
\<close>

definition opt_member :: "string \<Rightarrow> ('a \<Rightarrow> json) \<Rightarrow> 'a option \<Rightarrow> (string \<times> json) list" where
  "opt_member n f x = (case x of None \<Rightarrow> [] | Some y \<Rightarrow> [(n, f y)])"

definition json_int :: "int \<Rightarrow> json" where
  "json_int i = JNum (Itoa i)"

definition json_duration :: "int \<Rightarrow> json" where
  "json_duration d = JStr (Itoa d @ ''ns'')"

definition encode_tls :: "TLSFlags \<Rightarrow> (string \<times> json) list" where
  "encode_tls c =
     opt_member ''disabled'' JBool (tf_Disabled c)
     @ opt_member ''caCertsPath'' JStr (tf_CACertsPath c)
     @ opt_member ''serverName'' JStr (tf_ServerName c)
     @ opt_member ''certFile'' JStr (tf_CertFile c)
     @ opt_member ''keyFile'' JStr (tf_KeyFile c)
     @ opt_member ''insecureSkipVerify'' JBool (tf_InsecureSkipVerify c)"

definition encode_static :: "StaticCredentialsFlags \<Rightarrow> (string \<times> json) list" where
  "encode_static c =
     opt_member ''token'' JStr (stf_Token c)"

definition encode_login :: "(string \<times> string) list option \<Rightarrow> LoginCredentialsFlags \<Rightarrow> (string \<times> json) list" where
  "encode_login meta c =
     opt_member ''authMethod'' JStr (lf_AuthMethod c)
     @ opt_member ''namespace'' JStr (lf_Namespace c)
     @ opt_member ''partition'' JStr (lf_Partition c)
     @ opt_member ''datacenter'' JStr (lf_Datacenter c)
     @ opt_member ''bearerToken'' JStr (lf_BearerToken c)
     @ opt_member ''bearerTokenPath'' JStr (lf_BearerTokenPath c)
     @ opt_member ''meta'' (\<lambda>kvs. JObj (map (apsnd JStr) kvs)) meta"

definition encode_credentials :: "(string \<times> string) list option \<Rightarrow> CredentialsFlags \<Rightarrow> (string \<times> json) list" where
  "encode_credentials meta c =
     opt_member ''type'' JStr (crf_Type c)
     @ [(''static'', JObj (encode_static (crf_Static c)))]
     @ [(''login'', JObj (encode_login meta (crf_Login c)))]"

definition encode_consul :: "(string \<times> string) list option \<Rightarrow> ConsulFlags \<Rightarrow> (string \<times> json) list" where
  "encode_consul meta c =
     opt_member ''addresses'' JStr (cf_Addresses c)
     @ opt_member ''grpcPort'' json_int (cf_GRPCPort c)
     @ opt_member ''serverWatchDisabled'' JBool (cf_ServerWatchDisabled c)
     @ [(''tls'', JObj (encode_tls (cf_TLS c)))]
     @ [(''credentials'', JObj (encode_credentials meta (cf_Credentials c)))]"

definition encode_service :: "ServiceFlags \<Rightarrow> (string \<times> json) list" where
  "encode_service c =
     opt_member ''nodeName'' JStr (svf_NodeName c)
     @ opt_member ''nodeID'' JStr (svf_NodeID c)
     @ opt_member ''serviceID'' JStr (svf_ServiceID c)
     @ opt_member ''serviceIDPath'' JStr (svf_ServiceIDPath c)
     @ opt_member ''namespace'' JStr (svf_Namespace c)
     @ opt_member ''partition'' JStr (svf_Partition c)"

definition encode_proxy :: "ProxyFlags \<Rightarrow> (string \<times> json) list" where
  "encode_proxy c =
     opt_member ''nodeName'' JStr (pf_NodeName c)
     @ opt_member ''nodeID'' JStr (pf_NodeID c)
     @ opt_member ''id'' JStr (pf_ID c)
     @ opt_member ''idPath'' JStr (pf_IDPath c)
     @ opt_member ''namespace'' JStr (pf_Namespace c)
     @ opt_member ''partition'' JStr (pf_Partition c)"

definition encode_xdsServer :: "XDSServerFlags \<Rightarrow> (string \<times> json) list" where
  "encode_xdsServer c =
     opt_member ''bindAddress'' JStr (xf_BindAddr c)
     @ opt_member ''bindPort'' json_int (xf_BindPort c)"

definition encode_dnsServer :: "DNSServerFlags \<Rightarrow> (string \<times> json) list" where
  "encode_dnsServer c =
     opt_member ''bindAddress'' JStr (nf_BindAddr c)
     @ opt_member ''bindPort'' json_int (nf_BindPort c)"

definition encode_logging :: "LogFlags \<Rightarrow> (string \<times> json) list" where
  "encode_logging c =
     [(''Name'', JStr (gf_Name c))]
     @ opt_member ''logLevel'' JStr (gf_LogLevel c)
     @ opt_member ''logJSON'' JBool (gf_LogJSON c)"

definition encode_prometheus :: "PrometheusTelemetryFlags \<Rightarrow> (string \<times> json) list" where
  "encode_prometheus c =
     opt_member ''retentionTime'' json_duration (pmf_RetentionTime c)
     @ opt_member ''caCertsPath'' JStr (pmf_CACertsPath c)
     @ opt_member ''keyFile'' JStr (pmf_KeyFile c)
     @ opt_member ''certFile'' JStr (pmf_CertFile c)
     @ opt_member ''serviceMetricsURL'' JStr (pmf_ServiceMetricsURL c)
     @ opt_member ''scrapePath'' JStr (pmf_ScrapePath c)
     @ opt_member ''mergePort'' json_int (pmf_MergePort c)"

definition encode_telemetry :: "TelemetryFlags \<Rightarrow> (string \<times> json) list" where
  "encode_telemetry c =
     opt_member ''useCentralConfig'' JBool (tmf_UseCentralConfig c)
     @ [(''prometheus'', JObj (encode_prometheus (tmf_Prometheus c)))]"

definition encode_envoy :: "EnvoyFlags \<Rightarrow> (string \<times> json) list" where
  "encode_envoy c =
     opt_member ''adminBindAddress'' JStr (ef_AdminBindAddr c)
     @ opt_member ''adminBindPort'' json_int (ef_AdminBindPort c)
     @ opt_member ''readyBindAddress'' JStr (ef_ReadyBindAddr c)
     @ opt_member ''readyBindPort'' json_int (ef_ReadyBindPort c)
     @ opt_member ''concurrency'' json_int (ef_Concurrency c)
     @ opt_member ''drainTimeSeconds'' json_int (ef_DrainTimeSeconds c)
     @ opt_member ''drainStrategy'' JStr (ef_DrainStrategy c)
     @ opt_member ''executablePath'' JStr (ef_ExecutablePath c)
     @ opt_member ''shutdownDrainListenersEnabled'' JBool (ef_ShutdownDrainListenersEnabled c)
     @ opt_member ''shutdownGracePeriodSeconds'' json_int (ef_ShutdownGracePeriodSeconds c)
     @ opt_member ''gracefulShutdownPath'' JStr (ef_GracefulShutdownPath c)
     @ opt_member ''gracefulAddr'' JStr (ef_GracefulAddr c)
     @ opt_member ''gracefulPort'' json_int (ef_GracefulPort c)
     @ opt_member ''dumpEnvoyConfigOnExitEnabled'' JBool (ef_DumpEnvoyConfigOnExitEnabled c)
     @ opt_member ''startupGracePeriodSeconds'' json_int (ef_StartupGracePeriodSeconds c)
     @ opt_member ''gracefulStartupPath'' JStr (ef_GracefulStartupPath c)"

definition encode_config :: "(string \<times> string) list option \<Rightarrow> DataplaneConfigFlags \<Rightarrow> (string \<times> json) list" where
  "encode_config meta c =
     opt_member ''mode'' JStr (df_Mode c)
     @ [(''consul'', JObj (encode_consul meta (df_Consul c)))]
     @ [(''service'', JObj (encode_service (df_Service c)))]
     @ [(''proxy'', JObj (encode_proxy (df_Proxy c)))]
     @ [(''logging'', JObj (encode_logging (df_Logging c)))]
     @ [(''xdsServer'', JObj (encode_xdsServer (df_XDSServer c)))]
     @ [(''dnsServer'', JObj (encode_dnsServer (df_DNSServer c)))]
     @ [(''telemetry'', JObj (encode_telemetry (df_Telemetry c)))]
     @ [(''envoy'', JObj (encode_envoy (df_Envoy c)))]"

section \<open>Reading it back\<close>

text \<open>
  Decoding a member that was written for a setting sets that setting and nothing else, one lemma for each type of
  setting; a list of members is then decoded from left to right.
\<close>

lemma Itoa_number_text: "number_text (Itoa i)"
proof (cases "i < 0")
  case True
  have "number_text (nat_digits (nat (- i)))" by (rule nat_digits_number)
  moreover have "hd (nat_digits (nat (- i))) \<noteq> CHR ''-''" 
    using nat_digits_props [of "nat (- i)"] by (cases "nat_digits (nat (- i))") (auto simp: is_digit_def)
  ultimately show ?thesis using True by (auto simp: Itoa_def number_text_def Let_def)
next
  case False
  then show ?thesis by (simp add: Itoa_def nat_digits_number)
qed

definition is_int64 :: "int \<Rightarrow> bool" where
  "is_int64 i \<longleftrightarrow> - (2 ^ 63) \<le> i \<and> i < 2 ^ 63"

lemma decode_opt:
  assumes "find_field fs n = Some (ptr_field conv upd)" and "ascii n" and "pred_option (\<lambda>y. f y \<noteq> JNull \<and> conv (f y) = Inr y) x"
    and "upd None s = s"
  shows "decode_members fs (opt_member n f x @ ms) s = decode_members fs ms (upd x s)"
  using assms ascii_valid [OF assms(2)] by (cases x) (simp_all add: opt_member_def ptr_field_def valid_utf8_def)

lemma decode_str:
  "find_field fs n = Some (ptr_field as_string upd) \<Longrightarrow> ascii n \<Longrightarrow> pred_option valid_utf8 x \<Longrightarrow> upd None s = s \<Longrightarrow>
   decode_members fs (opt_member n JStr x @ ms) s = decode_members fs ms (upd x s)"
  by (rule decode_opt) (auto simp: valid_utf8_def elim!: option.pred_mono_strong)

lemma decode_bool:
  "find_field fs n = Some (ptr_field as_bool upd) \<Longrightarrow> ascii n \<Longrightarrow> upd None s = s \<Longrightarrow>
   decode_members fs (opt_member n JBool x @ ms) s = decode_members fs ms (upd x s)"
  by (rule decode_opt) (auto simp: pred_option_def)

lemma decode_int:
  "find_field fs n = Some (ptr_field as_int upd) \<Longrightarrow> ascii n \<Longrightarrow> pred_option is_int64 x \<Longrightarrow> upd None s = s \<Longrightarrow>
   decode_members fs (opt_member n json_int x @ ms) s = decode_members fs ms (upd x s)"
  by (rule decode_opt) (auto simp: json_int_def is_int64_def Atoi_Itoa elim!: option.pred_mono_strong)

lemma Itoa_ascii: "ascii (Itoa i)"
  using nat_digits_props [of "nat i"] nat_digits_props [of "nat (- i)"]
  by (auto simp: Itoa_def ascii_def byte_in_def is_digit_def list_all_iff)

lemma decode_duration:
  "find_field fs n = Some (ptr_field (duration_of_json oob) upd) \<Longrightarrow> ascii n \<Longrightarrow> pred_option is_int64 x \<Longrightarrow> upd None s = s \<Longrightarrow>
   decode_members fs (opt_member n json_duration x @ ms) s = decode_members fs ms (upd x s)"
proof (rule decode_opt)
  have "coerce_utf8 (Itoa d @ ''ns'') = Itoa d @ ''ns''" for d
    using Itoa_ascii [of d] by (intro coerce_literal) (simp add: ascii_def byte_in_def)
  then show "pred_option (\<lambda>y. json_duration y \<noteq> JNull \<and> duration_of_json oob (json_duration y) = Inr y) x" if "pred_option is_int64 x"
    using that by (auto simp: json_duration_def is_int64_def ParseDuration_ns elim!: option.pred_mono_strong)
qed

lemma decode_sub:
  "find_field fs n = Some (struct_field get upd (decode_struct gs)) \<Longrightarrow> ascii n \<Longrightarrow> decode_members gs es (get s) = Inr t \<Longrightarrow>
   decode_members fs ((n, JObj es) # ms) s = decode_members fs ms (upd t s)"
  using ascii_valid [of n] by (simp add: struct_field_def decode_struct_def valid_utf8_def)

lemma add_strings_rev:
  "list_all (\<lambda>(k, v). valid_utf8 k \<and> valid_utf8 v) kvs \<Longrightarrow> add_strings (map (apsnd JStr) kvs) mp = Inr (mp ++ map_of (rev kvs))"
  by (induction kvs arbitrary: mp) (auto simp: valid_utf8_def)

lemma decode_map:
  "find_field fs n = Some (map_field get upd) \<Longrightarrow> ascii n \<Longrightarrow> pred_option (list_all (\<lambda>(k, v). valid_utf8 k \<and> valid_utf8 v)) x \<Longrightarrow>
   get s = None \<Longrightarrow> upd None s = s \<Longrightarrow>
   decode_members fs (opt_member n (\<lambda>kvs. JObj (map (apsnd JStr) kvs)) x @ ms) s = decode_members fs ms (upd (map_option (\<lambda>kvs. map_of (rev kvs)) x) s)"
  using ascii_valid [of n] by (cases x) (auto simp: opt_member_def map_field_def valid_utf8_def add_strings_rev)

lemma decode_plain:
  "find_field fs n = Some (plain_field as_string upd) \<Longrightarrow> ascii n \<Longrightarrow> valid_utf8 x \<Longrightarrow>
   decode_members fs ((n, JStr x) # ms) s = decode_members fs ms (upd x s)"
  using ascii_valid [of n] by (simp add: plain_field_def valid_utf8_def)

definition valid_settings :: "(string \<times> string) list option \<Rightarrow> DataplaneConfigFlags \<Rightarrow> bool" where
  "valid_settings meta c \<longleftrightarrow>
     list_all (\<lambda>g. pred_option valid_utf8 (g c)) string_settings
     \<and> list_all (\<lambda>g. pred_option is_int64 (g c)) (int_settings @ duration_settings)
     \<and> valid_utf8 (gf_Name (df_Logging c))
     \<and> pred_option (list_all (\<lambda>(k, v). valid_utf8 k \<and> valid_utf8 v)) meta
     \<and> lf_Meta (crf_Login (cf_Credentials (df_Consul c))) = map_option (\<lambda>kvs. map_of (rev kvs)) meta"

lemmas setting_lists = string_settings_def int_settings_def duration_settings_def

lemmas decode_one = decode_str decode_bool decode_int decode_duration decode_map
lemmas decode_setting = decode_one decode_one [where ms = "[]", simplified] decode_sub decode_plain
lemmas decode_rules = find_field_def ascii_def byte_in_def

lemma decode_tls:
  "valid_settings meta c \<Longrightarrow> decode_members tls_fields (encode_tls (cf_TLS (df_Consul c))) empty_TLSFlags = Inr (cf_TLS (df_Consul c))"
  by (cases "cf_TLS (df_Consul c)")
    (simp add: valid_settings_def setting_lists encode_tls_def tls_fields_def empty_TLSFlags_def decode_setting decode_rules
      del: decode_members.simps(2))

lemma decode_static:
  "valid_settings meta c \<Longrightarrow> decode_members static_fields (encode_static (crf_Static (cf_Credentials (df_Consul c)))) empty_StaticCredentialsFlags = Inr (crf_Static (cf_Credentials (df_Consul c)))"
  by (cases "crf_Static (cf_Credentials (df_Consul c))")
    (simp add: valid_settings_def setting_lists encode_static_def static_fields_def empty_StaticCredentialsFlags_def decode_setting decode_rules
      del: decode_members.simps(2))

lemma decode_login:
  "valid_settings meta c \<Longrightarrow> decode_members login_fields (encode_login meta (crf_Login (cf_Credentials (df_Consul c)))) empty_LoginCredentialsFlags = Inr (crf_Login (cf_Credentials (df_Consul c)))"
  by (cases "crf_Login (cf_Credentials (df_Consul c))")
    (simp add: valid_settings_def setting_lists encode_login_def login_fields_def empty_LoginCredentialsFlags_def decode_setting decode_rules
      del: decode_members.simps(2))

lemma decode_credentials:
  assumes v: "valid_settings meta c"
  shows "decode_members credentials_fields (encode_credentials meta (cf_Credentials (df_Consul c))) empty_CredentialsFlags = Inr (cf_Credentials (df_Consul c))"
proof -
  note subs = decode_static [OF v] decode_login [OF v]
  show ?thesis using v subs
    by (cases "cf_Credentials (df_Consul c)")
      (simp add: valid_settings_def setting_lists encode_credentials_def credentials_fields_def empty_CredentialsFlags_def decode_setting decode_rules
        del: decode_members.simps(2))
qed

lemma decode_consul:
  assumes v: "valid_settings meta c"
  shows "decode_members consul_fields (encode_consul meta (df_Consul c)) empty_ConsulFlags = Inr (df_Consul c)"
proof -
  note subs = decode_tls [OF v] decode_credentials [OF v]
  show ?thesis using v subs
    by (cases "df_Consul c")
      (simp add: valid_settings_def setting_lists encode_consul_def consul_fields_def empty_ConsulFlags_def decode_setting decode_rules
        del: decode_members.simps(2))
qed

lemma decode_service:
  "valid_settings meta c \<Longrightarrow> decode_members service_fields (encode_service (df_Service c)) empty_ServiceFlags = Inr (df_Service c)"
  by (cases "df_Service c")
    (simp add: valid_settings_def setting_lists encode_service_def service_fields_def empty_ServiceFlags_def decode_setting decode_rules
      del: decode_members.simps(2))

lemma decode_proxy:
  "valid_settings meta c \<Longrightarrow> decode_members proxy_fields (encode_proxy (df_Proxy c)) empty_ProxyFlags = Inr (df_Proxy c)"
  by (cases "df_Proxy c")
    (simp add: valid_settings_def setting_lists encode_proxy_def proxy_fields_def empty_ProxyFlags_def decode_setting decode_rules
      del: decode_members.simps(2))

lemma decode_xdsServer:
  "valid_settings meta c \<Longrightarrow> decode_members xdsServer_fields (encode_xdsServer (df_XDSServer c)) empty_XDSServerFlags = Inr (df_XDSServer c)"
  by (cases "df_XDSServer c")
    (simp add: valid_settings_def setting_lists encode_xdsServer_def xdsServer_fields_def empty_XDSServerFlags_def decode_setting decode_rules
      del: decode_members.simps(2))

lemma decode_dnsServer:
  "valid_settings meta c \<Longrightarrow> decode_members dnsServer_fields (encode_dnsServer (df_DNSServer c)) empty_DNSServerFlags = Inr (df_DNSServer c)"
  by (cases "df_DNSServer c")
    (simp add: valid_settings_def setting_lists encode_dnsServer_def dnsServer_fields_def empty_DNSServerFlags_def decode_setting decode_rules
      del: decode_members.simps(2))

lemma decode_logging:
  "valid_settings meta c \<Longrightarrow> decode_members logging_fields (encode_logging (df_Logging c)) empty_LogFlags = Inr (df_Logging c)"
  by (cases "df_Logging c")
    (simp add: valid_settings_def setting_lists encode_logging_def logging_fields_def empty_LogFlags_def decode_setting decode_rules
      del: decode_members.simps(2))

lemma decode_prometheus:
  "valid_settings meta c \<Longrightarrow> decode_members (prometheus_fields oob) (encode_prometheus (tmf_Prometheus (df_Telemetry c))) empty_PrometheusTelemetryFlags = Inr (tmf_Prometheus (df_Telemetry c))"
  by (cases "tmf_Prometheus (df_Telemetry c)")
    (simp add: valid_settings_def setting_lists encode_prometheus_def prometheus_fields_def empty_PrometheusTelemetryFlags_def decode_setting decode_rules
      del: decode_members.simps(2))

lemma decode_telemetry:
  assumes v: "valid_settings meta c"
  shows "decode_members (telemetry_fields oob) (encode_telemetry (df_Telemetry c)) empty_TelemetryFlags = Inr (df_Telemetry c)"
proof -
  note subs = decode_prometheus [OF v]
  show ?thesis using v subs
    by (cases "df_Telemetry c")
      (simp add: valid_settings_def setting_lists encode_telemetry_def telemetry_fields_def empty_TelemetryFlags_def decode_setting decode_rules
        del: decode_members.simps(2))
qed

lemma decode_envoy:
  "valid_settings meta c \<Longrightarrow> decode_members envoy_fields (encode_envoy (df_Envoy c)) empty_EnvoyFlags = Inr (df_Envoy c)"
  by (cases "df_Envoy c")
    (simp add: valid_settings_def setting_lists encode_envoy_def envoy_fields_def empty_EnvoyFlags_def decode_setting decode_rules
      del: decode_members.simps(2))

lemma decode_config:
  assumes v: "valid_settings meta c"
  shows "decode_members (config_fields oob) (encode_config meta c) empty_DataplaneConfigFlags = Inr c"
proof -
  note subs = decode_consul [OF v] decode_service [OF v] decode_proxy [OF v] decode_logging [OF v] decode_xdsServer [OF v] decode_dnsServer [OF v] decode_telemetry [OF v] decode_envoy [OF v]
  show ?thesis using v subs
    by (cases "c")
      (simp add: valid_settings_def setting_lists encode_config_def config_fields_def empty_DataplaneConfigFlags_def decode_setting decode_rules
        del: decode_members.simps(2))
qed

lemma wf_opt_member: "(\<And>y. wf_json (f y)) \<Longrightarrow> list_all snd (map (map_prod id wf_json) (opt_member n f x))"
  by (cases x) (simp_all add: opt_member_def)

lemma wf_encode: "wf_json (JObj (encode_config meta c))"
proof -
  have "wf_json (JObj (map (apsnd JStr) kvs))" for kvs :: "(string \<times> string) list" by (auto simp: list_all_iff)
  then show ?thesis
    by (simp add: encode_config_def encode_consul_def encode_service_def encode_proxy_def encode_logging_def encode_xdsServer_def
      encode_dnsServer_def encode_telemetry_def encode_envoy_def encode_tls_def encode_credentials_def encode_static_def encode_login_def
      encode_prometheus_def wf_opt_member json_int_def json_duration_def Itoa_number_text)
qed

section \<open>What the file does\<close>

text \<open>C12: The configuration file is typed. A text is accepted as a configuration file exactly
  when it is, up to white space around it, a JSON text whose value is null or an object in
  which every member whose name is a setting's has null or a value of that setting's
  type: strings, integers of 64 bits, booleans, durations as numbers or as text, maps of
  strings, and objects for the groups, again of settings. Other members are ignored.
\<close>

theorem config_file_accepted:
  "(\<exists>c. Unmarshal oob s = Inr c) \<longleftrightarrow>
   (\<exists>w t u v. s = w @ t @ u \<and> is_ws w \<and> is_ws u \<and> denotes t v \<and> config_file v)"
proof -
  have "(\<exists>c. Unmarshal oob s = Inr c) \<longleftrightarrow> (\<exists>v. parse_json s = Some v \<and> config_file v)"
    using config_accepts [of oob] by (auto simp: Unmarshal_def accepts_def split: option.split)
  then show ?thesis by (auto simp: parse_json_iff)
qed

text \<open>C13: Settings survive the file. Any settings (strings of valid UTF-8, integers and durations of
  64 bits), written as a configuration file with one member for each setting that is there, are read
  back as exactly these settings, with nothing set that was not.
\<close>

theorem config_file_roundtrip:
  assumes "valid_settings meta c"
  shows "Unmarshal oob (print_json (JObj (encode_config meta c))) = Inr c"
  using decode_config [OF assms, of oob] by (simp add: Unmarshal_def parse_print [OF wf_encode] decode_struct_def del: print_json.simps)

theorem config_file_roundtrip_witness:
  "valid_settings None default_flags
   \<and> Unmarshal (\<lambda>_. 0) (print_json (JObj (encode_config None default_flags))) = Inr default_flags"
proof -
  have "valid_settings None default_flags"
    by (simp add: valid_settings_def setting_lists default_flags_def empty_flag_defs is_int64_def coerce_literal valid_utf8_def byte_in_def)
  with config_file_roundtrip [of None default_flags "\<lambda>_. 0"] show ?thesis by blast
qed

end
