(* ===== verification/Cli_Config.thy ===== *)
theory Cli_Config
  imports Config_File Dataplane_Config
begin

text \<open>
  The command's own configuration: the flags it declares with their environment variables
  (\<open>init\<close>, \<open>validateFlags\<close>, the ID files and the health check of
  \<open>cmd/consul-dataplane/main.go\<close>), and how defaults, configuration file and flags become
  a dataplane configuration (\<open>cmd/consul-dataplane/config.go\<close>). Merging two sets of flags is
  the \<open>mergo\<close> library, an argument, as is the file system.
\<close>

section \<open>The declared flags\<close>

text \<open>
  A declaration: the flag's name, its environment variable and how it updates the
  settings. A map flag has variables numbered 1 to 9.
\<close>

datatype flag_decl =
    StringFlag string string "string option \<Rightarrow> DataplaneConfigFlags \<Rightarrow> DataplaneConfigFlags"
  | IntFlag string string "int option \<Rightarrow> DataplaneConfigFlags \<Rightarrow> DataplaneConfigFlags"
  | BoolFlag string string "bool option \<Rightarrow> DataplaneConfigFlags \<Rightarrow> DataplaneConfigFlags"
  | DurationFlag string string "int option \<Rightarrow> DataplaneConfigFlags \<Rightarrow> DataplaneConfigFlags"
  | MapFlag string string "((string \<rightharpoonup> string) option \<Rightarrow> (string \<rightharpoonup> string) option) \<Rightarrow> DataplaneConfigFlags \<Rightarrow> DataplaneConfigFlags"

definition flags_consul :: "flag_decl list" where
  "flags_consul =
    [StringFlag ''mode'' ''DP_MODE'' (\<lambda>v. df_Mode_update (\<lambda>_. v)),
     StringFlag ''addresses'' ''DP_CONSUL_ADDRESSES'' (\<lambda>v. df_Consul_update (cf_Addresses_update (\<lambda>_. v))),
     IntFlag ''grpc-port'' ''DP_CONSUL_GRPC_PORT'' (\<lambda>v. df_Consul_update (cf_GRPCPort_update (\<lambda>_. v))),
     BoolFlag ''server-watch-disabled'' ''DP_SERVER_WATCH_DISABLED'' (\<lambda>v. df_Consul_update (cf_ServerWatchDisabled_update (\<lambda>_. v))),
     StringFlag ''log-level'' ''DP_LOG_LEVEL'' (\<lambda>v. df_Logging_update (gf_LogLevel_update (\<lambda>_. v))),
     BoolFlag ''log-json'' ''DP_LOG_JSON'' (\<lambda>v. df_Logging_update (gf_LogJSON_update (\<lambda>_. v)))]"

definition flags_service :: "flag_decl list" where
  "flags_service =
    [StringFlag ''service-node-name'' ''DP_SERVICE_NODE_NAME'' (\<lambda>v. df_Service_update (svf_NodeName_update (\<lambda>_. v))),
     StringFlag ''service-node-id'' ''DP_SERVICE_NODE_ID'' (\<lambda>v. df_Service_update (svf_NodeID_update (\<lambda>_. v))),
     StringFlag ''proxy-service-id'' ''DP_PROXY_SERVICE_ID'' (\<lambda>v. df_Service_update (svf_ServiceID_update (\<lambda>_. v))),
     StringFlag ''proxy-service-id-path'' ''DP_PROXY_SERVICE_ID_PATH'' (\<lambda>v. df_Service_update (svf_ServiceIDPath_update (\<lambda>_. v))),
     StringFlag ''service-namespace'' ''DP_SERVICE_NAMESPACE'' (\<lambda>v. df_Service_update (svf_Namespace_update (\<lambda>_. v))),
     StringFlag ''service-partition'' ''DP_SERVICE_PARTITION'' (\<lambda>v. df_Service_update (svf_Partition_update (\<lambda>_. v))),
     StringFlag ''proxy-node-name'' ''DP_PROXY_NODE_NAME'' (\<lambda>v. df_Proxy_update (pf_NodeName_update (\<lambda>_. v))),
     StringFlag ''proxy-node-id'' ''DP_PROXY_NODE_ID'' (\<lambda>v. df_Proxy_update (pf_NodeID_update (\<lambda>_. v))),
     StringFlag ''proxy-id'' ''DP_PROXY_ID'' (\<lambda>v. df_Proxy_update (pf_ID_update (\<lambda>_. v))),
     StringFlag ''proxy-id-path'' ''DP_PROXY_ID_PATH'' (\<lambda>v. df_Proxy_update (pf_IDPath_update (\<lambda>_. v))),
     StringFlag ''proxy-namespace'' ''DP_PROXY_NAMESPACE'' (\<lambda>v. df_Proxy_update (pf_Namespace_update (\<lambda>_. v))),
     StringFlag ''proxy-partition'' ''DP_PROXY_PARTITION'' (\<lambda>v. df_Proxy_update (pf_Partition_update (\<lambda>_. v)))]"

definition flags_credentials :: "flag_decl list" where
  "flags_credentials =
    [StringFlag ''credential-type'' ''DP_CREDENTIAL_TYPE'' (\<lambda>v. df_Consul_update (cf_Credentials_update (crf_Type_update (\<lambda>_. v)))),
     StringFlag ''static-token'' ''DP_CREDENTIAL_STATIC_TOKEN'' (\<lambda>v. df_Consul_update (cf_Credentials_update (crf_Static_update (stf_Token_update (\<lambda>_. v))))),
     StringFlag ''login-auth-method'' ''DP_CREDENTIAL_LOGIN_AUTH_METHOD'' (\<lambda>v. df_Consul_update (cf_Credentials_update (crf_Login_update (lf_AuthMethod_update (\<lambda>_. v))))),
     StringFlag ''login-namespace'' ''DP_CREDENTIAL_LOGIN_NAMESPACE'' (\<lambda>v. df_Consul_update (cf_Credentials_update (crf_Login_update (lf_Namespace_update (\<lambda>_. v))))),
     StringFlag ''login-partition'' ''DP_CREDENTIAL_LOGIN_PARTITION'' (\<lambda>v. df_Consul_update (cf_Credentials_update (crf_Login_update (lf_Partition_update (\<lambda>_. v))))),
     StringFlag ''login-datacenter'' ''DP_CREDENTIAL_LOGIN_DATACENTER'' (\<lambda>v. df_Consul_update (cf_Credentials_update (crf_Login_update (lf_Datacenter_update (\<lambda>_. v))))),
     StringFlag ''login-bearer-token'' ''DP_CREDENTIAL_LOGIN_BEARER_TOKEN'' (\<lambda>v. df_Consul_update (cf_Credentials_update (crf_Login_update (lf_BearerToken_update (\<lambda>_. v))))),
     StringFlag ''login-bearer-token-path'' ''DP_CREDENTIAL_LOGIN_BEARER_TOKEN_PATH'' (\<lambda>v. df_Consul_update (cf_Credentials_update (crf_Login_update (lf_BearerTokenPath_update (\<lambda>_. v))))),
     MapFlag ''login-meta'' ''DP_CREDENTIAL_LOGIN_META'' (\<lambda>f. df_Consul_update (cf_Credentials_update (crf_Login_update (lf_Meta_update f))))]"

definition flags_telemetry :: "flag_decl list" where
  "flags_telemetry =
    [BoolFlag ''telemetry-use-central-config'' ''DP_TELEMETRY_USE_CENTRAL_CONFIG'' (\<lambda>v. df_Telemetry_update (tmf_UseCentralConfig_update (\<lambda>_. v))),
     DurationFlag ''telemetry-prom-retention-time'' ''DP_TELEMETRY_PROM_RETENTION_TIME'' (\<lambda>v. df_Telemetry_update (tmf_Prometheus_update (pmf_RetentionTime_update (\<lambda>_. v)))),
     StringFlag ''telemetry-prom-ca-certs-path'' ''DP_TELEMETRY_PROM_CA_CERTS_PATH'' (\<lambda>v. df_Telemetry_update (tmf_Prometheus_update (pmf_CACertsPath_update (\<lambda>_. v)))),
     StringFlag ''telemetry-prom-key-file'' ''DP_TELEMETRY_PROM_KEY_FILE'' (\<lambda>v. df_Telemetry_update (tmf_Prometheus_update (pmf_KeyFile_update (\<lambda>_. v)))),
     StringFlag ''telemetry-prom-cert-file'' ''DP_TELEMETRY_PROM_CERT_FILE'' (\<lambda>v. df_Telemetry_update (tmf_Prometheus_update (pmf_CertFile_update (\<lambda>_. v)))),
     StringFlag ''telemetry-prom-service-metrics-url'' ''DP_TELEMETRY_PROM_SERVICE_METRICS_URL'' (\<lambda>v. df_Telemetry_update (tmf_Prometheus_update (pmf_ServiceMetricsURL_update (\<lambda>_. v)))),
     StringFlag ''telemetry-prom-scrape-path'' ''DP_TELEMETRY_PROM_SCRAPE_PATH'' (\<lambda>v. df_Telemetry_update (tmf_Prometheus_update (pmf_ScrapePath_update (\<lambda>_. v)))),
     IntFlag ''telemetry-prom-merge-port'' ''DP_TELEMETRY_PROM_MERGE_PORT'' (\<lambda>v. df_Telemetry_update (tmf_Prometheus_update (pmf_MergePort_update (\<lambda>_. v))))]"

definition flags_envoy :: "flag_decl list" where
  "flags_envoy =
    [StringFlag ''envoy-admin-bind-address'' ''DP_ENVOY_ADMIN_BIND_ADDRESS'' (\<lambda>v. df_Envoy_update (ef_AdminBindAddr_update (\<lambda>_. v))),
     IntFlag ''envoy-admin-bind-port'' ''DP_ENVOY_ADMIN_BIND_PORT'' (\<lambda>v. df_Envoy_update (ef_AdminBindPort_update (\<lambda>_. v))),
     StringFlag ''envoy-ready-bind-address'' ''DP_ENVOY_READY_BIND_ADDRESS'' (\<lambda>v. df_Envoy_update (ef_ReadyBindAddr_update (\<lambda>_. v))),
     IntFlag ''envoy-ready-bind-port'' ''DP_ENVOY_READY_BIND_PORT'' (\<lambda>v. df_Envoy_update (ef_ReadyBindPort_update (\<lambda>_. v))),
     IntFlag ''envoy-concurrency'' ''DP_ENVOY_CONCURRENCY'' (\<lambda>v. df_Envoy_update (ef_Concurrency_update (\<lambda>_. v))),
     IntFlag ''envoy-drain-time-seconds'' ''DP_ENVOY_DRAIN_TIME'' (\<lambda>v. df_Envoy_update (ef_DrainTimeSeconds_update (\<lambda>_. v))),
     StringFlag ''envoy-drain-strategy'' ''DP_ENVOY_DRAIN_STRATEGY'' (\<lambda>v. df_Envoy_update (ef_DrainStrategy_update (\<lambda>_. v))),
     StringFlag ''envoy-executable-path'' ''DP_ENVOY_EXECUTABLE_PATH'' (\<lambda>v. df_Envoy_update (ef_ExecutablePath_update (\<lambda>_. v)))]"

definition flags_servers :: "flag_decl list" where
  "flags_servers =
    [StringFlag ''xds-bind-addr'' ''DP_XDS_BIND_ADDR'' (\<lambda>v. df_XDSServer_update (xf_BindAddr_update (\<lambda>_. v))),
     IntFlag ''xds-bind-port'' ''DP_XDS_BIND_PORT'' (\<lambda>v. df_XDSServer_update (xf_BindPort_update (\<lambda>_. v))),
     BoolFlag ''tls-disabled'' ''DP_TLS_DISABLED'' (\<lambda>v. df_Consul_update (cf_TLS_update (tf_Disabled_update (\<lambda>_. v)))),
     StringFlag ''ca-certs'' ''DP_CA_CERTS'' (\<lambda>v. df_Consul_update (cf_TLS_update (tf_CACertsPath_update (\<lambda>_. v)))),
     StringFlag ''tls-cert'' ''DP_TLS_CERT'' (\<lambda>v. df_Consul_update (cf_TLS_update (tf_CertFile_update (\<lambda>_. v)))),
     StringFlag ''tls-key'' ''DP_TLS_KEY'' (\<lambda>v. df_Consul_update (cf_TLS_update (tf_KeyFile_update (\<lambda>_. v)))),
     StringFlag ''tls-server-name'' ''DP_TLS_SERVER_NAME'' (\<lambda>v. df_Consul_update (cf_TLS_update (tf_ServerName_update (\<lambda>_. v)))),
     BoolFlag ''tls-insecure-skip-verify'' ''DP_TLS_INSECURE_SKIP_VERIFY'' (\<lambda>v. df_Consul_update (cf_TLS_update (tf_InsecureSkipVerify_update (\<lambda>_. v)))),
     StringFlag ''consul-dns-bind-addr'' ''DP_CONSUL_DNS_BIND_ADDR'' (\<lambda>v. df_DNSServer_update (nf_BindAddr_update (\<lambda>_. v))),
     IntFlag ''consul-dns-bind-port'' ''DP_CONSUL_DNS_BIND_PORT'' (\<lambda>v. df_DNSServer_update (nf_BindPort_update (\<lambda>_. v)))]"

definition flags_lifecycle :: "flag_decl list" where
  "flags_lifecycle =
    [BoolFlag ''shutdown-drain-listeners'' ''DP_SHUTDOWN_DRAIN_LISTENERS'' (\<lambda>v. df_Envoy_update (ef_ShutdownDrainListenersEnabled_update (\<lambda>_. v))),
     IntFlag ''shutdown-grace-period-seconds'' ''DP_SHUTDOWN_GRACE_PERIOD_SECONDS'' (\<lambda>v. df_Envoy_update (ef_ShutdownGracePeriodSeconds_update (\<lambda>_. v))),
     StringFlag ''graceful-shutdown-path'' ''DP_GRACEFUL_SHUTDOWN_PATH'' (\<lambda>v. df_Envoy_update (ef_GracefulShutdownPath_update (\<lambda>_. v))),
     StringFlag ''graceful-addr'' ''DP_GRACEFUL_ADDR'' (\<lambda>v. df_Envoy_update (ef_GracefulAddr_update (\<lambda>_. v))),
     IntFlag ''graceful-port'' ''DP_GRACEFUL_PORT'' (\<lambda>v. df_Envoy_update (ef_GracefulPort_update (\<lambda>_. v))),
     IntFlag ''startup-grace-period-seconds'' ''DP_STARTUP_GRACE_PERIOD_SECONDS'' (\<lambda>v. df_Envoy_update (ef_StartupGracePeriodSeconds_update (\<lambda>_. v))),
     StringFlag ''graceful-startup-path'' ''DP_GRACEFUL_STARTUP_PATH'' (\<lambda>v. df_Envoy_update (ef_GracefulStartupPath_update (\<lambda>_. v))),
     BoolFlag ''dump-envoy-config-on-exit'' ''DP_DUMP_ENVOY_CONFIG_ON_EXIT'' (\<lambda>v. df_Envoy_update (ef_DumpEnvoyConfigOnExitEnabled_update (\<lambda>_. v)))]"

definition declared_flags :: "flag_decl list" where
  "declared_flags = flags_consul @ flags_service @ flags_credentials @ flags_telemetry @ flags_envoy @ flags_servers @ flags_lifecycle"

text \<open>The state \<open>init\<close> builds: the flag set and the settings behind it.\<close>

record init_state =
  in_flags :: "FlagOpts flag_set"
  in_opts :: FlagOpts

definition lift_set :: "(string \<Rightarrow> 'a result) \<Rightarrow> ('a option \<Rightarrow> DataplaneConfigFlags \<Rightarrow> DataplaneConfigFlags)
    \<Rightarrow> string \<Rightarrow> FlagOpts \<Rightarrow> FlagOpts result" where
  "lift_set parse upd val o' = map_sum id (\<lambda>x. fo_dataplaneConfig_update (upd (Some x)) o') (parse val)"

text \<open>\<open>StringVar\<close>, \<open>IntVar\<close>, \<open>BoolVar\<close> and \<open>DurationVar\<close>: register the flag, then store the value of the environment variable.\<close>

definition PtrVar :: "environ \<Rightarrow> bool \<Rightarrow> (string \<Rightarrow> 'a result) \<Rightarrow> (string \<Rightarrow> 'a option result)
    \<Rightarrow> ('a option \<Rightarrow> DataplaneConfigFlags \<Rightarrow> DataplaneConfigFlags) \<Rightarrow> string \<Rightarrow> string \<Rightarrow> init_state \<Rightarrow> init_state outcome" where
  "PtrVar env isBool parse parseFn upd name envName s =
     (let s1 = s\<lparr>in_flags := (in_flags s)(name \<mapsto> (isBool, lift_set parse upd))\<rparr> in
      bind_outcome (parseEnv env envName parseFn) (\<lambda>v.
        Ok (s1\<lparr>in_opts := fo_dataplaneConfig_update (upd v) (in_opts s1)\<rparr>)))"

definition StringVar :: "environ \<Rightarrow> (string option \<Rightarrow> DataplaneConfigFlags \<Rightarrow> DataplaneConfigFlags) \<Rightarrow> string \<Rightarrow> string \<Rightarrow> init_state \<Rightarrow> init_state outcome" where
  "StringVar env = PtrVar env False Inr asString"
definition IntVar :: "environ \<Rightarrow> (int option \<Rightarrow> DataplaneConfigFlags \<Rightarrow> DataplaneConfigFlags) \<Rightarrow> string \<Rightarrow> string \<Rightarrow> init_state \<Rightarrow> init_state outcome" where
  "IntVar env = PtrVar env False Atoi asInt"
definition BoolVar :: "environ \<Rightarrow> (bool option \<Rightarrow> DataplaneConfigFlags \<Rightarrow> DataplaneConfigFlags) \<Rightarrow> string \<Rightarrow> string \<Rightarrow> init_state \<Rightarrow> init_state outcome" where
  "BoolVar env = PtrVar env True ParseBool asBool"
definition DurationVar :: "environ \<Rightarrow> (int option \<Rightarrow> DataplaneConfigFlags \<Rightarrow> DataplaneConfigFlags) \<Rightarrow> string \<Rightarrow> string \<Rightarrow> init_state \<Rightarrow> init_state outcome" where
  "DurationVar env = PtrVar env False ParseDuration asDuration"

type_synonym map_update = "((string \<rightharpoonup> string) option \<Rightarrow> (string \<rightharpoonup> string) option) \<Rightarrow> DataplaneConfigFlags \<Rightarrow> DataplaneConfigFlags"

text \<open>\<open>Set\<close> of a map flag on the settings; on an error they stay as they are.\<close>

definition map_set :: "map_update \<Rightarrow> string \<Rightarrow> FlagOpts \<Rightarrow> FlagOpts result" where
  "map_set upd val o' =
     (case FlagMapValue_Set val None of
        Inl e \<Rightarrow> Inl e
      | Inr _ \<Rightarrow> Inr (fo_dataplaneConfig_update
          (upd (\<lambda>h. case FlagMapValue_Set val h of Inl _ \<Rightarrow> h | Inr h' \<Rightarrow> h')) o'))"

fun set_map_env :: "map_update \<Rightarrow> (string \<times> string) list \<Rightarrow> FlagOpts \<Rightarrow> FlagOpts outcome" where
  "set_map_env upd [] o' = Ok o'"
| "set_map_env upd ((varName, value) # xs) o' =
     (case map_set upd value o' of
        Inl _ \<Rightarrow> Fatal (''error in environment variable '' @ varName)
      | Inr o'' \<Rightarrow> set_map_env upd xs o'')"

text \<open>\<open>rng\<close> is the order in which the code ranges over the map of variables.\<close>

definition MapVar :: "((string \<times> string) list \<Rightarrow> (string \<times> string) list) \<Rightarrow> environ \<Rightarrow> map_update \<Rightarrow> string \<Rightarrow> string \<Rightarrow> init_state \<Rightarrow> init_state outcome" where
  "MapVar rng env upd name envName s =
     bind_outcome (set_map_env upd (rng (multiValueEnv env envName)) (in_opts s)) (\<lambda>o'.
       Ok \<lparr>in_flags = (in_flags s)(name \<mapsto> (False, map_set upd)), in_opts = o'\<rparr>)"

fun declare_flag :: "((string \<times> string) list \<Rightarrow> (string \<times> string) list) \<Rightarrow> environ \<Rightarrow> flag_decl \<Rightarrow> init_state \<Rightarrow> init_state outcome" where
  "declare_flag rng env (StringFlag n e u) s = StringVar env u n e s"
| "declare_flag rng env (IntFlag n e u) s = IntVar env u n e s"
| "declare_flag rng env (BoolFlag n e u) s = BoolVar env u n e s"
| "declare_flag rng env (DurationFlag n e u) s = DurationVar env u n e s"
| "declare_flag rng env (MapFlag n e u) s = MapVar rng env u n e s"

fun declare_flags :: "((string \<times> string) list \<Rightarrow> (string \<times> string) list) \<Rightarrow> environ \<Rightarrow> flag_decl list \<Rightarrow> init_state \<Rightarrow> init_state outcome" where
  "declare_flags rng env [] s = Ok s"
| "declare_flags rng env (d # ds) s = bind_outcome (declare_flag rng env d s) (declare_flags rng env ds)"

text \<open>The flags of the standard library: \<open>-version\<close>, \<open>-check-proxy-health\<close> and \<open>-config-file\<close>.\<close>

definition plain_flags :: "FlagOpts flag_set" where
  "plain_flags =
     [''version'' \<mapsto> (True, \<lambda>v o'. map_sum id (\<lambda>b. o'\<lparr>fo_printVersion := b\<rparr>) (ParseBool v)),
      ''check-proxy-health'' \<mapsto> (True, \<lambda>v o'. map_sum id (\<lambda>b. o'\<lparr>fo_checkProxyHealth := b\<rparr>) (ParseBool v)),
      ''config-file'' \<mapsto> (False, \<lambda>v o'. Inr (o'\<lparr>fo_configFile := v\<rparr>))]"

definition empty_FlagOpts :: FlagOpts where
  "empty_FlagOpts = \<lparr>fo_dataplaneConfig = empty_DataplaneConfigFlags, fo_checkProxyHealth = False, fo_printVersion = False, fo_configFile = []\<rparr>"

definition init :: "((string \<times> string) list \<Rightarrow> (string \<times> string) list) \<Rightarrow> environ \<Rightarrow> init_state outcome" where
  "init rng env = declare_flags rng env declared_flags \<lparr>in_flags = plain_flags, in_opts = empty_FlagOpts\<rparr>"

section \<open>Checks on the flags\<close>

definition validateFlags :: "FlagOpts \<Rightarrow> unit outcome" where
  "validateFlags o' =
     bind_outcome
       (case gf_LogLevel (df_Logging (fo_dataplaneConfig o')) of
          Some l \<Rightarrow> if ToUpper l \<in> set [''TRACE'', ''DEBUG'', ''INFO'', ''WARN'', ''ERROR''] then Ok ()
                    else Fatal ''invalid log level. valid values - TRACE, DEBUG, INFO, WARN, ERROR''
        | None \<Rightarrow> Ok ())
       (\<lambda>_. if fo_configFile o' \<noteq> [] \<and> \<not> HasSuffix (fo_configFile o') ''.json''
            then Fatal ''invalid config file format. Should be a json file'' else Ok ())"

text \<open>An ID that is not given is read from the file whose path is given.\<close>

definition readServiceIDFromFile :: "(string \<Rightarrow> string result) \<Rightarrow> FlagOpts \<Rightarrow> FlagOpts outcome" where
  "readServiceIDFromFile readFile o' =
     (let s = df_Service (fo_dataplaneConfig o') in
      case (svf_ServiceID s, svf_ServiceIDPath s) of
        (None, Some path) \<Rightarrow>
          if path = [] then Ok o'
          else (case readFile path of
                  Inl _ \<Rightarrow> Fatal ''failed to read given -proxy-service-id-path''
                | Inr ident \<Rightarrow> Ok (fo_dataplaneConfig_update (df_Service_update (svf_ServiceID_update (\<lambda>_. Some ident))) o'))
      | _ \<Rightarrow> Ok o')"

definition readProxyIDFromFile :: "(string \<Rightarrow> string result) \<Rightarrow> FlagOpts \<Rightarrow> FlagOpts outcome" where
  "readProxyIDFromFile readFile o' =
     (let s = df_Proxy (fo_dataplaneConfig o') in
      case (pf_ID s, pf_IDPath s) of
        (None, Some path) \<Rightarrow>
          if path = [] then Ok o'
          else (case readFile path of
                  Inl _ \<Rightarrow> Fatal ''failed to read given -proxy-id-path''
                | Inr ident \<Rightarrow> Ok (fo_dataplaneConfig_update (df_Proxy_update (pf_ID_update (\<lambda>_. Some ident))) o'))
      | _ \<Rightarrow> Ok o')"

section \<open>Building the configuration\<close>

definition DefaultLogName :: string where "DefaultLogName = ''consul-dataplane''"

definition IsEmpty :: "ProxyFlags \<Rightarrow> bool" where
  "IsEmpty p \<longleftrightarrow> pf_NodeName p = None \<and> pf_NodeID p = None \<and> pf_ID p = None \<and> pf_IDPath p = None
     \<and> pf_Namespace p = None \<and> pf_Partition p = None"

text \<open>A nil map and an empty one are the same for every reader of the map.\<close>

definition map_val :: "(string \<rightharpoonup> string) option \<Rightarrow> (string \<rightharpoonup> string)" where
  "map_val h = (case h of None \<Rightarrow> Map.empty | Some mp \<Rightarrow> mp)"

definition runtime_proxy :: "DataplaneConfigFlags \<Rightarrow> ProxyDetails" where
  "runtime_proxy c =
     (let p = df_Proxy c; s = df_Service c in
      if \<not> IsEmpty p
      then \<lparr>pd_NodeName = stringVal (pf_NodeName p), pd_NodeID = stringVal (pf_NodeID p), pd_ProxyID = stringVal (pf_ID p),
            pd_Namespace = stringVal (pf_Namespace p), pd_Partition = stringVal (pf_Partition p)\<rparr>
      else \<lparr>pd_NodeName = stringVal (svf_NodeName s), pd_NodeID = stringVal (svf_NodeID s), pd_ProxyID = stringVal (svf_ServiceID s),
            pd_Namespace = stringVal (svf_Namespace s), pd_Partition = stringVal (svf_Partition s)\<rparr>)"

definition runtime_consul :: "ConsulFlags \<Rightarrow> ConsulConfig" where
  "runtime_consul c =
     (let t = cf_TLS c; k = cf_Credentials c; l = crf_Login k in
      \<lparr>cc_Addresses = stringVal (cf_Addresses c), cc_GRPCPort = intVal (cf_GRPCPort c),
       cc_Credentials = Some
         \<lparr>cred_Type = stringVal (crf_Type k), cred_Static = \<lparr>sc_Token = stringVal (stf_Token (crf_Static k))\<rparr>,
          cred_Login =
            \<lparr>lc_AuthMethod = stringVal (lf_AuthMethod l), lc_Namespace = stringVal (lf_Namespace l),
             lc_Partition = stringVal (lf_Partition l), lc_Datacenter = stringVal (lf_Datacenter l),
             lc_BearerToken = stringVal (lf_BearerToken l), lc_BearerTokenPath = stringVal (lf_BearerTokenPath l),
             lc_Meta = map_val (lf_Meta l)\<rparr>\<rparr>,
       cc_ServerWatchDisabled = boolVal (cf_ServerWatchDisabled c),
       cc_TLS = Some
         \<lparr>tls_Disabled = boolVal (tf_Disabled t), tls_CACertsPath = stringVal (tf_CACertsPath t),
          tls_ServerName = stringVal (tf_ServerName t), tls_CertFile = stringVal (tf_CertFile t),
          tls_KeyFile = stringVal (tf_KeyFile t), tls_InsecureSkipVerify = boolVal (tf_InsecureSkipVerify t)\<rparr>\<rparr>)"

definition runtime_envoy :: "EnvoyFlags \<Rightarrow> string list \<Rightarrow> EnvoyConfig" where
  "runtime_envoy e extraArgs =
     \<lparr>en_ExecutablePath = stringVal (ef_ExecutablePath e), en_AdminBindAddress = stringVal (ef_AdminBindAddr e),
      en_AdminBindPort = intVal (ef_AdminBindPort e), en_ReadyBindAddress = stringVal (ef_ReadyBindAddr e),
      en_ReadyBindPort = intVal (ef_ReadyBindPort e), en_Concurrency = intVal (ef_Concurrency e),
      en_DrainTimeSeconds = intVal (ef_DrainTimeSeconds e), en_DrainStrategy = stringVal (ef_DrainStrategy e),
      en_ShutdownDrainListenersEnabled = boolVal (ef_ShutdownDrainListenersEnabled e),
      en_ShutdownGracePeriodSeconds = intVal (ef_ShutdownGracePeriodSeconds e),
      en_GracefulShutdownPath = stringVal (ef_GracefulShutdownPath e),
      en_StartupGracePeriodSeconds = intVal (ef_StartupGracePeriodSeconds e),
      en_GracefulStartupPath = stringVal (ef_GracefulStartupPath e), en_GracefulAddr = stringVal (ef_GracefulAddr e),
      en_GracefulPort = intVal (ef_GracefulPort e),
      en_DumpEnvoyConfigOnExitEnabled = boolVal (ef_DumpEnvoyConfigOnExitEnabled e), en_ExtraArgs = extraArgs\<rparr>"

definition runtime_telemetry :: "TelemetryFlags \<Rightarrow> TelemetryConfig" where
  "runtime_telemetry t =
     (let p = tmf_Prometheus t in
      \<lparr>tel_UseCentralConfig = boolVal (tmf_UseCentralConfig t),
       tel_Prometheus =
         \<lparr>prom_RetentionTime = durationVal (pmf_RetentionTime p), prom_CACertsPath = stringVal (pmf_CACertsPath p),
          prom_KeyFile = stringVal (pmf_KeyFile p), prom_CertFile = stringVal (pmf_CertFile p),
          prom_ServiceMetricsURL = stringVal (pmf_ServiceMetricsURL p), prom_ScrapePath = stringVal (pmf_ScrapePath p),
          prom_MergePort = intVal (pmf_MergePort p)\<rparr>\<rparr>)"

definition constructRuntimeConfig :: "DataplaneConfigFlags \<Rightarrow> string list \<Rightarrow> Config" where
  "constructRuntimeConfig c extraArgs =
     \<lparr>cfg_Mode = stringVal (df_Mode c),
      cfg_DNSServer = Some \<lparr>dns_BindAddr = stringVal (nf_BindAddr (df_DNSServer c)), dns_Port = intVal (nf_BindPort (df_DNSServer c))\<rparr>,
      cfg_Consul = Some (runtime_consul (df_Consul c)),
      cfg_Proxy = Some (runtime_proxy c),
      cfg_Logging = Some \<lparr>log_Name = DefaultLogName, log_Level = ToUpper (stringVal (gf_LogLevel (df_Logging c))),
                          log_JSON = boolVal (gf_LogJSON (df_Logging c))\<rparr>,
      cfg_Telemetry = Some (runtime_telemetry (df_Telemetry c)),
      cfg_Envoy = Some (runtime_envoy (df_Envoy c) extraArgs),
      cfg_XDSServer = Some \<lparr>xds_BindAddress = stringVal (xf_BindAddr (df_XDSServer c)), xds_BindPort = intVal (xf_BindPort (df_XDSServer c))\<rparr>\<rparr>"

text \<open>\<open>merge\<close> is \<open>mergo.Merge\<close> with override and without dereferencing.\<close>

type_synonym merge = "DataplaneConfigFlags \<Rightarrow> DataplaneConfigFlags \<Rightarrow> DataplaneConfigFlags result"

definition mergeConfigs :: "merge \<Rightarrow> DataplaneConfigFlags \<Rightarrow> DataplaneConfigFlags \<Rightarrow> DataplaneConfigFlags result" where
  "mergeConfigs merge c1 c2 = (case merge c1 c2 of Inl e \<Rightarrow> Inl e | Inr c \<Rightarrow> Inr c)"

definition buildConfigFromFile :: "(string \<Rightarrow> string result) \<Rightarrow> (string \<Rightarrow> int) \<Rightarrow> FlagOpts \<Rightarrow> DataplaneConfigFlags result" where
  "buildConfigFromFile readFile oob f =
     (case readFile (fo_configFile f) of Inl e \<Rightarrow> Inl e | Inr data \<Rightarrow> Unmarshal oob data)"

definition buildDataplaneConfig :: "merge \<Rightarrow> (string \<Rightarrow> string result) \<Rightarrow> (string \<Rightarrow> int)
    \<Rightarrow> FlagOpts \<Rightarrow> string list \<Rightarrow> Config result" where
  "buildDataplaneConfig merge readFile oob f extraArgs =
     (case buildDefaultConsulDPFlags oob of
        Inl e \<Rightarrow> Inl e
      | Inr defaults \<Rightarrow>
          (let base =
             (if fo_configFile f \<noteq> []
              then (case buildConfigFromFile readFile oob f of
                      Inl e \<Rightarrow> Inl e
                    | Inr fromFile \<Rightarrow> mergeConfigs merge defaults fromFile)
              else Inr defaults)
           in case base of
                Inl e \<Rightarrow> Inl e
              | Inr b \<Rightarrow>
                  (case mergeConfigs merge b (fo_dataplaneConfig f) of
                     Inl e \<Rightarrow> Inl e
                   | Inr c \<Rightarrow> Inr (constructRuntimeConfig c extraArgs))))"

section \<open>The health check\<close>

text \<open>The exit code; \<open>get\<close> is the status the admin endpoint answers with.\<close>

definition doHealthCheck :: "int \<Rightarrow> (string \<Rightarrow> int result) \<Rightarrow> int" where
  "doHealthCheck adminPort get =
     (case get (''http://127.0.0.1:'' @ Itoa adminPort @ ''/ready'') of
        Inl e \<Rightarrow> 1
      | Inr code \<Rightarrow> if code \<ge> 200 \<and> code < 400 then 0 else 1)"

definition runProxyReadyCmd :: "DataplaneConfigFlags \<Rightarrow> (string \<Rightarrow> int result) \<Rightarrow> FlagOpts \<Rightarrow> int outcome" where
  "runProxyReadyCmd config get f =
     bind_outcome (deref (ef_AdminBindPort (df_Envoy config))) (\<lambda>port.
       let adminPort = (case ef_AdminBindPort (df_Envoy (fo_dataplaneConfig f)) of None \<Rightarrow> port | Some p \<Rightarrow> p)
       in Ok (doHealthCheck adminPort get))"

section \<open>Merging\<close>

definition over :: "'a option \<Rightarrow> 'a option \<Rightarrow> 'a option" where
  "over a b = (case a of None \<Rightarrow> b | Some x \<Rightarrow> Some x)"

text \<open>
  What \<open>mergo.Merge\<close> with override documents for this structure: it succeeds, and a pointer
  that is set in the second argument replaces the one in the first.
\<close>

definition merges :: "merge \<Rightarrow> bool" where
  "merges merge \<longleftrightarrow> (\<forall>a b. \<exists>c. merge a b = Inr c
     \<and> (\<forall>g \<in> set string_settings. g c = over (g b) (g a))
     \<and> (\<forall>g \<in> set int_settings. g c = over (g b) (g a))
     \<and> (\<forall>g \<in> set bool_settings. g c = over (g b) (g a))
     \<and> (\<forall>g \<in> set duration_settings. g c = over (g b) (g a)))"

section \<open>A merge that overrides\<close>

text \<open>An instance of the merging contract, for the witnesses; maps are united.\<close>

definition override_map :: "(string \<rightharpoonup> string) option \<Rightarrow> (string \<rightharpoonup> string) option \<Rightarrow> (string \<rightharpoonup> string) option" where
  "override_map a b = (case b of None \<Rightarrow> a | Some y \<Rightarrow> Some (map_val a ++ y))"

definition override_TLSFlags :: "TLSFlags \<Rightarrow> TLSFlags \<Rightarrow> TLSFlags" where
  "override_TLSFlags a b = \<lparr>tf_Disabled = over (tf_Disabled b) (tf_Disabled a),
     tf_CACertsPath = over (tf_CACertsPath b) (tf_CACertsPath a),
     tf_ServerName = over (tf_ServerName b) (tf_ServerName a),
     tf_CertFile = over (tf_CertFile b) (tf_CertFile a),
     tf_KeyFile = over (tf_KeyFile b) (tf_KeyFile a),
     tf_InsecureSkipVerify = over (tf_InsecureSkipVerify b) (tf_InsecureSkipVerify a)\<rparr>"

definition override_StaticCredentialsFlags :: "StaticCredentialsFlags \<Rightarrow> StaticCredentialsFlags \<Rightarrow> StaticCredentialsFlags" where
  "override_StaticCredentialsFlags a b = \<lparr>stf_Token = over (stf_Token b) (stf_Token a)\<rparr>"

definition override_LoginCredentialsFlags :: "LoginCredentialsFlags \<Rightarrow> LoginCredentialsFlags \<Rightarrow> LoginCredentialsFlags" where
  "override_LoginCredentialsFlags a b = \<lparr>lf_AuthMethod = over (lf_AuthMethod b) (lf_AuthMethod a),
     lf_Namespace = over (lf_Namespace b) (lf_Namespace a),
     lf_Partition = over (lf_Partition b) (lf_Partition a),
     lf_Datacenter = over (lf_Datacenter b) (lf_Datacenter a),
     lf_BearerToken = over (lf_BearerToken b) (lf_BearerToken a),
     lf_BearerTokenPath = over (lf_BearerTokenPath b) (lf_BearerTokenPath a),
     lf_Meta = override_map (lf_Meta a) (lf_Meta b)\<rparr>"

definition override_CredentialsFlags :: "CredentialsFlags \<Rightarrow> CredentialsFlags \<Rightarrow> CredentialsFlags" where
  "override_CredentialsFlags a b = \<lparr>crf_Type = over (crf_Type b) (crf_Type a),
     crf_Static = override_StaticCredentialsFlags (crf_Static a) (crf_Static b),
     crf_Login = override_LoginCredentialsFlags (crf_Login a) (crf_Login b)\<rparr>"

definition override_ConsulFlags :: "ConsulFlags \<Rightarrow> ConsulFlags \<Rightarrow> ConsulFlags" where
  "override_ConsulFlags a b = \<lparr>cf_Addresses = over (cf_Addresses b) (cf_Addresses a),
     cf_GRPCPort = over (cf_GRPCPort b) (cf_GRPCPort a),
     cf_ServerWatchDisabled = over (cf_ServerWatchDisabled b) (cf_ServerWatchDisabled a),
     cf_TLS = override_TLSFlags (cf_TLS a) (cf_TLS b),
     cf_Credentials = override_CredentialsFlags (cf_Credentials a) (cf_Credentials b)\<rparr>"

definition override_ServiceFlags :: "ServiceFlags \<Rightarrow> ServiceFlags \<Rightarrow> ServiceFlags" where
  "override_ServiceFlags a b = \<lparr>svf_NodeName = over (svf_NodeName b) (svf_NodeName a),
     svf_NodeID = over (svf_NodeID b) (svf_NodeID a),
     svf_ServiceID = over (svf_ServiceID b) (svf_ServiceID a),
     svf_ServiceIDPath = over (svf_ServiceIDPath b) (svf_ServiceIDPath a),
     svf_Namespace = over (svf_Namespace b) (svf_Namespace a),
     svf_Partition = over (svf_Partition b) (svf_Partition a)\<rparr>"

definition override_ProxyFlags :: "ProxyFlags \<Rightarrow> ProxyFlags \<Rightarrow> ProxyFlags" where
  "override_ProxyFlags a b = \<lparr>pf_NodeName = over (pf_NodeName b) (pf_NodeName a),
     pf_NodeID = over (pf_NodeID b) (pf_NodeID a),
     pf_ID = over (pf_ID b) (pf_ID a),
     pf_IDPath = over (pf_IDPath b) (pf_IDPath a),
     pf_Namespace = over (pf_Namespace b) (pf_Namespace a),
     pf_Partition = over (pf_Partition b) (pf_Partition a)\<rparr>"

definition override_XDSServerFlags :: "XDSServerFlags \<Rightarrow> XDSServerFlags \<Rightarrow> XDSServerFlags" where
  "override_XDSServerFlags a b = \<lparr>xf_BindAddr = over (xf_BindAddr b) (xf_BindAddr a),
     xf_BindPort = over (xf_BindPort b) (xf_BindPort a)\<rparr>"

definition override_DNSServerFlags :: "DNSServerFlags \<Rightarrow> DNSServerFlags \<Rightarrow> DNSServerFlags" where
  "override_DNSServerFlags a b = \<lparr>nf_BindAddr = over (nf_BindAddr b) (nf_BindAddr a),
     nf_BindPort = over (nf_BindPort b) (nf_BindPort a)\<rparr>"

definition override_LogFlags :: "LogFlags \<Rightarrow> LogFlags \<Rightarrow> LogFlags" where
  "override_LogFlags a b = \<lparr>gf_Name = (if gf_Name b = [] then gf_Name a else gf_Name b),
     gf_LogLevel = over (gf_LogLevel b) (gf_LogLevel a),
     gf_LogJSON = over (gf_LogJSON b) (gf_LogJSON a)\<rparr>"

definition override_PrometheusTelemetryFlags :: "PrometheusTelemetryFlags \<Rightarrow> PrometheusTelemetryFlags \<Rightarrow> PrometheusTelemetryFlags" where
  "override_PrometheusTelemetryFlags a b = \<lparr>pmf_RetentionTime = over (pmf_RetentionTime b) (pmf_RetentionTime a),
     pmf_CACertsPath = over (pmf_CACertsPath b) (pmf_CACertsPath a),
     pmf_KeyFile = over (pmf_KeyFile b) (pmf_KeyFile a),
     pmf_CertFile = over (pmf_CertFile b) (pmf_CertFile a),
     pmf_ServiceMetricsURL = over (pmf_ServiceMetricsURL b) (pmf_ServiceMetricsURL a),
     pmf_ScrapePath = over (pmf_ScrapePath b) (pmf_ScrapePath a),
     pmf_MergePort = over (pmf_MergePort b) (pmf_MergePort a)\<rparr>"

definition override_TelemetryFlags :: "TelemetryFlags \<Rightarrow> TelemetryFlags \<Rightarrow> TelemetryFlags" where
  "override_TelemetryFlags a b = \<lparr>tmf_UseCentralConfig = over (tmf_UseCentralConfig b) (tmf_UseCentralConfig a),
     tmf_Prometheus = override_PrometheusTelemetryFlags (tmf_Prometheus a) (tmf_Prometheus b)\<rparr>"

definition override_EnvoyFlags :: "EnvoyFlags \<Rightarrow> EnvoyFlags \<Rightarrow> EnvoyFlags" where
  "override_EnvoyFlags a b = \<lparr>ef_AdminBindAddr = over (ef_AdminBindAddr b) (ef_AdminBindAddr a),
     ef_AdminBindPort = over (ef_AdminBindPort b) (ef_AdminBindPort a),
     ef_ReadyBindAddr = over (ef_ReadyBindAddr b) (ef_ReadyBindAddr a),
     ef_ReadyBindPort = over (ef_ReadyBindPort b) (ef_ReadyBindPort a),
     ef_Concurrency = over (ef_Concurrency b) (ef_Concurrency a),
     ef_DrainTimeSeconds = over (ef_DrainTimeSeconds b) (ef_DrainTimeSeconds a),
     ef_DrainStrategy = over (ef_DrainStrategy b) (ef_DrainStrategy a),
     ef_ExecutablePath = over (ef_ExecutablePath b) (ef_ExecutablePath a),
     ef_ShutdownDrainListenersEnabled = over (ef_ShutdownDrainListenersEnabled b) (ef_ShutdownDrainListenersEnabled a),
     ef_ShutdownGracePeriodSeconds = over (ef_ShutdownGracePeriodSeconds b) (ef_ShutdownGracePeriodSeconds a),
     ef_GracefulShutdownPath = over (ef_GracefulShutdownPath b) (ef_GracefulShutdownPath a),
     ef_GracefulAddr = over (ef_GracefulAddr b) (ef_GracefulAddr a),
     ef_GracefulPort = over (ef_GracefulPort b) (ef_GracefulPort a),
     ef_DumpEnvoyConfigOnExitEnabled = over (ef_DumpEnvoyConfigOnExitEnabled b) (ef_DumpEnvoyConfigOnExitEnabled a),
     ef_StartupGracePeriodSeconds = over (ef_StartupGracePeriodSeconds b) (ef_StartupGracePeriodSeconds a),
     ef_GracefulStartupPath = over (ef_GracefulStartupPath b) (ef_GracefulStartupPath a)\<rparr>"

definition override_DataplaneConfigFlags :: "DataplaneConfigFlags \<Rightarrow> DataplaneConfigFlags \<Rightarrow> DataplaneConfigFlags" where
  "override_DataplaneConfigFlags a b = \<lparr>df_Mode = over (df_Mode b) (df_Mode a),
     df_Consul = override_ConsulFlags (df_Consul a) (df_Consul b),
     df_Service = override_ServiceFlags (df_Service a) (df_Service b),
     df_Proxy = override_ProxyFlags (df_Proxy a) (df_Proxy b),
     df_Logging = override_LogFlags (df_Logging a) (df_Logging b),
     df_XDSServer = override_XDSServerFlags (df_XDSServer a) (df_XDSServer b),
     df_DNSServer = override_DNSServerFlags (df_DNSServer a) (df_DNSServer b),
     df_Telemetry = override_TelemetryFlags (df_Telemetry a) (df_Telemetry b),
     df_Envoy = override_EnvoyFlags (df_Envoy a) (df_Envoy b)\<rparr>"

lemmas override_defs = override_TLSFlags_def override_StaticCredentialsFlags_def override_LoginCredentialsFlags_def override_CredentialsFlags_def override_ConsulFlags_def override_ServiceFlags_def override_ProxyFlags_def override_XDSServerFlags_def override_DNSServerFlags_def override_LogFlags_def override_PrometheusTelemetryFlags_def override_TelemetryFlags_def override_EnvoyFlags_def override_DataplaneConfigFlags_def

lemma override_merges: "merges (\<lambda>a b. Inr (override_DataplaneConfigFlags a b))"
  by (simp add: merges_def string_settings_def int_settings_def bool_settings_def duration_settings_def override_defs)

section \<open>Lemmas\<close>

lemma over_None [simp]: "over None b = b" and over_Some [simp]: "over (Some x) b = Some x"
  by (simp_all add: over_def)

text \<open>Where a setting comes from: the flags, the configuration file if one is given, the defaults.\<close>

definition layered :: "FlagOpts \<Rightarrow> DataplaneConfigFlags \<Rightarrow> (DataplaneConfigFlags \<Rightarrow> 'a option) \<Rightarrow> 'a option" where
  "layered f file g =
     over (g (fo_dataplaneConfig f)) (over (if fo_configFile f = [] then None else g file) (g default_flags))"

section \<open>Properties\<close>

definition sample_cli :: FlagOpts where
  "sample_cli = empty_FlagOpts\<lparr>fo_configFile := ''c.json'', fo_dataplaneConfig := empty_DataplaneConfigFlags
     \<lparr>df_Mode := Some ''dns-proxy'', df_Consul := empty_ConsulFlags\<lparr>cf_Addresses := Some ''cli''\<rparr>\<rparr>\<rparr>"

definition sample_file :: DataplaneConfigFlags where
  "sample_file = empty_DataplaneConfigFlags\<lparr>df_Consul := empty_ConsulFlags\<lparr>cf_Addresses := Some ''file'', cf_GRPCPort := Some 9502\<rparr>\<rparr>"

definition sample_text :: string where
  "sample_text = ''{\"consul\": {\"addresses\": \"file\", \"grpcPort\": 9502}}''"

lemma sample_decodes: "Unmarshal oob sample_text = Inr sample_file"
proof -
  have "parse_json sample_text = Some (JObj [(''consul'', JObj [(''addresses'', JStr ''file''), (''grpcPort'', JNum ''9502'')])])" by code_simp
  moreover have "Atoi ''9502'' = Inr 9502" by (simp add: Atoi_def Let_def digits_val_def is_digit_def)
  ultimately show ?thesis
    by (simp add: Unmarshal_def sample_file_def decode_simps field_tables empty_ConsulFlags_def empty_DataplaneConfigFlags_def)
qed



text \<open>A configuration built from the command line never makes validation panic: every
  part that validation looks into is there, whatever flags, environment, file and merge
  result it was built from.\<close>

lemma built_config_validates_without_panic:
  assumes "buildDataplaneConfig merge readFile oob f extraArgs = Inr c"
  shows "validateConfig c \<noteq> Panic msg"
proof -
  obtain d where "c = constructRuntimeConfig d extraArgs"
    using assms by (auto simp: buildDataplaneConfig_def Let_def split: sum.split_asm if_split_asm)
  then obtain k x n p l t e cr where parts: "cfg_Consul c = Some k" "cfg_XDSServer c = Some x" "cfg_DNSServer c = Some n"
    "cfg_Proxy c = Some p" "cfg_Logging c = Some l" "cfg_Telemetry c = Some t" "cfg_Envoy c = Some e" "cc_Credentials k = Some cr"
    by (simp add: constructRuntimeConfig_def runtime_consul_def Let_def)
  have "both (Ok a) (Ok b) = Ok (a \<and> b)" for a b by (cases a) auto
  moreover have "switch (map (\<lambda>(b, m). (Ok b, m)) cs) \<noteq> Panic msg" for cs
    by (induction cs) (auto split: prod.splits)
  ultimately have "validate_switch c \<noteq> Panic msg"
    using parts by (simp add: validate_switch_def Let_def field_def)
  moreover have "validate_telemetry (cfg_Telemetry c) \<noteq> Panic msg"
    by (simp add: parts(6) validate_telemetry_def Let_def)
  ultimately show ?thesis
    using parts by (cases "validate_switch c") (simp_all add: validateConfig_def)
qed

text \<open>The path of a file with the proxy's ID counts only as a flag: in a configuration file it is ignored, except that it hides the deprecated service settings.\<close>

lemma file_id_path_ignored:
  assumes "pf_ID (df_Proxy c) \<noteq> None"
  shows "constructRuntimeConfig (df_Proxy_update (pf_IDPath_update (\<lambda>_. p)) c) extraArgs = constructRuntimeConfig c extraArgs"
  using assms by (auto simp: constructRuntimeConfig_def runtime_proxy_def IsEmpty_def Let_def)

lemma file_id_path_not_read:
  assumes "pf_ID (df_Proxy c) = None" and "pf_IDPath (df_Proxy c) = Some p"
  shows "pd_ProxyID (runtime_proxy c) = []"
  using assms by (simp add: runtime_proxy_def IsEmpty_def Let_def stringVal_def)

section \<open>Every declared flag is reachable\<close>

fun decl_name :: "flag_decl \<Rightarrow> string" where
  "decl_name (StringFlag n e u) = n"
| "decl_name (IntFlag n e u) = n"
| "decl_name (BoolFlag n e u) = n"
| "decl_name (DurationFlag n e u) = n"
| "decl_name (MapFlag n e u) = n"

fun decl_set :: "flag_decl \<Rightarrow> string \<Rightarrow> FlagOpts \<Rightarrow> FlagOpts result" where
  "decl_set (StringFlag n e u) = lift_set Inr u"
| "decl_set (IntFlag n e u) = lift_set Atoi u"
| "decl_set (BoolFlag n e u) = lift_set ParseBool u"
| "decl_set (DurationFlag n e u) = lift_set ParseDuration u"
| "decl_set (MapFlag n e u) = map_set u"

fun decl_bool :: "flag_decl \<Rightarrow> bool" where
  "decl_bool (BoolFlag n e u) = True"
| "decl_bool d = False"

lemma declare_flag_registers:
  "declare_flag rng env d s = Ok s' \<Longrightarrow> in_flags s' = (in_flags s)(decl_name d \<mapsto> (decl_bool d, decl_set d))"
  by (cases d) (auto simp: StringVar_def IntVar_def BoolVar_def DurationVar_def PtrVar_def MapVar_def Let_def go_simps)

lemma declare_flags_other:
  "declare_flags rng env ds s = Ok s' \<Longrightarrow> n \<notin> decl_name ` set ds \<Longrightarrow> in_flags s' n = in_flags s n"
  by (induction ds arbitrary: s) (auto simp: go_simps dest!: declare_flag_registers)

lemma declare_flags_registers:
  "declare_flags rng env ds s = Ok s' \<Longrightarrow> distinct (map decl_name ds) \<Longrightarrow> d \<in> set ds \<Longrightarrow>
   in_flags s' (decl_name d) = Some (decl_bool d, decl_set d)"
proof (induction ds arbitrary: s)
  case (Cons x ds)
  then obtain s1 where s1: "declare_flag rng env x s = Ok s1" "declare_flags rng env ds s1 = Ok s'"
    by (auto simp: go_simps)
  show ?case
  proof (cases "d = x")
    case True
    with Cons.prems(2) have "decl_name d \<notin> decl_name ` set ds" by auto
    from declare_flags_other [OF s1(2) this] declare_flag_registers [OF s1(1)] True show ?thesis by simp
  next
    case False
    with Cons s1 show ?thesis by auto
  qed
qed simp

lemmas declared_defs = declared_flags_def flags_consul_def flags_service_def flags_credentials_def flags_telemetry_def
  flags_envoy_def flags_servers_def flags_lifecycle_def

lemma declared_names_distinct: "distinct (map decl_name declared_flags)"
  by (simp add: declared_defs)

lemma declared_names_ok: "\<forall>d \<in> set declared_flags. flag_name (decl_name d)"
  by (simp add: declared_defs flag_name_def)

text \<open>The settings applied one after the other, each by the flag declared under its name.\<close>

fun apply_declared :: "(flag_decl \<times> string) list \<Rightarrow> FlagOpts \<Rightarrow> FlagOpts result" where
  "apply_declared [] o' = Inr o'"
| "apply_declared ((d, v) # xs) o' =
     (case decl_set d v o' of
        Inl e \<Rightarrow> Inl (Wrap (''invalid value for flag -'' @ decl_name d) e)
      | Inr o'' \<Rightarrow> apply_declared xs o'')"

lemma apply_declared_settings:
  assumes "\<forall>d \<in> fst ` set xs. fs (decl_name d) = Some (decl_bool d, decl_set d)"
  shows "apply_settings fs (map (\<lambda>(d, v). (decl_name d, v)) xs) o' = apply_declared xs o'"
  using assms by (induction xs arbitrary: o') (auto simp: set_flag_def split: sum.split prod.split)

lemma Parse_declared:
  assumes "init rng env = Ok s" and "\<forall>(two, f, d, v) \<in> set xs. d \<in> set declared_flags \<and> form_ok (decl_bool d) f v"
    and "split_flag tail = NoMore rest"
  shows "Parse (in_flags s) (flag_args (map (\<lambda>(two, f, d, v). (two, f, decl_name d, v)) xs) @ tail) (in_opts s) =
    (case apply_declared (map (\<lambda>(two, f, d, v). (d, v)) xs) (in_opts s) of Inl e \<Rightarrow> Inl e | Inr o' \<Rightarrow> Inr (o', rest))"
proof -
  let ?ys = "map (\<lambda>(two, f, d, v). (two, f, decl_name d, v)) xs" and ?zs = "map (\<lambda>(two, f, d, v). (d, v)) xs"
  have reg: "in_flags s (decl_name d) = Some (decl_bool d, decl_set d)" if "d \<in> set declared_flags" for d
    using assms(1) that declare_flags_registers [OF _ declared_names_distinct] unfolding init_def by blast
  have d: "flag_name (decl_name d) \<and> in_flags s (decl_name d) = Some (decl_bool d, decl_set d) \<and> form_ok (decl_bool d) f v"
    if "(two, f, d, v) \<in> set xs" for two f d v
    using assms(2) that reg declared_names_ok by auto
  then have "\<forall>d \<in> fst ` set ?zs. in_flags s (decl_name d) = Some (decl_bool d, decl_set d)" by force
  from apply_declared_settings [OF this]
  have settings: "apply_settings (in_flags s) (map (\<lambda>x. snd (snd x)) ?ys) (in_opts s) = apply_declared ?zs (in_opts s)"
    by (simp add: comp_def case_prod_beta)
  have names: "\<forall>(two, f, n, v) \<in> set ?ys. flag_name n \<and> (\<forall>b setf. in_flags s n = Some (b, setf) \<longrightarrow> form_ok b f v)"
    by (auto dest!: d)
  show ?thesis using Parse_settings [OF names assms(3), of "in_opts s"] unfolding settings .
qed


lemma declare_flags_empty_env: "declare_flags (\<lambda>xs. xs) (\<lambda>_. None) ds s \<noteq> Panic m
  \<and> (\<exists>s'. declare_flags (\<lambda>xs. xs) (\<lambda>_. None) ds s = Ok s')"
proof (induction ds arbitrary: s)
  case (Cons d ds)
  have "multiValueEnv (\<lambda>_. None) e = []" for e
    by (simp add: multiValueEnv_def List.map_filter_def Let_def)
  then have "\<exists>s1. declare_flag (\<lambda>xs. xs) (\<lambda>_. None) d s = Ok s1"
    by (cases d) (simp_all add: StringVar_def IntVar_def BoolVar_def DurationVar_def PtrVar_def MapVar_def parseEnv_def
        parseEnvError_def Let_def)
  with Cons show ?case by auto
qed simp


end
