(* ===== verification/Dataplane_Run.thy ===== *)
theory Dataplane_Run
  imports Bootstrap_Params Lifecycle Dns_Server Cli_Config "HOL-Library.Sublist"
begin

text \<open>
  The dataplane process, \<open>pkg/consuldp/consul_dataplane.go\<close>: creating a dataplane, its start-up
  (\<open>Run\<close> up to its final \<open>select\<close>) as the composition of the components' operations, what the
  \<open>select\<close> does with each event that ends the run, and graceful shutdown.

  The environment of a run (the discovery library, listeners, the gRPC client, process
  creation, constructors of sinks) is a record of functions. A run also yields the list of the
  stages it completed.
\<close>

section \<open>Data\<close>

record hclog_logger =
  hl_Name :: string
  hl_Level :: nat
  hl_JSON :: bool

text \<open>Levels of hclog: 0 is none, 1 to 5 are trace, debug, info, warn and error.\<close>

definition NoLevel :: nat where "NoLevel = 0"
definition InfoLevel :: nat where "InfoLevel = 3"

definition level_tests :: "hclog_logger \<Rightarrow> logger" where
  "level_tests l = \<lparr>IsTrace = hl_Level l = 1, IsDebug = hl_Level l \<le> 2, IsInfo = hl_Level l \<le> 3, IsWarn = hl_Level l \<le> 4, IsError = hl_Level l \<le> 5\<rparr>"

record ConsulDataplane =
  cdp_logger :: hclog_logger
  cdp_cfg :: Config
  cdp_serverConn :: "nat option"
  cdp_aclToken :: string
  cdp_xdsServer :: "xdsServer option"
  cdp_metricsConfig :: "metricsConfig option"
  cdp_lifecycleConfig :: "lifecycleConfig option"
  cdp_dns :: "DNSServer option"
  cdp_proxy :: "Proxy option"

record discovery_Config =
  ds_Addresses :: string
  ds_GRPCPort :: int
  ds_ServerWatchDisabled :: bool
  ds_Credentials :: Credentials
  ds_TLS :: "tls_Config option"

record 'config run_env =
  re_NewGlobal :: "go_error option"
  re_isDir :: "string \<Rightarrow> bool result"
  re_configureTLS :: "rootcerts_Config \<Rightarrow> tls_Config \<Rightarrow> tls_Config result"
  re_loadKeyPair :: "string \<Rightarrow> string \<Rightarrow> nat result"
  re_readFile :: "string \<Rightarrow> string result"
  re_NewWatcher :: "discovery_Config \<Rightarrow> go_error option"
  re_State :: "(nat \<times> string) result"
  re_listen :: "string \<Rightarrow> string \<Rightarrow> (string \<times> string) result"
  re_client :: "GetEnvoyBootstrapParamsRequest \<Rightarrow> 'config bootstrap_params result"
  re_listenUDP :: "int result"
  re_listenTCP :: "int result"
  re_lib :: lib
  re_weakDecode :: "'config \<Rightarrow> BootstrapConfig \<Rightarrow> BootstrapConfig result"
  re_lookPath :: "string result"
  re_nullLogger :: logger
  re_range :: "(string \<times> string) list \<Rightarrow> (string \<times> string) list"
  re_start :: "Cmd \<Rightarrow> go_error option"
  re_sinks :: sink_lib

text \<open>The stages of a start-up, each recorded when it has succeeded.\<close>

datatype stage = Connected | XdsListening | GotParams | DnsReady | Generated | EnvoyStarted | MetricsStarted | LifecycleStarted

section \<open>Creating a dataplane\<close>

text \<open>\<open>levelOf\<close> is \<open>hclog.LevelFromString\<close>.\<close>

definition NewConsulDP :: "(string \<Rightarrow> nat) \<Rightarrow> Config \<Rightarrow> ConsulDataplane outcome" where
  "NewConsulDP levelOf c =
     bind_outcome (validateConfig c) (\<lambda>_.
     bind_outcome (deref (cfg_Logging c)) (\<lambda>l.
       let level = (if levelOf (log_Level l) = NoLevel then InfoLevel else levelOf (log_Level l))
       in Ok \<lparr>cdp_logger = \<lparr>hl_Name = log_Name l, hl_Level = level, hl_JSON = log_JSON l\<rparr>, cdp_cfg = c, cdp_serverConn = None,
              cdp_aclToken = [], cdp_xdsServer = None, cdp_metricsConfig = None, cdp_lifecycleConfig = None, cdp_dns = None, cdp_proxy = None\<rparr>))"

section \<open>Parts of the start-up\<close>

definition startDNSProxy :: "int result \<Rightarrow> int result \<Rightarrow> string \<Rightarrow> DNSServerConfig option \<Rightarrow> string \<Rightarrow> string \<Rightarrow> DNSServer option outcome" where
  "startDNSProxy listenUDP listenTCP aclToken dnsConfig ns part =
     bind_outcome (deref dnsConfig) (\<lambda>d.
       case NewDNSServer \<lparr>dp_BindAddr = dns_BindAddr d, dp_Port = dns_Port d, dp_Partition = part, dp_Namespace = ns, dp_Token = aclToken\<rparr> of
         Inl e \<Rightarrow> if e = ErrServerDisabled then Ok None else Error (Wrap ''failed to create dns server'' e)
       | Inr srv \<Rightarrow>
           (case Start listenUDP listenTCP srv of
              (Some e, _) \<Rightarrow> Error (Wrap ''failed to run the dns proxy'' e)
            | (None, srv') \<Rightarrow> Ok (Some srv')))"

definition envoy_args :: "EnvoyConfig \<Rightarrow> (string \<times> string) list" where
  "envoy_args e =
     [(''--concurrency'', Itoa (en_Concurrency e)), (''--drain-time-s'', Itoa (en_DrainTimeSeconds e)), (''--drain-strategy'', en_DrainStrategy e)]"

text \<open>
  The map of arguments is visited in the order \<open>range\<close> gives. The inner loop over the extra
  arguments has no effect: its \<open>break\<close> leaves only itself, so every value is appended.
\<close>

definition envoyProxyConfig :: "((string \<times> string) list \<Rightarrow> (string \<times> string) list) \<Rightarrow> string \<Rightarrow> ConsulDataplane \<Rightarrow> ProxyConfig outcome" where
  "envoyProxyConfig rng json cdp =
     bind_outcome (deref (cfg_Envoy (cdp_cfg cdp))) (\<lambda>e.
     bind_outcome (deref (cfg_Logging (cdp_cfg cdp))) (\<lambda>l.
       let extraArgs = fold (\<lambda>(envoyArg, val) extra. extra @ [envoyArg @ '' '' @ val]) (rng (envoy_args e)) (en_ExtraArgs e)
       in Ok \<lparr>pc_ExecutablePath = en_ExecutablePath e, pc_AdminAddr = en_AdminBindAddress e, pc_AdminBindPort = en_AdminBindPort e,
              pc_ExtraArgs = extraArgs, pc_Logger = Some (level_tests (cdp_logger cdp)), pc_LogJSON = log_JSON l,
              pc_EnvoyErrorStream = None, pc_EnvoyOutputStream = None, pc_BootstrapConfig = json\<rparr>))"

text \<open>From the start to the connection to a Consul server: the connection and the ACL token.\<close>

definition connect :: "'config run_env \<Rightarrow> Config \<Rightarrow> (nat \<times> string) outcome" where
  "connect env c =
     (case re_NewGlobal env of
        Some e \<Rightarrow> Error e
      | None \<Rightarrow>
          bind_outcome (deref (cfg_Consul c)) (\<lambda>consul.
          bind_outcome (deref (cc_TLS consul)) (\<lambda>t.
          bind_outcome (of_result (Load (re_isDir env) (re_configureTLS env) (re_loadKeyPair env) t)) (\<lambda>tls.
          bind_outcome (deref (cc_Credentials consul)) (\<lambda>cr.
          bind_outcome (of_result (ToDiscoveryCredentials (re_readFile env) cr)) (\<lambda>creds.
            case re_NewWatcher env \<lparr>ds_Addresses = cc_Addresses consul, ds_GRPCPort = cc_GRPCPort consul,
                   ds_ServerWatchDisabled = cc_ServerWatchDisabled consul, ds_Credentials = creds, ds_TLS = tls\<rparr> of
              Some e \<Rightarrow> Error e
            | None \<Rightarrow> of_result (re_State env)))))))"

text \<open>Creating and starting Envoy, with the messages of the errors.\<close>

definition start_envoy :: "'config run_env \<Rightarrow> string \<Rightarrow> ConsulDataplane \<Rightarrow> Proxy outcome" where
  "start_envoy env json cdp =
     bind_outcome (envoyProxyConfig (re_range env) json cdp) (\<lambda>pc.
     bind_outcome (wrap_outcome ''failed to create new proxy'' (of_result (NewProxy (re_lookPath env) (re_nullLogger env) pc))) (\<lambda>p.
     bind_outcome (Envoy_Proxy.Run (re_start env) p) (\<lambda>(err, p').
       case err of Some e \<Rightarrow> Error (Wrap ''failed to run proxy'' e) | None \<Rightarrow> Ok p')))"

section \<open>The start-up\<close>

definition stage_then :: "'a outcome \<Rightarrow> stage \<Rightarrow> ('a \<Rightarrow> stage list \<times> 'b outcome) \<Rightarrow> stage list \<times> 'b outcome" where
  "stage_then r st k =
     (case r of
        Ok a \<Rightarrow> (case k a of (sts, b) \<Rightarrow> (st # sts, b))
      | Error e \<Rightarrow> ([], Error e)
      | Panic m \<Rightarrow> ([], Panic m)
      | Fatal m \<Rightarrow> ([], Fatal m))"

definition run_dns_proxy :: "'config run_env \<Rightarrow> ConsulDataplane \<Rightarrow> stage list \<times> ConsulDataplane outcome" where
  "run_dns_proxy env cdp =
     stage_then (bind_outcome (deref (cfg_Proxy (cdp_cfg cdp))) (\<lambda>p.
         startDNSProxy (re_listenUDP env) (re_listenTCP env) (cdp_aclToken cdp) (cfg_DNSServer (cdp_cfg cdp)) (pd_Namespace p) (pd_Partition p))) DnsReady (\<lambda>d.
       ([], Ok (cdp\<lparr>cdp_dns := d\<rparr>)))"

definition run_sidecar :: "'config run_env \<Rightarrow> Sink \<Rightarrow> ConsulDataplane \<Rightarrow> stage list \<times> ConsulDataplane outcome" where
  "run_sidecar env cache cdp =
     stage_then (setupXDSServer (re_listen env) (cdp_cfg cdp)) XdsListening (\<lambda>srv.
     stage_then (wrap_outcome ''failed to get bootstrap params'' (getBootstrapParams (re_client env) (cdp_cfg cdp))) GotParams (\<lambda>params.
     stage_then (startDNSProxy (re_listenUDP env) (re_listenTCP env) (cdp_aclToken cdp) (cfg_DNSServer (cdp_cfg cdp))
         (bp_Namespace params) (bp_Partition params)) DnsReady (\<lambda>d.
     stage_then (wrap_outcome ''failed to get bootstrap config''
         (bootstrapConfig (re_lib env) (re_isDir env) (re_weakDecode env) (cdp_cfg cdp) srv params)) Generated (\<lambda>(bcfg, json).
     stage_then (start_envoy env json cdp) EnvoyStarted (\<lambda>proxy.
     stage_then (bind_outcome (NewMetricsConfig (cdp_cfg cdp) (Some cache)) (startMetrics (re_lib env) (re_sinks env) bcfg)) MetricsStarted (\<lambda>m.
     stage_then (bind_outcome (NewLifecycleConfig (cdp_cfg cdp) proxy) startLifecycleManager) LifecycleStarted (\<lambda>lc.
       ([], Ok (cdp\<lparr>cdp_xdsServer := Some srv, cdp_dns := d, cdp_proxy := Some proxy, cdp_metricsConfig := Some m, cdp_lifecycleConfig := Some lc\<rparr>)))))))))"

definition Run_start :: "'config run_env \<Rightarrow> ConsulDataplane \<Rightarrow> stage list \<times> ConsulDataplane outcome" where
  "Run_start env cdp =
     stage_then (connect env (cdp_cfg cdp)) Connected (\<lambda>(conn, tok).
       let cdp1 = cdp\<lparr>cdp_serverConn := Some conn, cdp_aclToken := tok\<rparr>
       in if cfg_Mode (cdp_cfg cdp) = ModeTypeDNSProxy then run_dns_proxy env cdp1 else run_sidecar env NewSink cdp1)"

section \<open>The end of a run\<close>

text \<open>The event that the final \<open>select\<close> receives, the error the run returns and what becomes of Envoy.\<close>

datatype exit_event = CtxDone | ProxyExited "go_error option" | XdsExited | MetricsExited | LifecycleExited

definition quit_or_kill :: "(string \<Rightarrow> go_error option) \<Rightarrow> go_error option \<Rightarrow> Proxy \<Rightarrow> Proxy outcome" where
  "quit_or_kill post kill p =
     (case Quit post p of
        (None, p') \<Rightarrow> Ok p'
      | (Some _, p') \<Rightarrow> bind_outcome (Kill kill p') (\<lambda>(_, p''). Ok p''))"

fun run_select :: "(string \<Rightarrow> go_error option) \<Rightarrow> go_error option \<Rightarrow> exit_event \<Rightarrow> Proxy \<Rightarrow> (go_error option \<times> Proxy) outcome" where
  "run_select post kill CtxDone p = Ok (None, p)"
| "run_select post kill (ProxyExited err) p = Ok (err, p)"
| "run_select post kill XdsExited p =
     bind_outcome (quit_or_kill post kill p) (\<lambda>p'. Ok (Some (Err ''xDS server exited unexpectedly''), p'))"
| "run_select post kill MetricsExited p = Ok (Some (Err ''metrics server exited unexpectedly''), p)"
| "run_select post kill LifecycleExited p =
     bind_outcome (quit_or_kill post kill p) (\<lambda>p'. Ok (Some (Err ''proxy lifecycle management server exited unexpectedly''), p'))"

text \<open>Graceful shutdown through the lifecycle manager if there is one; otherwise the context is cancelled.\<close>

datatype shutdown = Cancelled | Graceful "event list" lifecycleConfig

definition GracefulShutdown :: "shutdown_env \<Rightarrow> int \<Rightarrow> ConsulDataplane \<Rightarrow> shutdown" where
  "GracefulShutdown senv now cdp =
     (case cdp_lifecycleConfig cdp of
        Some m \<Rightarrow> (case gracefulShutdown senv now m of (evs, m') \<Rightarrow> Graceful evs m')
      | None \<Rightarrow> Cancelled)"

section \<open>Lemmas\<close>

text \<open>A run that completes the stages of a plan from the first on, and all of them exactly if it succeeds.\<close>

definition follows :: "stage list \<Rightarrow> stage list \<times> 'a outcome \<Rightarrow> bool" where
  "follows plan r \<longleftrightarrow> prefix (fst r) plan \<and> ((\<exists>a. snd r = Ok a) \<longleftrightarrow> fst r = plan)"

lemma follows_done [simp]: "follows [] ([], Ok a)"
  by (simp add: follows_def)

lemma follows_stage:
  assumes "\<And>a. r = Ok a \<Longrightarrow> follows plan (k a)"
  shows "follows (st # plan) (stage_then r st k)"
proof (cases r)
  case (Ok a)
  with assms [OF Ok] show ?thesis by (cases "k a") (simp add: stage_then_def follows_def)
qed (simp_all add: stage_then_def follows_def)

lemma stage_then_Ok: "snd (stage_then r st k) = Ok b \<longleftrightarrow> (\<exists>a. r = Ok a \<and> snd (k a) = Ok b)"
  by (cases r) (auto simp: stage_then_def split: prod.split)

lemma stage_then_Panic: "snd (stage_then r st k) = Panic m \<longleftrightarrow> r = Panic m \<or> (\<exists>a. r = Ok a \<and> snd (k a) = Panic m)"
  by (cases r) (auto simp: stage_then_def split: prod.split)

definition sidecar_plan :: "stage list" where
  "sidecar_plan = [XdsListening, GotParams, DnsReady, Generated, EnvoyStarted, MetricsStarted, LifecycleStarted]"

lemma run_sidecar_follows: "follows sidecar_plan (run_sidecar env cache cdp)"
  unfolding run_sidecar_def sidecar_plan_def by (intro follows_stage) (auto split: prod.split intro!: follows_stage)

lemma run_dns_proxy_follows: "follows [DnsReady] (run_dns_proxy env cdp)"
  unfolding run_dns_proxy_def by (intro follows_stage) simp

lemma start_envoy_running:
  assumes "start_envoy env json cdp = Ok p"
  shows "state p = stateRunning \<and> proc p = Alive \<and> exitedCh p = Waiting \<and> pc_BootstrapConfig (cfg p) = json
    \<and> (\<exists>c. cmd p = Some c \<and> take 2 (cmd_Args c) = [''--config-yaml'', json])"
proof -
  obtain pc p0 where pc: "envoyProxyConfig (re_range env) json cdp = Ok pc" and new: "NewProxy (re_lookPath env) (re_nullLogger env) pc = Inr p0"
    and run: "Envoy_Proxy.Run (re_start env) p0 = Ok (None, p)"
    using assms by (auto simp: start_envoy_def go_simps split: option.split_asm)
  have json: "pc_BootstrapConfig pc = json" using pc by (auto simp: envoyProxyConfig_def go_simps)
  have p0: "state p0 = stateInitial" "pc_BootstrapConfig (cfg p0) = json"
    using new json by (auto simp: NewProxy_def Let_def split: sum.split_asm if_split_asm)
  obtain c cf where b: "buildCommand json (cfg p0) = Ok (c, cf)" and st: "re_start env (c\<lparr>cmd_SysProcAttr := Some getProcessAttr\<rparr>) = None"
    and p: "p = p0\<lparr>state := stateRunning, cfg := cf, cmd := Some (c\<lparr>cmd_SysProcAttr := Some getProcessAttr\<rparr>), proc := Alive, exitedCh := Waiting\<rparr>"
    using run p0 by (auto simp: Envoy_Proxy.Run_def transitionState_def go_simps Let_def split: option.split_asm)
  have "take 2 (cmd_Args c) = [''--config-yaml'', json]" "pc_BootstrapConfig cf = json"
    using b p0 by (auto simp: buildCommand_def go_simps Let_def)
  with p show ?thesis by simp
qed

lemma lifecycle_keeps_proxy:
  assumes "bind_outcome (NewLifecycleConfig c p) startLifecycleManager = Ok lc"
  shows "proxy lc = p"
  using assms
  by (auto simp: NewLifecycleConfig_def startLifecycleManager_def shutdownPath_def startupPath_def go_simps Let_def split: if_split_asm prod.split_asm)

lemma run_sidecar_result:
  assumes "snd (run_sidecar env cache cdp) = Ok cdp'"
  shows "\<exists>srv params bcfg json p m lc. setupXDSServer (re_listen env) (cdp_cfg cdp) = Ok srv
    \<and> getBootstrapParams (re_client env) (cdp_cfg cdp) = Ok params
    \<and> bootstrapConfig (re_lib env) (re_isDir env) (re_weakDecode env) (cdp_cfg cdp) srv params = Ok (bcfg, json)
    \<and> start_envoy env json cdp = Ok p
    \<and> bind_outcome (NewMetricsConfig (cdp_cfg cdp) (Some cache)) (startMetrics (re_lib env) (re_sinks env) bcfg) = Ok m
    \<and> bind_outcome (NewLifecycleConfig (cdp_cfg cdp) p) startLifecycleManager = Ok lc
    \<and> cdp_xdsServer cdp' = Some srv \<and> cdp_proxy cdp' = Some p \<and> cdp_metricsConfig cdp' = Some m \<and> cdp_lifecycleConfig cdp' = Some lc"
proof -
  obtain srv params d bcfg json p m lc where st: "setupXDSServer (re_listen env) (cdp_cfg cdp) = Ok srv"
    "getBootstrapParams (re_client env) (cdp_cfg cdp) = Ok params"
    "bootstrapConfig (re_lib env) (re_isDir env) (re_weakDecode env) (cdp_cfg cdp) srv params = Ok (bcfg, json)"
    "start_envoy env json cdp = Ok p"
    "bind_outcome (NewMetricsConfig (cdp_cfg cdp) (Some cache)) (startMetrics (re_lib env) (re_sinks env) bcfg) = Ok m"
    "bind_outcome (NewLifecycleConfig (cdp_cfg cdp) p) startLifecycleManager = Ok lc"
    and cdp': "cdp' = cdp\<lparr>cdp_xdsServer := Some srv, cdp_dns := d, cdp_proxy := Some p, cdp_metricsConfig := Some m, cdp_lifecycleConfig := Some lc\<rparr>"
    using assms unfolding run_sidecar_def stage_then_Ok by (auto simp: stage_then_Ok split: prod.split_asm)
  have "cdp_xdsServer cdp' = Some srv \<and> cdp_proxy cdp' = Some p \<and> cdp_metricsConfig cdp' = Some m \<and> cdp_lifecycleConfig cdp' = Some lc"
    by (simp add: cdp')
  with st show ?thesis by blast
qed

lemma NewConsulDP_fresh:
  assumes "NewConsulDP levelOf c = Ok cdp"
  shows "validateConfig c = Ok () \<and> cdp_cfg cdp = c \<and> cdp_proxy cdp = None \<and> cdp_xdsServer cdp = None \<and> cdp_lifecycleConfig cdp = None"
  using assms by (auto simp: NewConsulDP_def go_simps Let_def)

lemma Run_start_sidecar:
  assumes "snd (Run_start env cdp) = Ok cdp'" and "cfg_Mode (cdp_cfg cdp) \<noteq> ModeTypeDNSProxy"
  shows "\<exists>conn tok. snd (run_sidecar env NewSink (cdp\<lparr>cdp_serverConn := Some conn, cdp_aclToken := tok\<rparr>)) = Ok cdp'"
  using assms unfolding Run_start_def by (auto simp: stage_then_Ok Let_def split: prod.split_asm)

lemma started_sidecar:
  assumes "NewConsulDP levelOf c = Ok cdp" and "snd (Run_start env cdp) = Ok cdp'" and "cfg_Mode c \<noteq> ModeTypeDNSProxy"
  shows "\<exists>srv params bcfg json p lc. setupXDSServer (re_listen env) c = Ok srv \<and> getBootstrapParams (re_client env) c = Ok params
    \<and> bootstrapConfig (re_lib env) (re_isDir env) (re_weakDecode env) c srv params = Ok (bcfg, json)
    \<and> cdp_xdsServer cdp' = Some srv \<and> cdp_proxy cdp' = Some p \<and> cdp_lifecycleConfig cdp' = Some lc \<and> proxy lc = p
    \<and> state p = stateRunning \<and> proc p = Alive \<and> exitedCh p = Waiting
    \<and> (\<exists>cm. cmd p = Some cm \<and> take 2 (cmd_Args cm) = [''--config-yaml'', json])"
proof -
  have cfg: "cdp_cfg cdp = c" using NewConsulDP_fresh [OF assms(1)] by simp
  then obtain conn tok where "snd (run_sidecar env NewSink (cdp\<lparr>cdp_serverConn := Some conn, cdp_aclToken := tok\<rparr>)) = Ok cdp'"
    using Run_start_sidecar [OF assms(2)] assms(3) by blast
  from run_sidecar_result [OF this] obtain srv params bcfg json p m lc where r: "setupXDSServer (re_listen env) c = Ok srv"
    "getBootstrapParams (re_client env) c = Ok params"
    "bootstrapConfig (re_lib env) (re_isDir env) (re_weakDecode env) c srv params = Ok (bcfg, json)"
    "start_envoy env json (cdp\<lparr>cdp_serverConn := Some conn, cdp_aclToken := tok\<rparr>) = Ok p"
    "bind_outcome (NewLifecycleConfig c p) startLifecycleManager = Ok lc"
    "cdp_xdsServer cdp' = Some srv" "cdp_proxy cdp' = Some p" "cdp_lifecycleConfig cdp' = Some lc"
    unfolding cfg [symmetric] by auto
  from r start_envoy_running [OF r(4)] lifecycle_keeps_proxy [OF r(5)] show ?thesis by blast
qed

text \<open>
  Three consequences of the code as it is: the dataplane's own Envoy arguments are appended
  even if the user gave the same ones, and two pointers that validation lets be nil are
  dereferenced.
\<close>

lemma envoy_args_always_appended:
  assumes "cfg_Envoy (cdp_cfg cdp) = Some e" and "cfg_Logging (cdp_cfg cdp) = Some l"
  shows "\<exists>pc. envoyProxyConfig rng json cdp = Ok pc
    \<and> pc_ExtraArgs pc = en_ExtraArgs e @ map (\<lambda>(envoyArg, val). envoyArg @ '' '' @ val) (rng (envoy_args e))"
proof -
  have "fold (\<lambda>(envoyArg, val) extra. extra @ [envoyArg @ '' '' @ val]) xs ys = ys @ map (\<lambda>(envoyArg, val). envoyArg @ '' '' @ val) xs" for xs ys
    by (induction xs arbitrary: ys) auto
  with assms show ?thesis by (simp add: envoyProxyConfig_def Let_def)
qed

lemma nil_telemetry_panics:
  "cfg_Telemetry c = None \<Longrightarrow> bootstrapConfig lib isDir weakDecode c srv params = Panic ''nil pointer dereference''"
  by (simp add: bootstrapConfig_def bootstrap_inputs_def)

lemma nil_proxy_panics:
  "cfg_Proxy (cdp_cfg cdp) = None \<Longrightarrow> snd (run_dns_proxy env cdp) = Panic ''nil pointer dereference''"
  by (simp add: run_dns_proxy_def stage_then_Panic)

section \<open>Properties\<close>

text \<open>C1: the order of a start-up. The stages come in a fixed order and each is entered only if all
  earlier ones succeeded: a sidecar connects to Consul, listens for xDS, gets its parameters,
  starts the DNS proxy, generates the bootstrap, and only then starts Envoy, the metrics and
  the lifecycle manager; a DNS proxy only connects and starts the DNS proxy. When a sidecar's start-up
  succeeds, Envoy runs with exactly the bootstrap generated for the listening xDS server, and
  the lifecycle manager manages that Envoy; a DNS proxy has neither.\<close>

theorem startup_sequence:
  assumes "NewConsulDP levelOf c = Ok cdp"
  shows "follows (Connected # (if cfg_Mode c = ModeTypeDNSProxy then [DnsReady]
      else [XdsListening, GotParams, DnsReady, Generated, EnvoyStarted, MetricsStarted, LifecycleStarted])) (Run_start env cdp)
    \<and> (\<forall>cdp'. snd (Run_start env cdp) = Ok cdp' \<longrightarrow>
        (if cfg_Mode c = ModeTypeDNSProxy then cdp_proxy cdp' = None \<and> cdp_xdsServer cdp' = None
         else \<exists>srv params bcfg json p lc. cdp_xdsServer cdp' = Some srv \<and> getBootstrapParams (re_client env) c = Ok params
           \<and> bootstrapConfig (re_lib env) (re_isDir env) (re_weakDecode env) c srv params = Ok (bcfg, json)
           \<and> cdp_proxy cdp' = Some p \<and> state p = stateRunning \<and> proc p = Alive
           \<and> (\<exists>cm. cmd p = Some cm \<and> take 2 (cmd_Args cm) = [''--config-yaml'', json])
           \<and> cdp_lifecycleConfig cdp' = Some lc \<and> proxy lc = p))"
proof -
  have c: "cdp_cfg cdp = c" "cdp_proxy cdp = None" "cdp_xdsServer cdp = None" using NewConsulDP_fresh [OF assms] by simp_all
  have "follows (Connected # (if cfg_Mode c = ModeTypeDNSProxy then [DnsReady] else sidecar_plan)) (Run_start env cdp)"
    unfolding Run_start_def c(1) using run_sidecar_follows run_dns_proxy_follows
    by (intro follows_stage) (auto simp: Let_def split: prod.split)
  moreover have "cdp_proxy cdp' = None \<and> cdp_xdsServer cdp' = None"
    if "snd (Run_start env cdp) = Ok cdp'" "cfg_Mode c = ModeTypeDNSProxy" for cdp'
    using that c by (auto simp: Run_start_def run_dns_proxy_def stage_then_Ok Let_def split: prod.split_asm)
  ultimately show ?thesis
    using started_sidecar [OF assms] unfolding sidecar_plan_def by simp blast
qed


text \<open>A configuration whose parts are all there.\<close>

definition complete :: "Config \<Rightarrow> bool" where
  "complete c \<longleftrightarrow>
     (\<exists>consul t cr. cfg_Consul c = Some consul \<and> cc_TLS consul = Some t \<and> cc_Credentials consul = Some cr)
     \<and> (\<exists>d p l tel e x. cfg_DNSServer c = Some d \<and> cfg_Proxy c = Some p \<and> cfg_Logging c = Some l \<and> cfg_Telemetry c = Some tel
          \<and> cfg_Envoy c = Some e \<and> cfg_XDSServer c = Some x)"

definition no_nil :: "'a outcome \<Rightarrow> bool" where
  "no_nil r \<longleftrightarrow> r \<noteq> Panic ''nil pointer dereference''"

lemma no_nil_simple [simp]: "no_nil (Ok a)" "no_nil (Error e)"
  by (simp_all add: no_nil_def)

lemma no_nil_of_result [simp]: "no_nil (of_result r)"
  by (cases r) simp_all

lemma no_nil_wrap [simp]: "no_nil (wrap_outcome msg r) = no_nil r"
  by (cases r) (simp_all add: wrap_outcome_def no_nil_def)

lemma no_nil_bind: "no_nil r \<Longrightarrow> (\<And>a. r = Ok a \<Longrightarrow> no_nil (k a)) \<Longrightarrow> no_nil (bind_outcome r k)"
  by (cases r) (simp_all add: no_nil_def)

lemma no_nil_stage: "no_nil r \<Longrightarrow> (\<And>a. r = Ok a \<Longrightarrow> no_nil (snd (k a))) \<Longrightarrow> no_nil (snd (stage_then r st k))"
  by (auto simp: no_nil_def stage_then_Panic)

lemma connect_no_nil: "complete c \<Longrightarrow> no_nil (connect env c)"
  by (auto simp: complete_def connect_def split: option.split intro!: no_nil_bind)

lemma dns_no_nil: "complete c \<Longrightarrow> no_nil (startDNSProxy u t tok (cfg_DNSServer c) ns part)"
  by (auto simp: complete_def startDNSProxy_def split: sum.split option.split prod.split)

lemma bootstrap_no_nil: "complete c \<Longrightarrow> no_nil (bootstrapConfig lib isDir weakDecode c srv params)"
  by (auto simp: complete_def bootstrapConfig_def bootstrap_inputs_def split: prod.split intro!: no_nil_bind)

lemma params_no_nil: "complete c \<Longrightarrow> no_nil (getBootstrapParams client c)"
  by (auto simp: complete_def getBootstrapParams_def split: sum.split)

lemma setup_no_nil: "complete c \<Longrightarrow> no_nil (setupXDSServer listen c)"
  by (auto simp: complete_def setupXDSServer_def split: prod.split intro!: no_nil_bind)

lemma envoy_no_nil:
  assumes "complete (cdp_cfg cdp)"
  shows "no_nil (start_envoy env json cdp)"
proof -
  have "no_nil (Envoy_Proxy.Run start p)" if "NewProxy lp nl pc = Inr p" for start p lp nl pc
  proof -
    have "pc_Logger (cfg p) = or_else (pc_Logger pc) nl"
      using that by (auto simp: NewProxy_def Let_def split: sum.split_asm if_split_asm)
    then obtain l where "pc_Logger (cfg p) = Some l" by (cases "pc_Logger pc") (simp_all add: or_else_def)
    then have "no_nil (buildCommand y (cfg p))" for y
      by (auto simp: buildCommand_def removeArgAndGetValue_def no_nil_def Let_def split: option.split)
    then show ?thesis
      by (auto simp: Envoy_Proxy.Run_def transitionState_def Let_def split: prod.split option.split intro!: no_nil_bind)
  qed
  moreover have "no_nil (envoyProxyConfig rng json cdp)" for rng
    using assms by (auto simp: complete_def envoyProxyConfig_def Let_def)
  ultimately show ?thesis
    unfolding start_envoy_def by (auto simp: split: option.split intro!: no_nil_bind)
qed

lemma metrics_no_nil:
  assumes "complete c"
  shows "no_nil (bind_outcome (NewMetricsConfig c (Some cache)) (startMetrics lib sl bcfg))"
proof -
  have conf: "no_nil (configureCDPMetricSinks sl s m)" if "mc_cfg m = Some t" for s m t
    using that by (auto simp: configureCDPMetricSinks_def getPromDefaults_def split: option.split intro!: no_nil_bind)
  have cfg1: "mc_cfg m' = Some t" if "configureCDPMetricSinks sl s m = Ok m'" "mc_cfg m = Some t" for s m m' t
    using that by (auto simp: configureCDPMetricSinks_def getPromDefaults_def go_simps split: option.split_asm if_split_asm)
  have p: "no_nil (start_prometheus lib sl bcfg m)" if "mc_cfg m = Some t" for m t
    unfolding start_prometheus_def using that conf cfg1 by (auto intro!: no_nil_bind)
  have pc: "mc_cfg m' = Some t" if "start_prometheus lib sl bcfg m = Ok m'" "mc_cfg m = Some t" for m m' t
    using that cfg1 [of Prometheus m _ t] by (auto simp: start_prometheus_def go_simps split: if_split_asm)
  have s: "no_nil (start_statsd lib sl bcfg m)" if "mc_cfg m = Some t" for m t
    unfolding start_statsd_def using that conf by (auto intro!: no_nil_bind)
  have sc: "mc_cfg m' = Some t" if "start_statsd lib sl bcfg m = Ok m'" "mc_cfg m = Some t" for m m' t
    using that by (auto simp: start_statsd_def go_simps split: if_split_asm dest!: cfg1)
  have d: "no_nil (start_dogstatsd lib sl bcfg m)" if "mc_cfg m = Some t" for m t
    unfolding start_dogstatsd_def using that conf by (auto intro!: no_nil_bind)
  have "no_nil (startMetrics lib sl bcfg m)" if "mc_cfg m = Some t" for m t
    unfolding startMetrics_def using that p pc s sc d by (auto intro!: no_nil_bind)
  then show ?thesis
    using assms by (auto simp: complete_def NewMetricsConfig_def)
qed

lemma lifecycle_no_nil:
  assumes "complete c"
  shows "no_nil (bind_outcome (NewLifecycleConfig c p) startLifecycleManager)"
proof -
  have h: "no_nil (HandleFunc pattern h x)" for pattern h x by (simp add: HandleFunc_def no_nil_def)
  have "no_nil (startLifecycleManager m)" for m
    unfolding startLifecycleManager_def Let_def using h by (auto split: prod.split intro!: no_nil_bind)
  then show ?thesis using assms by (auto simp: complete_def NewLifecycleConfig_def intro!: no_nil_bind)
qed

lemma built_config_complete:
  assumes "buildDataplaneConfig merge readFile oob f extraArgs = Inr c"
  shows "complete c"
proof -
  obtain d where "c = constructRuntimeConfig d extraArgs"
    using assms by (auto simp: buildDataplaneConfig_def Let_def split: sum.split_asm if_split_asm)
  then show ?thesis by (simp add: complete_def constructRuntimeConfig_def runtime_consul_def Let_def)
qed

lemma run_sidecar_no_nil: "complete (cdp_cfg cdp) \<Longrightarrow> no_nil (snd (run_sidecar env cache cdp))"
  unfolding run_sidecar_def
  by (intro no_nil_stage) (auto simp: setup_no_nil params_no_nil bootstrap_no_nil envoy_no_nil metrics_no_nil lifecycle_no_nil
      dns_no_nil split: prod.split intro!: no_nil_stage)

lemma run_dns_no_nil: "complete (cdp_cfg cdp) \<Longrightarrow> no_nil (snd (run_dns_proxy env cdp))"
  unfolding run_dns_proxy_def
  by (intro no_nil_stage no_nil_bind) (auto simp: dns_no_nil, auto simp: complete_def)

text \<open>C32: a configuration built from the command line and accepted by validation never makes the
  start-up dereference nil, whatever the mode, the environment, Consul and the operating
  system answer.\<close>

theorem built_config_starts_without_nil:
  assumes "buildDataplaneConfig merge readFile oob f extraArgs = Inr c" and "NewConsulDP levelOf c = Ok cdp"
  shows "snd (Run_start env cdp) \<noteq> Panic ''nil pointer dereference''"
proof -
  have c: "complete (cdp_cfg cdp)" using built_config_complete [OF assms(1)] NewConsulDP_fresh [OF assms(2)] by simp
  then have "no_nil (snd (Run_start env cdp))"
    unfolding Run_start_def
    by (intro no_nil_stage connect_no_nil) (auto simp: Let_def run_sidecar_no_nil run_dns_no_nil split: prod.split)
  then show ?thesis by (simp add: no_nil_def)
qed

text \<open>A sidecar with static credentials, no DNS proxy and a statsd-less configuration.\<close>

definition run_config :: Config where
  "run_config = sample_sidecar
     \<lparr>cfg_DNSServer := Some \<lparr>dns_BindAddr = ''127.0.0.1'', dns_Port = - 1\<rparr>,
      cfg_Consul := Some \<lparr>cc_Addresses = ''consul.local'', cc_GRPCPort = 8502,
        cc_Credentials = Some \<lparr>cred_Type = ''static'', cred_Static = \<lparr>sc_Token = ''secret''\<rparr>,
          cred_Login = \<lparr>lc_AuthMethod = [], lc_Namespace = [], lc_Partition = [], lc_Datacenter = [], lc_BearerToken = [],
            lc_BearerTokenPath = [], lc_Meta = Map.empty\<rparr>\<rparr>,
        cc_ServerWatchDisabled = False,
        cc_TLS = Some \<lparr>tls_Disabled = True, tls_CACertsPath = [], tls_ServerName = [], tls_CertFile = [], tls_KeyFile = [],
          tls_InsecureSkipVerify = False\<rparr>\<rparr>,
      cfg_Logging := Some \<lparr>log_Name = ''consul-dataplane'', log_Level = ''INFO'', log_JSON = False\<rparr>\<rparr>"

definition run_world :: "unit run_env" where
  "run_world = \<lparr>re_NewGlobal = None, re_isDir = (\<lambda>_. Inr False), re_configureTLS = (\<lambda>_. Inr), re_loadKeyPair = (\<lambda>_ _. Inr 0),
     re_readFile = (\<lambda>_. Inl (Err ''file'')), re_NewWatcher = (\<lambda>_. None), re_State = Inr (7, ''token''), re_listen = sample_listen,
     re_client = (\<lambda>_. Inr sample_params), re_listenUDP = Inr 8600, re_listenTCP = Inr 8600, re_lib = example_lib,
     re_weakDecode = (\<lambda>_. Inr), re_lookPath = Inr ''envoy'', re_nullLogger = \<lparr>IsTrace = False, IsDebug = False, IsInfo = False, IsWarn = False, IsError = False\<rparr>,
     re_range = (\<lambda>xs. xs), re_start = (\<lambda>_. None), re_sinks = sample_sink_lib\<rparr>"

lemma run_config_new: "\<exists>cdp. NewConsulDP (\<lambda>_. 3) run_config = Ok cdp"
proof -
  have "IsLoopback (ParseIP ''127.0.0.1'')" by code_simp
  then have "validateConfig run_config = Ok ()"
    by (simp add: validateConfig_def validate_switch_def validate_telemetry_def run_config_def sample_sidecar_def sample_dataplane_def
        sample_envoy_def sample_telemetry_def Let_def field_def CredentialsTypeLogin_def ModeTypeSidecar_def ModeTypeDNSProxy_def)
  then show ?thesis by (simp add: NewConsulDP_def run_config_def Let_def)
qed

lemma world_connects: "connect run_world run_config = Ok (7, ''token'')"
  by (simp add: connect_def run_world_def run_config_def Load_def ToDiscoveryCredentials_def CredentialsTypeNone_def CredentialsTypeStatic_def)

lemma world_bootstraps:
  "\<exists>t. bootstrapConfig example_lib isDir weakDecode run_config sample_xds sample_params = Ok (initial_config sample_envoy, t) \<and> t \<noteq> []"
proof -
  have "bootstrapConfig example_lib isDir weakDecode run_config sample_xds sample_params
      = bootstrapConfig example_lib isDir weakDecode sample_sidecar sample_xds sample_params"
    by (simp add: bootstrapConfig_def bootstrap_inputs_def run_config_def)
  with sample_bootstrap_generates obtain t where t: "bootstrapConfig example_lib isDir weakDecode run_config sample_xds sample_params = Ok (initial_config sample_envoy, t)"
    by metis
  then have "GenerateJSON example_lib (initial_config sample_envoy) sample_args True = Inr t"
    using sample_inputs [of isDir weakDecode]
    by (auto simp: bootstrapConfig_def bootstrap_inputs_def run_config_def go_simps)
  then obtain a' where "l_Indent example_lib (bootstrapTemplate a') = Inr t"
    using GenerateJSON_configured [OF _ sample_well_formed] by blast
  then have "t \<noteq> []" by (auto simp: example_lib_def bootstrapTemplate_def)
  with t show ?thesis by blast
qed

lemma world_starts_envoy:
  assumes "cdp_cfg cdp = run_config" and "t \<noteq> []"
  shows "\<exists>p. start_envoy run_world t cdp = Ok p"
  using assms
  by (simp add: start_envoy_def envoyProxyConfig_def run_config_def sample_sidecar_def sample_dataplane_def sample_envoy_def run_world_def
      NewProxy_def or_else_def Let_def wrap_outcome_def Envoy_Proxy.Run_def transitionState_def buildCommand_def removeArgAndGetValue_def envoy_args_def)

lemma world_runs:
  assumes "NewConsulDP (\<lambda>_. 3) run_config = Ok cdp"
  shows "\<exists>cdp'. snd (Run_start run_world cdp) = Ok cdp'"
proof -
  have c: "cdp_cfg cdp = run_config" using NewConsulDP_fresh [OF assms] by simp
  let ?cdp = "cdp\<lparr>cdp_serverConn := Some 7, cdp_aclToken := ''token''\<rparr>"
  have c': "cdp_cfg ?cdp = run_config" using c by simp
  have xs: "setupXDSServer (re_listen run_world) run_config = Ok sample_xds"
    using sample_setup by (simp add: setupXDSServer_def run_world_def run_config_def)
  have pars: "getBootstrapParams (re_client run_world) run_config = Ok sample_params"
    by (simp add: getBootstrapParams_def run_world_def run_config_def sample_sidecar_def)
  have dns: "startDNSProxy u t tok (cfg_DNSServer run_config) ns part = Ok None" for u t tok ns part
    by (simp add: startDNSProxy_def NewDNSServer_def run_config_def)
  obtain t where boot: "bootstrapConfig (re_lib run_world) (re_isDir run_world) (re_weakDecode run_world) run_config sample_xds sample_params
      = Ok (initial_config sample_envoy, t)" "t \<noteq> []"
    using world_bootstraps by (force simp: run_world_def)
  obtain p where envoy: "start_envoy run_world t ?cdp = Ok p" using world_starts_envoy [OF c' boot(2)] by blast
  have "\<exists>m. bind_outcome (NewMetricsConfig run_config (Some NewSink)) (startMetrics lib sl b) = Ok m" for lib sl b
    by (simp add: NewMetricsConfig_def startMetrics_def run_config_def sample_sidecar_def sample_dataplane_def)
  then obtain m where met: "bind_outcome (NewMetricsConfig run_config (Some NewSink))
      (startMetrics (re_lib run_world) (re_sinks run_world) (initial_config sample_envoy)) = Ok m" by blast
  have "\<exists>lc. bind_outcome (NewLifecycleConfig run_config p) startLifecycleManager = Ok lc"
    by (simp add: NewLifecycleConfig_def startLifecycleManager_def shutdownPath_def startupPath_def HandleFunc_def Let_def run_config_def
        sample_sidecar_def sample_dataplane_def sample_envoy_def defaultLifecycleShutdownPath_def defaultLifecycleStartupPath_def)
  then obtain lc where lc: "bind_outcome (NewLifecycleConfig run_config p) startLifecycleManager = Ok lc" by blast
  have "\<exists>cdp'. snd (run_sidecar run_world NewSink ?cdp) = Ok cdp'"
    unfolding run_sidecar_def by (simp add: stage_then_Ok xs pars dns boot envoy met lc c wrap_outcome_def)
  moreover have "cfg_Mode run_config \<noteq> ModeTypeDNSProxy" by (simp add: run_config_def sample_sidecar_def sample_dataplane_def)
  ultimately show ?thesis by (simp add: Run_start_def stage_then_Ok world_connects c)
qed

theorem startup_sequence_witness:
  "\<exists>cdp cdp' p. NewConsulDP (\<lambda>_. 3) run_config = Ok cdp \<and> snd (Run_start run_world cdp) = Ok cdp'
     \<and> fst (Run_start run_world cdp) = [Connected, XdsListening, GotParams, DnsReady, Generated, EnvoyStarted, MetricsStarted, LifecycleStarted]
     \<and> cdp_proxy cdp' = Some p \<and> state p = stateRunning"
proof -
  obtain cdp where n: "NewConsulDP (\<lambda>_. 3) run_config = Ok cdp" using run_config_new by blast
  obtain cdp' where r: "snd (Run_start run_world cdp) = Ok cdp'" using world_runs [OF n] by blast
  have "cfg_Mode run_config \<noteq> ModeTypeDNSProxy" by (simp add: run_config_def sample_sidecar_def sample_dataplane_def)
  with startup_sequence [OF n, of run_world] n r show ?thesis by (auto simp: follows_def)
qed


theorem built_config_starts_without_nil_witness:
  "\<exists>c cdp. buildDataplaneConfig (\<lambda>a b. Inr (a\<lparr>df_Mode := Some ''dns-proxy'', df_Consul := (df_Consul a)\<lparr>cf_Addresses := Some ''consul.local''\<rparr>\<rparr>))
       (\<lambda>_. Inl (Err ''x'')) (\<lambda>_. 0) empty_FlagOpts [] = Inr c
     \<and> NewConsulDP (\<lambda>_. 3) c = Ok cdp \<and> snd (Run_start run_world cdp) \<noteq> Panic ''nil pointer dereference''"
proof -
  let ?merge = "\<lambda>a b. Inr (a\<lparr>df_Mode := Some ''dns-proxy'', df_Consul := (df_Consul a)\<lparr>cf_Addresses := Some ''consul.local''\<rparr>\<rparr>)"
  obtain c where c: "buildDataplaneConfig ?merge (\<lambda>_. Inl (Err ''x'')) (\<lambda>_. 0) empty_FlagOpts [] = Inr c"
    by (simp add: buildDataplaneConfig_def mergeConfigs_def empty_FlagOpts_def)
  then have "c = constructRuntimeConfig (default_flags\<lparr>df_Mode := Some ''dns-proxy'',
      df_Consul := (df_Consul default_flags)\<lparr>cf_Addresses := Some ''consul.local''\<rparr>\<rparr>) []"
    by (simp add: buildDataplaneConfig_def mergeConfigs_def empty_FlagOpts_def)
  then have "validateConfig c = Ok ()" "\<exists>l. cfg_Logging c = Some l"
    by (simp_all add: validateConfig_def validate_switch_def validate_telemetry_def constructRuntimeConfig_def runtime_consul_def runtime_telemetry_def
        runtime_proxy_def default_flags_def empty_DataplaneConfigFlags_def Let_def field_def CredentialsTypeLogin_def ModeTypeSidecar_def
        ModeTypeDNSProxy_def stringVal_def intVal_def empty_ConsulFlags_def empty_CredentialsFlags_def empty_PrometheusTelemetryFlags_def durationVal_def
        IsEmpty_def empty_ProxyFlags_def empty_ServiceFlags_def)
  then obtain cdp where "NewConsulDP (\<lambda>_. 3) c = Ok cdp" by (auto simp: NewConsulDP_def Let_def)
  with built_config_starts_without_nil [OF c this] c show ?thesis by blast
qed

end
