(* ===== verification/Main_Process.thy ===== *)
theory Main_Process
  imports Dataplane_Run
begin

text \<open>
  The command, \<open>run\<close> of \<open>cmd/consul-dataplane/main.go\<close>, and the version it prints
  (\<open>pkg/version\<close>): parsing the flags, the commands that only print or check, building and
  starting a dataplane, and the exit status.
\<close>

section \<open>The version\<close>

definition Version :: string where "Version = ''2.1.0''"
definition VersionPrerelease :: string where "VersionPrerelease = ''dev''"

text \<open>The build chooses one of two files; \<open>goVersion\<close> is \<open>runtime.Version()\<close>.\<close>

datatype build = FIPSBuild | NonFIPSBuild

definition IsFIPS :: "build \<Rightarrow> bool" where
  "IsFIPS b = (case b of FIPSBuild \<Rightarrow> True | NonFIPSBuild \<Rightarrow> False)"

fun split_text :: "string \<Rightarrow> string \<Rightarrow> string \<Rightarrow> string list" where
  "split_text sep part [] = [part]"
| "split_text sep part (c # s) =
     (if sep \<noteq> [] \<and> HasPrefix (c # s) sep then part # split_text sep [] (drop (length sep - 1) s)
      else split_text sep (part @ [c]) s)"

definition GetFIPSInfo :: "build \<Rightarrow> string \<Rightarrow> string" where
  "GetFIPSInfo b goVersion =
     (case b of
        NonFIPSBuild \<Rightarrow> []
      | FIPSBuild \<Rightarrow>
          (let gover = split_text ''X:'' [] goVersion
           in if length gover \<ge> 2 then ''FIPS 140-2 Enabled, crypto module '' @ last gover else ''Enabled''))"

definition GetHumanVersion :: "build \<Rightarrow> string" where
  "GetHumanVersion b =
     (let v1 = (if VersionPrerelease \<noteq> [] \<and> \<not> HasSuffix Version (''-'' @ VersionPrerelease)
                then Version @ ''-'' @ VersionPrerelease else Version);
          v2 = (if IsFIPS b then v1 @ ''+fips1402'' else v1)
      in filter (\<lambda>c. c \<noteq> CHR 0x27) v2)"

section \<open>The command\<close>

record main_env =
  me_build :: build
  me_GitCommit :: string
  me_readFile :: "string \<Rightarrow> string result"
  me_oob :: "string \<Rightarrow> int"
  me_merge :: merge
  me_health :: "string \<Rightarrow> int result"
  me_levelOf :: "string \<Rightarrow> nat"

text \<open>What the command does: print the version, exit with a health code, or run a dataplane.\<close>

datatype command = PrintVersion string string | ExitCode int | RunDataplane ConsulDataplane

definition run :: "main_env \<Rightarrow> init_state \<Rightarrow> string list \<Rightarrow> command outcome" where
  "run me st args =
     bind_outcome (of_result (Parse (in_flags st) args (in_opts st))) (\<lambda>(opts, rest).
       if fo_printVersion opts then Ok (PrintVersion (GetHumanVersion (me_build me)) (me_GitCommit me))
       else
         bind_outcome (of_result (buildDefaultConsulDPFlags (me_oob me))) (\<lambda>defaults.
           if fo_checkProxyHealth opts
           then bind_outcome (runProxyReadyCmd defaults (me_health me) opts) (\<lambda>code. Ok (ExitCode code))
           else
             bind_outcome (readServiceIDFromFile (me_readFile me) opts) (\<lambda>opts1.
             bind_outcome (readProxyIDFromFile (me_readFile me) opts1) (\<lambda>opts2.
             bind_outcome (validateFlags opts2) (\<lambda>_.
             bind_outcome (of_result (buildDataplaneConfig (me_merge me) (me_readFile me) (me_oob me) opts2 rest)) (\<lambda>c.
             bind_outcome (NewConsulDP (me_levelOf me) c) (\<lambda>cdp.
               Ok (RunDataplane cdp))))))))"

text \<open>
  The status \<open>main\<close> leaves with after \<open>run\<close> has returned: \<open>log.Fatal\<close> exits with 1. And the status of a command that ends by itself; a
  panic exits with 2.
\<close>

definition main_exit :: "go_error option \<Rightarrow> int" where
  "main_exit err = (if err \<noteq> None then 1 else 0)"

fun exit_status :: "command outcome \<Rightarrow> int option" where
  "exit_status (Ok (PrintVersion v r)) = Some (main_exit None)"
| "exit_status (Ok (ExitCode code)) = Some code"
| "exit_status (Ok (RunDataplane cdp)) = None"
| "exit_status (Error e) = Some (main_exit (Some e))"
| "exit_status (Fatal m) = Some 1"
| "exit_status (Panic m) = Some 2"

section \<open>Lemmas\<close>

lemma human_version: "GetHumanVersion NonFIPSBuild = ''2.1.0-dev''" "GetHumanVersion FIPSBuild = ''2.1.0-dev+fips1402''"
  by (simp_all add: GetHumanVersion_def IsFIPS_def Version_def VersionPrerelease_def HasSuffix_def Let_def)

lemma fips_info:
  "GetFIPSInfo FIPSBuild ''go1.22.5 X:boringcrypto'' = ''FIPS 140-2 Enabled, crypto module boringcrypto''" "GetFIPSInfo FIPSBuild ''go1.22.5'' = ''Enabled''"
  by code_simp+

text \<open>A dataplane that the command runs was built from its flags and accepted by validation.\<close>

lemma run_dataplane_built:
  assumes "run me st args = Ok (RunDataplane cdp)"
  shows "\<exists>opts rest c. buildDataplaneConfig (me_merge me) (me_readFile me) (me_oob me) opts rest = Inr c
    \<and> NewConsulDP (me_levelOf me) c = Ok cdp \<and> validateConfig c = Ok () \<and> complete c"
proof -
  obtain opts rest c where "buildDataplaneConfig (me_merge me) (me_readFile me) (me_oob me) opts rest = Inr c"
    "NewConsulDP (me_levelOf me) c = Ok cdp"
    using assms by (auto simp: run_def go_simps split: prod.split_asm if_split_asm)
  with built_config_complete NewConsulDP_fresh show ?thesis by blast
qed

end
