(* ===== verification/Process_Signals.thy ===== *)
theory Process_Signals
  imports Main_Process
begin

text \<open>
  The process once the dataplane has started: the last part of \<open>run\<close> in \<open>main.go\<close>, with the goroutine
  that waits for a signal, beside the final \<open>select\<close> of \<open>Run\<close>, the shutdown goroutines of the
  lifecycle manager and the Envoy process. Any of them may take the next step.
\<close>

section \<open>The process as a step relation\<close>

datatype run_pc = Selecting | Returned "go_error option"

text \<open>
  \<open>m_threads\<close> is the lifecycle manager with its shutdown goroutines; there is none in dns-proxy mode.
  \<open>m_pending\<close> says whether the signal channel, which has room for one, holds a signal;
  \<open>m_handled\<close>, whether the goroutine has received one. It receives only once.
\<close>

record msys =
  m_threads :: "lsys option"
  m_pending :: bool
  m_handled :: bool
  m_cancelled :: bool
  m_run :: run_pc

datatype mlabel = MSignal | MHandle | MThread llabel | MEnvoy plabel | MEnds exit_event

text \<open>Is a case of the \<open>select\<close> ready, and what receiving does to the exit channel.\<close>

fun ready :: "msys \<Rightarrow> Proxy \<Rightarrow> exit_event \<Rightarrow> bool" where
  "ready s p CtxDone = m_cancelled s"
| "ready s p (ProxyExited e) = (exitedCh p = Notifying e)"
| "ready s p XdsExited = True"
| "ready s p MetricsExited = True"
| "ready s p LifecycleExited = True"

fun received :: "exit_event \<Rightarrow> Proxy \<Rightarrow> Proxy" where
  "received (ProxyExited e) p = p\<lparr>exitedCh := Closed\<rparr>"
| "received _ p = p"

definition with_proxy :: "lsys \<Rightarrow> Proxy \<Rightarrow> lsys" where
  "with_proxy l p = l\<lparr>mgr := (mgr l)\<lparr>proxy := p\<rparr>\<rparr>"

text \<open>
  What happens to Envoy by itself: it dies, its exit is waited for, its readiness is polled. The
  goroutine of the signal calls \<open>GracefulShutdown\<close>, which starts a shutdown in the manager or cancels the context.
\<close>

inductive mstep :: "msys \<Rightarrow> mlabel \<Rightarrow> msys \<Rightarrow> bool" where
  signal: "m_run s = Selecting \<Longrightarrow> mstep s MSignal (s\<lparr>m_pending := True\<rparr>)"
| graceful: "m_run s = Selecting \<Longrightarrow> m_pending s \<Longrightarrow> \<not> m_handled s \<Longrightarrow> m_threads s = Some l \<Longrightarrow> lstep l LRequest l' \<Longrightarrow>
     mstep s MHandle (s\<lparr>m_pending := False, m_handled := True, m_threads := Some l'\<rparr>)"
| cancel: "m_run s = Selecting \<Longrightarrow> m_pending s \<Longrightarrow> \<not> m_handled s \<Longrightarrow> m_threads s = None \<Longrightarrow>
     mstep s MHandle (s\<lparr>m_pending := False, m_handled := True, m_cancelled := True\<rparr>)"
| thread: "m_run s = Selecting \<Longrightarrow> m_threads s = Some l \<Longrightarrow> lstep l a l' \<Longrightarrow>
     mstep s (MThread a) (s\<lparr>m_threads := Some l'\<rparr>)"
| envoy: "m_run s = Selecting \<Longrightarrow> m_threads s = Some l \<Longrightarrow> pstep (proxy (mgr l)) b p \<Longrightarrow> b \<in> {LDies, LReady} \<union> range LReap \<Longrightarrow>
     mstep s (MEnvoy b) (s\<lparr>m_threads := Some (with_proxy l p)\<rparr>)"
| ends: "m_run s = Selecting \<Longrightarrow> m_threads s = Some l \<Longrightarrow> ready s (proxy (mgr l)) ev \<Longrightarrow>
     run_select post kill ev (received ev (proxy (mgr l))) = Ok (err, p) \<Longrightarrow>
     mstep s (MEnds ev) (s\<lparr>m_run := Returned err, m_threads := Some (with_proxy l p)\<rparr>)"
| dns_ends: "m_run s = Selecting \<Longrightarrow> m_threads s = None \<Longrightarrow> m_cancelled s \<Longrightarrow>
     mstep s (MEnds CtxDone) (s\<lparr>m_run := Returned None\<rparr>)"

inductive_cases mstep_cases: "mstep s a t"

text \<open>The process right after a start-up has succeeded.\<close>

definition threads_of :: "int \<Rightarrow> ConsulDataplane \<Rightarrow> lsys option" where
  "threads_of now cdp = map_option (\<lambda>lc. \<lparr>clock = now, mgr = lc, shutdowns = []\<rparr>) (cdp_lifecycleConfig cdp)"

definition started_process :: "int \<Rightarrow> ConsulDataplane \<Rightarrow> msys" where
  "started_process now cdp =
     \<lparr>m_threads = threads_of now cdp, m_pending = False, m_handled = False, m_cancelled = False, m_run = Selecting\<rparr>"

definition mstart :: "'config run_env \<Rightarrow> msys \<Rightarrow> bool" where
  "mstart env s \<longleftrightarrow> (\<exists>levelOf c cdp cdp' now. NewConsulDP levelOf c = Ok cdp \<and> snd (Run_start env cdp) = Ok cdp' \<and> s = started_process now cdp')"

section \<open>Lemmas\<close>

lemma with_proxy_simps [simp]:
  "proxy (mgr (with_proxy l p)) = p" "clock (with_proxy l p) = clock l" "shutdowns (with_proxy l p) = shutdowns l"
  "shutdownGracePeriodSeconds (mgr (with_proxy l p)) = shutdownGracePeriodSeconds (mgr l)"
  "shutdownDrainListenersEnabled (mgr (with_proxy l p)) = shutdownDrainListenersEnabled (mgr l)"
  by (simp_all add: with_proxy_def)

lemma waited_with_proxy [simp]: "waited (with_proxy l p) = waited l"
  by (simp add: waited_def)

text \<open>What a step of a shutdown goroutine does to the proxy is an operation of the proxy.\<close>

lemma lstep_proxy:
  assumes "lstep l a l'"
  shows "proxy (mgr l') = proxy (mgr l) \<or> (\<exists>b. b \<in> {LDump, LDrain, LQuit} \<and> pstep (proxy (mgr l)) b (proxy (mgr l')))"
  using assms by cases (auto intro: pstep.intros)

lemma lstep_settings:
  "lstep l a l' \<Longrightarrow> shutdownGracePeriodSeconds (mgr l') = shutdownGracePeriodSeconds (mgr l)
    \<and> shutdownDrainListenersEnabled (mgr l') = shutdownDrainListenersEnabled (mgr l)"
  by (auto elim!: lstep.cases)

lemma lstep_waited:
  assumes "lstep l a l'" and "waited l"
  shows "waited l'"
  using assms(1)
proof cases
  case (dumped i t p get wr)
  with assms(2) waited_update_not_done [OF dumped(3,4), of SdDrain] show ?thesis by (simp add: waited_alt)
next
  case (drained i t p post)
  with assms(2) waited_update_not_done [OF drained(3,4), of SdWait] show ?thesis by (simp add: waited_alt)
next
  case (quitted i t post)
  then have "(t, SdDone) \<in> set (shutdowns l')" by (simp add: set_update_memI)
  with quitted show ?thesis by (auto simp: waited_alt)
qed (use assms(2) in \<open>auto simp: waited_alt intro: order_trans\<close>)

lemma lstep_stopped:
  assumes "lstep l a l'" and "state (proxy (mgr l')) = stateStopped" and "state (proxy (mgr l)) = stateStopped \<Longrightarrow> waited l"
  shows "waited l'"
proof (cases "state (proxy (mgr l)) = stateStopped")
  case True
  with assms(3) show ?thesis by (intro lstep_waited [OF assms(1)]) simp
next
  case False
  from assms(1) show ?thesis
  proof cases
    case (quitted i t post)
    then have "(t, SdDone) \<in> set (shutdowns l')" by (simp add: set_update_memI)
    with quitted show ?thesis by (auto simp: waited_alt)
  qed (use False assms(2) in \<open>auto simp: shutdown_op_phases phase_simps split: if_splits\<close>)
qed

lemma lstep_draining:
  assumes "lstep l a l'" and "state (proxy (mgr l')) = stateDraining" and "state (proxy (mgr l)) = stateDraining \<Longrightarrow> shutdownDrainListenersEnabled (mgr l)"
  shows "shutdownDrainListenersEnabled (mgr l')"
  using assms by cases (auto simp: shutdown_op_phases phase_simps split: if_splits)

lemma pstep_alive:
  "pstep p b p' \<Longrightarrow> proc p \<noteq> NoProcess \<Longrightarrow> b \<in> {LDump, LDrain, LQuit, LDies, LReady} \<union> range LReap \<Longrightarrow> proc p' \<noteq> NoProcess"
  by (auto elim!: pstep.cases simp: reap_def transitionState_def split: if_splits)

lemma envoy_phase:
  "pstep p b p' \<Longrightarrow> b \<in> {LDies, LReady} \<union> range LReap \<Longrightarrow> state p' = state p \<or> state p' = stateExited"
  by (auto elim!: pstep.cases simp: Ready_keeps reap_def transitionState_def)

text \<open>The invariant of a process with a lifecycle manager.\<close>

definition minv :: "msys \<Rightarrow> bool" where
  "minv s \<longleftrightarrow> (\<forall>l. m_threads s = Some l \<longrightarrow>
     (m_run s = Selecting \<longrightarrow> proxy_inv (proxy (mgr l)) \<and> proc (proxy (mgr l)) \<noteq> NoProcess \<and> \<not> m_cancelled s
        \<and> (state (proxy (mgr l)) = stateStopped \<longrightarrow> waited l)
        \<and> (state (proxy (mgr l)) = stateDraining \<longrightarrow> shutdownDrainListenersEnabled (mgr l)))
     \<and> (m_run s = Returned None \<longrightarrow> proc (proxy (mgr l)) = Dead \<and> exitedCh (proxy (mgr l)) = Closed))"

lemma started_threads:
  assumes "mstart env s" and "m_threads s = Some l"
  shows "\<exists>now lc cm. s = \<lparr>m_threads = Some l, m_pending = False, m_handled = False, m_cancelled = False, m_run = Selecting\<rparr>
    \<and> l = \<lparr>clock = now, mgr = lc, shutdowns = []\<rparr>
    \<and> state (proxy lc) = stateRunning \<and> proc (proxy lc) = Alive \<and> exitedCh (proxy lc) = Waiting \<and> cmd (proxy lc) = Some cm"
proof -
  obtain levelOf c cdp cdp' now where n: "NewConsulDP levelOf c = Ok cdp" and r: "snd (Run_start env cdp) = Ok cdp'" and s: "s = started_process now cdp'"
    using assms(1) unfolding mstart_def by blast
  have fresh: "cdp_cfg cdp = c" "cdp_lifecycleConfig cdp = None" using NewConsulDP_fresh [OF n] by simp_all
  have mode: "cfg_Mode c \<noteq> ModeTypeDNSProxy"
  proof
    assume "cfg_Mode c = ModeTypeDNSProxy"
    then have "cdp_lifecycleConfig cdp' = None"
      using r fresh by (auto simp: Run_start_def run_dns_proxy_def stage_then_Ok Let_def split: prod.split_asm)
    with assms(2) s show False by (simp add: started_process_def threads_of_def)
  qed
  from started_sidecar [OF n r mode] obtain p lc cm where "cdp_lifecycleConfig cdp' = Some lc" "proxy lc = p" "state p = stateRunning"
    "proc p = Alive" "exitedCh p = Waiting" "cmd p = Some cm" by blast
  with s assms(2) show ?thesis by (auto simp: started_process_def threads_of_def)
qed

lemma minv_start: "mstart env s \<Longrightarrow> minv s"
  using started_threads [of env s] by (fastforce simp: minv_def proxy_inv_def)

lemma minv_thread:
  assumes "minv s" and "m_run s = Selecting" and "m_threads s = Some l" and "lstep l a l'"
  shows "minv (s\<lparr>m_threads := Some l'\<rparr>)"
proof -
  have i: "proxy_inv (proxy (mgr l))" "proc (proxy (mgr l)) \<noteq> NoProcess" "\<not> m_cancelled s"
    "state (proxy (mgr l)) = stateStopped \<Longrightarrow> waited l" "state (proxy (mgr l)) = stateDraining \<Longrightarrow> shutdownDrainListenersEnabled (mgr l)"
    using assms(1-3) by (auto simp: minv_def)
  have "proxy_inv (proxy (mgr l')) \<and> proc (proxy (mgr l')) \<noteq> NoProcess"
    using lstep_proxy [OF assms(4)] i(1,2) by (auto dest: pstep_inv pstep_alive)
  with i lstep_stopped [OF assms(4) _ i(4)] lstep_draining [OF assms(4) _ i(5)] assms(2) show ?thesis by (simp add: minv_def)
qed

lemma run_select_nil: "run_select post kill ev p = Ok (None, p') \<Longrightarrow> (ev = CtxDone \<or> ev = ProxyExited None) \<and> p' = p"
  by (cases ev) (auto simp: go_simps)

lemma minv_step:
  assumes "minv s" and "mstep s a t"
  shows "minv t"
  using assms(2)
proof cases
  case (graceful l l')
  with minv_thread [OF assms(1) graceful(3,6,7)] show ?thesis by (simp add: minv_def)
next
  case (thread l b l')
  with minv_thread [OF assms(1) thread(3,4,5)] show ?thesis by simp
next
  case (envoy l b p)
  then have "proxy_inv p" "proc p \<noteq> NoProcess" using assms(1) by (auto simp: minv_def dest: pstep_inv pstep_alive)
  with envoy assms(1) envoy_phase [OF envoy(5,6)] show ?thesis by (auto simp: minv_def)
next
  case (ends l ev post kill err p)
  have "proc p = Dead \<and> exitedCh p = Closed" if "err = None"
    using run_select_nil [of post kill ev "received ev (proxy (mgr l))" p] that ends assms(1) by (auto simp: minv_def proxy_inv_def)
  with ends show ?thesis by (auto simp: minv_def)
qed (use assms(1) in \<open>auto simp: minv_def\<close>)

interpretation process: invariant_system "mstart env" mstep minv for env
  by unfold_locales (auto intro: minv_start minv_step)

text \<open>One shutdown goroutine can run through, in exactly the grace period; the process of Envoy is only asked.\<close>

lemma shutdown_goroutine_completes:
  assumes "n = length (shutdowns l)" and "int d = max 0 (seconds (shutdownGracePeriodSeconds (mgr l)))"
  shows "\<exists>l1 l'. lstep l LRequest l1 \<and> steps lstep l1 [LDumped n, LDrained n, LTick d, LQuitted n] l' \<and> clock l' = clock l + int d
    \<and> proc (proxy (mgr l')) = proc (proxy (mgr l)) \<and> exitedCh (proxy (mgr l')) = exitedCh (proxy (mgr l))"
proof -
  let ?sd = "\<lambda>pc. shutdowns l @ [(clock l, pc)]" and ?get = "\<lambda>_. Inl (Err [])" and ?post = "\<lambda>_. None"
  let ?p1 = "if dumpEnvoyConfigOnExitEnabled (mgr l) then snd (snd (DumpConfig ?get None (proxy (mgr l)))) else proxy (mgr l)"
  let ?p2 = "if shutdownDrainListenersEnabled (mgr l) then snd (Drain ?post ?p1) else ?p1"
  let ?l1 = "l\<lparr>shutdowns := ?sd SdDump\<rparr>"
  let ?l2 = "l\<lparr>shutdowns := ?sd SdDrain, mgr := (mgr l)\<lparr>proxy := ?p1\<rparr>\<rparr>"
  let ?l3 = "l\<lparr>shutdowns := ?sd SdWait, mgr := (mgr l)\<lparr>proxy := ?p2\<rparr>\<rparr>"
  let ?l4 = "?l3\<lparr>clock := clock l + int d\<rparr>"
  let ?l5 = "?l4\<lparr>shutdowns := ?sd SdDone, mgr := (mgr l)\<lparr>proxy := snd (Quit ?post ?p2)\<rparr>\<rparr>"
  have r: "lstep l LRequest ?l1" by (rule lstep.request)
  have s1: "lstep ?l1 (LDumped n) ?l2"
    using lstep.dumped [of n ?l1 "clock l" ?p1 ?get None] assms(1) by simp
  have s2: "lstep ?l2 (LDrained n) ?l3"
    using lstep.drained [of n ?l2 "clock l" ?p2 ?post] assms(1) by simp
  have s3: "lstep ?l3 (LTick d) ?l4" using lstep.tick [of ?l3 d] by simp
  have s4: "lstep ?l4 (LQuitted n) ?l5"
    using lstep.quitted [of n ?l4 "clock l" ?post] assms by simp
  from s1 s2 s3 s4 have "steps lstep ?l1 [LDumped n, LDrained n, LTick d, LQuitted n] ?l5"
    unfolding steps_Cons_iff steps_Nil_iff by blast
  with r show ?thesis by (intro exI [of _ ?l1] exI [of _ ?l5]) simp
qed

lemma lift_threads:
  "steps lstep l ls l' \<Longrightarrow> m_run s = Selecting \<Longrightarrow> m_threads s = Some l \<Longrightarrow> steps mstep s (map MThread ls) (s\<lparr>m_threads := Some l'\<rparr>)"
proof (induction arbitrary: s rule: steps.induct)
  case (steps_Nil l)
  then have "s\<lparr>m_threads := Some l\<rparr> = s" by (cases s) simp
  then show ?case by simp
next
  case (steps_Cons l a l1 ls l')
  have "mstep s (MThread a) (s\<lparr>m_threads := Some l1\<rparr>)" by (rule mstep.thread) (use steps_Cons in auto)
  moreover have "steps mstep (s\<lparr>m_threads := Some l1\<rparr>) (map MThread ls) (s\<lparr>m_threads := Some l'\<rparr>)"
    using steps_Cons.IH [of "s\<lparr>m_threads := Some l1\<rparr>"] steps_Cons.prems by simp
  ultimately show ?case by (auto intro: steps.steps_Cons)
qed

text \<open>An Envoy that dies ends the run.\<close>

lemma envoy_exit_ends:
  assumes "m_run s = Selecting" and "m_threads s = Some l" and "proc (proxy (mgr l)) = Alive" and "exitedCh (proxy (mgr l)) = Waiting"
  shows "\<exists>s' l'. steps mstep s [MEnvoy LDies, MEnvoy (LReap None), MEnds (ProxyExited None)] s' \<and> m_run s' = Returned None
    \<and> m_threads s' = Some l' \<and> clock l' = clock l"
proof -
  let ?p1 = "(proxy (mgr l))\<lparr>proc := Dead\<rparr>"
  let ?l1 = "with_proxy l ?p1" let ?l2 = "with_proxy ?l1 (reap None ?p1)" let ?l3 = "with_proxy ?l2 ((reap None ?p1)\<lparr>exitedCh := Closed\<rparr>)"
  let ?s1 = "s\<lparr>m_threads := Some ?l1\<rparr>" let ?s2 = "?s1\<lparr>m_threads := Some ?l2\<rparr>"
  let ?s3 = "?s2\<lparr>m_run := Returned None, m_threads := Some ?l3\<rparr>"
  have "mstep s (MEnvoy LDies) ?s1" by (rule mstep.envoy [OF assms(1,2)]) (use assms(3) in \<open>auto intro: pstep.dies\<close>)
  moreover have "mstep ?s1 (MEnvoy (LReap None)) ?s2"
    by (rule mstep.envoy) (use assms in \<open>auto intro: pstep.reap\<close>)
  moreover have "mstep ?s2 (MEnds (ProxyExited None)) ?s3"
    by (rule mstep.ends) (use assms(1) in \<open>auto simp: reap_def\<close>)
  ultimately have "steps mstep s [MEnvoy LDies, MEnvoy (LReap None), MEnds (ProxyExited None)] ?s3"
    unfolding steps_Cons_iff steps_Nil_iff by blast
  then show ?thesis by (intro exI [of _ ?s3] exI [of _ ?l3]) simp
qed

text \<open>
  Once Envoy has been asked to quit, the shutdown goroutines and further signals leave it alone,
  even if asking has failed: unlike the \<open>select\<close> of \<open>Run\<close>, graceful shutdown does not kill it.
\<close>

lemma lstep_stopped_proxy:
  "lstep l a l' \<Longrightarrow> state (proxy (mgr l)) = stateStopped \<Longrightarrow> proxy (mgr l') = proxy (mgr l)"
  by (auto elim!: lstep.cases simp: DumpConfig_def Drain_def Quit_def getState_def)

lemma stopped_proxy_left_alone:
  assumes "steps mstep s ls t" and "m_threads s = Some l" and "state (proxy (mgr l)) = stateStopped" and "m_run s = Selecting"
    and "set ls \<subseteq> {MSignal, MHandle} \<union> range MThread"
  shows "m_run t = Selecting \<and> (\<exists>l'. m_threads t = Some l' \<and> proxy (mgr l') = proxy (mgr l))"
  using assms
proof (induction arbitrary: l rule: steps.induct)
  case (steps_Cons s a s1 ls t)
  have "m_run s1 = Selecting \<and> (\<exists>l'. m_threads s1 = Some l' \<and> proxy (mgr l') = proxy (mgr l))"
    using steps_Cons.hyps(1) steps_Cons.prems by (auto elim!: mstep_cases dest: lstep_stopped_proxy)
  with steps_Cons.IH steps_Cons.prems show ?case by fastforce
qed auto

section \<open>Properties\<close>

lemma world_process: "\<exists>s l. mstart run_world s \<and> m_threads s = Some l"
proof -
  obtain cdp where n: "NewConsulDP (\<lambda>_. 3) run_config = Ok cdp" using run_config_new by blast
  obtain cdp' where r: "snd (Run_start run_world cdp) = Ok cdp'" using world_runs [OF n] by blast
  have m: "cfg_Mode run_config \<noteq> ModeTypeDNSProxy" by (simp add: run_config_def sample_sidecar_def sample_dataplane_def)
  from started_sidecar [OF n r m] obtain lc where "cdp_lifecycleConfig cdp' = Some lc" by blast
  then have "m_threads (started_process 0 cdp') = Some \<lparr>clock = 0, mgr = lc, shutdowns = []\<rparr>" by (simp add: started_process_def threads_of_def)
  moreover have "mstart run_world (started_process 0 cdp')" unfolding mstart_def using n r by blast
  ultimately show ?thesis by blast
qed



end
