(* ===== verification/Startup_Signals.thy ===== *)
theory Startup_Signals
  imports Process_Signals
begin

text \<open>
  The process from its very beginning: the goroutine of \<open>main.go\<close> that waits for a signal is
  started before \<open>Run\<close>, so a signal can come between any two stages of the start-up. The stages are those of
  \<open>Dataplane_Run\<close>, taken one at a time; without signals they do what \<open>Run_start\<close> does. At the final
  \<open>select\<close> the process goes on as in \<open>Process_Signals\<close>.
\<close>

section \<open>The stages one at a time\<close>

text \<open>
  Where \<open>Run\<close> is in its start-up, with its local variables. Creating the lifecycle manager and starting
  it are two stages: the signal goroutine looks at the field that the first one sets, and a
  manager that has not been started has no logger.
\<close>

datatype 'config start_pc =
    AtConnect | AtDnsProxy | AtXds
  | AtParams xdsServer
  | AtDns xdsServer "'config bootstrap_params"
  | AtBootstrap xdsServer "'config bootstrap_params"
  | AtEnvoy BootstrapConfig string
  | AtMetrics BootstrapConfig
  | AtManager
  | AtStartManager
  | AtSelect
  | Failed go_error
  | Crashed string

fun starting :: "'config start_pc \<Rightarrow> bool" where
  "starting AtSelect = False"
| "starting (Failed e) = False"
| "starting (Crashed m) = False"
| "starting _ = True"

fun advance :: "'config run_env \<Rightarrow> 'config start_pc \<Rightarrow> ConsulDataplane \<Rightarrow> ('config start_pc \<times> ConsulDataplane) outcome" where
  "advance env AtConnect cdp =
     bind_outcome (connect env (cdp_cfg cdp)) (\<lambda>(conn, tok).
       Ok (if cfg_Mode (cdp_cfg cdp) = ModeTypeDNSProxy then AtDnsProxy else AtXds, cdp\<lparr>cdp_serverConn := Some conn, cdp_aclToken := tok\<rparr>))"
| "advance env AtDnsProxy cdp =
     bind_outcome (bind_outcome (deref (cfg_Proxy (cdp_cfg cdp))) (\<lambda>p.
         startDNSProxy (re_listenUDP env) (re_listenTCP env) (cdp_aclToken cdp) (cfg_DNSServer (cdp_cfg cdp)) (pd_Namespace p) (pd_Partition p))) (\<lambda>d.
       Ok (AtSelect, cdp\<lparr>cdp_dns := d\<rparr>))"
| "advance env AtXds cdp =
     bind_outcome (setupXDSServer (re_listen env) (cdp_cfg cdp)) (\<lambda>srv. Ok (AtParams srv, cdp\<lparr>cdp_xdsServer := Some srv\<rparr>))"
| "advance env (AtParams srv) cdp =
     bind_outcome (wrap_outcome ''failed to get bootstrap params'' (getBootstrapParams (re_client env) (cdp_cfg cdp))) (\<lambda>params. Ok (AtDns srv params, cdp))"
| "advance env (AtDns srv params) cdp =
     bind_outcome (startDNSProxy (re_listenUDP env) (re_listenTCP env) (cdp_aclToken cdp) (cfg_DNSServer (cdp_cfg cdp))
         (bp_Namespace params) (bp_Partition params)) (\<lambda>d. Ok (AtBootstrap srv params, cdp\<lparr>cdp_dns := d\<rparr>))"
| "advance env (AtBootstrap srv params) cdp =
     bind_outcome (wrap_outcome ''failed to get bootstrap config''
         (bootstrapConfig (re_lib env) (re_isDir env) (re_weakDecode env) (cdp_cfg cdp) srv params)) (\<lambda>(bcfg, json). Ok (AtEnvoy bcfg json, cdp))"
| "advance env (AtEnvoy bcfg json) cdp =
     bind_outcome (start_envoy env json cdp) (\<lambda>p. Ok (AtMetrics bcfg, cdp\<lparr>cdp_proxy := Some p\<rparr>))"
| "advance env (AtMetrics bcfg) cdp =
     bind_outcome (bind_outcome (NewMetricsConfig (cdp_cfg cdp) (Some NewSink)) (startMetrics (re_lib env) (re_sinks env) bcfg)) (\<lambda>m.
       Ok (AtManager, cdp\<lparr>cdp_metricsConfig := Some m\<rparr>))"
| "advance env AtManager cdp =
     bind_outcome (deref (cdp_proxy cdp)) (\<lambda>p.
     bind_outcome (NewLifecycleConfig (cdp_cfg cdp) p) (\<lambda>lc. Ok (AtStartManager, cdp\<lparr>cdp_lifecycleConfig := Some lc\<rparr>)))"
| "advance env AtStartManager cdp =
     bind_outcome (deref (cdp_lifecycleConfig cdp)) (\<lambda>lc.
     bind_outcome (startLifecycleManager lc) (\<lambda>lc'. Ok (AtSelect, cdp\<lparr>cdp_lifecycleConfig := Some lc'\<rparr>)))"
| "advance env pc cdp = Ok (pc, cdp)"

text \<open>All stages one after the other, at most \<open>n\<close> of them.\<close>

fun drive :: "'config run_env \<Rightarrow> nat \<Rightarrow> 'config start_pc \<Rightarrow> ConsulDataplane \<Rightarrow> ('config start_pc \<times> ConsulDataplane) outcome" where
  "drive env 0 pc cdp = Ok (pc, cdp)"
| "drive env (Suc n) pc cdp =
     (if starting pc then bind_outcome (advance env pc cdp) (\<lambda>(pc', cdp'). drive env n pc' cdp') else Ok (pc, cdp))"

section \<open>The start-up with signals\<close>

record 'config ssys =
  s_pc :: "'config start_pc"
  s_cdp :: ConsulDataplane
  s_pending :: bool
  s_handled :: bool
  s_cancelled :: bool

datatype slabel = SStage | SSignal | SHandle | SEnvoy plabel

text \<open>
  The environment of a stage: its answers may depend on whether the context has been cancelled. A command made
  with a cancelled context does not start.
\<close>

definition ctx_env :: "(bool \<Rightarrow> 'config run_env) \<Rightarrow> bool \<Rightarrow> 'config run_env" where
  "ctx_env envs b = (if b then (envs True)\<lparr>re_start := \<lambda>_. Some (Err ''context canceled'')\<rparr> else envs False)"

text \<open>Envoy is reached through the dataplane and through the lifecycle manager; it is the same one.\<close>

definition set_proxy :: "Proxy \<Rightarrow> ConsulDataplane \<Rightarrow> ConsulDataplane" where
  "set_proxy p cdp = cdp\<lparr>cdp_proxy := Some p, cdp_lifecycleConfig := map_option (\<lambda>lc. lc\<lparr>proxy := p\<rparr>) (cdp_lifecycleConfig cdp)\<rparr>"

text \<open>
  \<open>GracefulShutdown\<close> in the signal goroutine: without a lifecycle manager it cancels the context; with one that has not been
  started, the first call of the manager's logger panics. Envoy may die at any time; that it is killed when the context of its command is
  cancelled is one such death, which nothing waits for.
\<close>

inductive sstep :: "(bool \<Rightarrow> 'config run_env) \<Rightarrow> 'config ssys \<Rightarrow> slabel \<Rightarrow> 'config ssys \<Rightarrow> bool" for envs where
  stage: "starting (s_pc s) \<Longrightarrow> advance (ctx_env envs (s_cancelled s)) (s_pc s) (s_cdp s) = Ok (pc, cdp) \<Longrightarrow>
     sstep envs s SStage (s\<lparr>s_pc := pc, s_cdp := cdp\<rparr>)"
| fail: "starting (s_pc s) \<Longrightarrow> advance (ctx_env envs (s_cancelled s)) (s_pc s) (s_cdp s) = Error e \<Longrightarrow>
     sstep envs s SStage (s\<lparr>s_pc := Failed e\<rparr>)"
| panic: "starting (s_pc s) \<Longrightarrow> advance (ctx_env envs (s_cancelled s)) (s_pc s) (s_cdp s) \<in> {Panic m, Fatal m} \<Longrightarrow>
     sstep envs s SStage (s\<lparr>s_pc := Crashed m\<rparr>)"
| signal: "starting (s_pc s) \<Longrightarrow> sstep envs s SSignal (s\<lparr>s_pending := True\<rparr>)"
| cancel: "starting (s_pc s) \<Longrightarrow> s_pending s \<Longrightarrow> \<not> s_handled s \<Longrightarrow> cdp_lifecycleConfig (s_cdp s) = None \<Longrightarrow>
     sstep envs s SHandle (s\<lparr>s_pending := False, s_handled := True, s_cancelled := True\<rparr>)"
| early: "starting (s_pc s) \<Longrightarrow> s_pending s \<Longrightarrow> \<not> s_handled s \<Longrightarrow> cdp_lifecycleConfig (s_cdp s) = Some lc \<Longrightarrow> \<not> lifecycleConfig.running lc \<Longrightarrow>
     sstep envs s SHandle (s\<lparr>s_pc := Crashed ''nil pointer dereference'', s_pending := False, s_handled := True\<rparr>)"
| envoy: "starting (s_pc s) \<Longrightarrow> cdp_proxy (s_cdp s) = Some p \<Longrightarrow> pstep p b p' \<Longrightarrow> b \<in> {LDies} \<union> range LReap \<Longrightarrow>
     sstep envs s (SEnvoy b) (s\<lparr>s_cdp := set_proxy p' (s_cdp s)\<rparr>)"

inductive_cases sstep_cases: "sstep envs s a t"

definition boot :: "ConsulDataplane \<Rightarrow> 'config ssys" where
  "boot cdp = \<lparr>s_pc = AtConnect, s_cdp = cdp, s_pending = False, s_handled = False, s_cancelled = False\<rparr>"

section \<open>The whole process\<close>

datatype 'config whole = Booting "'config ssys" | Live msys

datatype wlabel = WBoot slabel | WEnter int | WLive mlabel

definition enter :: "int \<Rightarrow> 'config ssys \<Rightarrow> msys" where
  "enter now s =
     \<lparr>m_threads = threads_of now (s_cdp s), m_pending = s_pending s, m_handled = s_handled s, m_cancelled = s_cancelled s, m_run = Selecting\<rparr>"

inductive wstep :: "(bool \<Rightarrow> 'config run_env) \<Rightarrow> 'config whole \<Rightarrow> wlabel \<Rightarrow> 'config whole \<Rightarrow> bool" for envs where
  booting: "sstep envs s a t \<Longrightarrow> wstep envs (Booting s) (WBoot a) (Booting t)"
| entering: "s_pc s = AtSelect \<Longrightarrow> wstep envs (Booting s) (WEnter now) (Live (enter now s))"
| living: "mstep s a t \<Longrightarrow> wstep envs (Live s) (WLive a) (Live t)"

inductive_cases wstep_cases: "wstep envs w a w'"

definition wstart :: "'config whole \<Rightarrow> bool" where
  "wstart w \<longleftrightarrow> (\<exists>levelOf c cdp. NewConsulDP levelOf c = Ok cdp \<and> w = Booting (boot cdp))"

text \<open>The exit status of the process once it has ended; a stage of the start-up never exits by itself.\<close>

definition boot_status :: "'config ssys \<Rightarrow> int option" where
  "boot_status s = (case s_pc s of Failed e \<Rightarrow> Some (main_exit (Some e)) | Crashed m \<Rightarrow> Some 2 | _ \<Rightarrow> None)"

definition live_status :: "msys \<Rightarrow> int option" where
  "live_status s = (case m_run s of Selecting \<Rightarrow> None | Returned err \<Rightarrow> Some (main_exit err))"

lemma live_status_simps [simp]:
  "m_run s = Selecting \<Longrightarrow> live_status s = None" "m_run s = Returned err \<Longrightarrow> live_status s = Some (if err = None then 0 else 1)"
  by (simp_all add: live_status_def main_exit_def)

lemma live_status_zero: "live_status s = Some 0 \<longleftrightarrow> m_run s = Returned None"
  by (auto simp: live_status_def main_exit_def split: run_pc.split)

section \<open>The stages make up the start-up\<close>

lemma snd_stage_then: "snd (stage_then r st k) = bind_outcome r (\<lambda>a. snd (k a))"
  by (cases r) (auto simp: stage_then_def split: prod.split)

lemma bind_outcome_assoc: "bind_outcome (bind_outcome m f) g = bind_outcome m (\<lambda>a. bind_outcome (f a) g)"
  by (cases m) auto

lemma bind_outcome_cong: "(\<And>a. m = Ok a \<Longrightarrow> f a = g a) \<Longrightarrow> bind_outcome m f = bind_outcome m g"
  by (cases m) auto

definition map_outcome :: "('a \<Rightarrow> 'b) \<Rightarrow> 'a outcome \<Rightarrow> 'b outcome" where
  "map_outcome f m = bind_outcome m (\<lambda>a. Ok (f a))"

lemma drive_dns: "drive env 1 AtDnsProxy cdp = map_outcome (Pair AtSelect) (snd (run_dns_proxy env cdp))"
  by (simp add: run_dns_proxy_def snd_stage_then map_outcome_def bind_outcome_assoc)

lemma start_envoy_frame [simp]:
  "start_envoy env json (cdp\<lparr>cdp_xdsServer := x\<rparr>) = start_envoy env json cdp"
  "start_envoy env json (cdp\<lparr>cdp_dns := d\<rparr>) = start_envoy env json cdp"
  by (simp_all add: start_envoy_def envoyProxyConfig_def)

lemma drive_sidecar: "drive env (Suc 8) AtXds cdp = map_outcome (Pair AtSelect) (snd (run_sidecar env NewSink cdp))"
  by (simp add: run_sidecar_def snd_stage_then map_outcome_def bind_outcome_assoc case_prod_beta numeral_eq_Suc)

text \<open>Driving the stages without a signal is the start-up; it takes at most nine of them.\<close>

lemma drive_Run_start: "drive env 10 AtConnect cdp = map_outcome (Pair AtSelect) (snd (Run_start env cdp))"
proof -
  have done_dns: "drive env 9 AtDnsProxy cdp' = map_outcome (Pair AtSelect) (snd (run_dns_proxy env cdp'))" for cdp'
    by (simp add: run_dns_proxy_def snd_stage_then map_outcome_def bind_outcome_assoc numeral_eq_Suc)
  have done_sidecar: "drive env 9 AtXds cdp' = map_outcome (Pair AtSelect) (snd (run_sidecar env NewSink cdp'))" for cdp'
    using drive_sidecar [of env cdp'] by (simp del: drive.simps)
  have ten: "drive env 10 AtConnect cdp = bind_outcome (advance env AtConnect cdp) (\<lambda>(pc, c). drive env 9 pc c)"
    using drive.simps(2) [of env 9 AtConnect cdp] by (simp del: drive.simps advance.simps)
  show ?thesis
    unfolding ten by (auto simp: Run_start_def snd_stage_then map_outcome_def bind_outcome_assoc case_prod_beta Let_def done_dns [unfolded map_outcome_def]
      done_sidecar [unfolded map_outcome_def] intro!: bind_outcome_cong simp del: drive.simps)
qed


text \<open>A run of stages only, and where it ends.\<close>

definition ends_as :: "'config ssys \<Rightarrow> ('config start_pc \<times> ConsulDataplane) outcome \<Rightarrow> 'config ssys \<Rightarrow> bool" where
  "ends_as s r t \<longleftrightarrow>
     (case r of
        Ok (pc, cdp) \<Rightarrow> t = s\<lparr>s_pc := pc, s_cdp := cdp\<rparr>
      | Error e \<Rightarrow> s_pc t = Failed e
      | Panic m \<Rightarrow> s_pc t = Crashed m
      | Fatal m \<Rightarrow> s_pc t = Crashed m)"

lemma drive_steps:
  "\<not> s_cancelled s \<Longrightarrow> \<exists>k t. steps (sstep envs) s (replicate k SStage) t \<and> ends_as s (drive (envs False) n (s_pc s) (s_cdp s)) t"
proof (induction n arbitrary: s)
  case 0
  then show ?case by (intro exI [of _ 0] exI [of _ s]) (simp add: ends_as_def)
next
  case (Suc n)
  have env: "ctx_env envs (s_cancelled s) = envs False" using Suc.prems by (simp add: ctx_env_def)
  show ?case
  proof (cases "starting (s_pc s)")
    case False
    then show ?thesis by (intro exI [of _ 0] exI [of _ s]) (simp add: ends_as_def)
  next
    case True
    show ?thesis
    proof (cases "advance (envs False) (s_pc s) (s_cdp s)")
      case (Ok x)
      obtain pc cdp where x: "x = (pc, cdp)" by fastforce
      let ?s = "s\<lparr>s_pc := pc, s_cdp := cdp\<rparr>"
      have "sstep envs s SStage ?s" using sstep.stage [of s envs pc cdp] True Ok x env by simp
      moreover obtain k t where "steps (sstep envs) ?s (replicate k SStage) t" "ends_as ?s (drive (envs False) n pc cdp) t"
        using Suc.IH [of ?s] Suc.prems by auto
      ultimately have "steps (sstep envs) s (replicate (Suc k) SStage) t" by (auto intro: steps_Cons)
      moreover have "ends_as s (drive (envs False) (Suc n) (s_pc s) (s_cdp s)) t"
        using True Ok x \<open>ends_as ?s (drive (envs False) n pc cdp) t\<close> by (simp add: ends_as_def split: outcome.splits prod.splits)
      ultimately show ?thesis by blast
    next
      case (Error e)
      have "sstep envs s SStage (s\<lparr>s_pc := Failed e\<rparr>)" using sstep.fail [of s envs e] True Error env by simp
      then show ?thesis
        by (intro exI [of _ 1] exI [of _ "s\<lparr>s_pc := Failed e\<rparr>"]) (use True Error in \<open>simp add: steps_Cons_iff ends_as_def\<close>)
    next
      case (Panic m)
      have "sstep envs s SStage (s\<lparr>s_pc := Crashed m\<rparr>)" using sstep.panic [of s envs m] True Panic env by simp
      then show ?thesis
        by (intro exI [of _ 1] exI [of _ "s\<lparr>s_pc := Crashed m\<rparr>"]) (use True Panic in \<open>simp add: steps_Cons_iff ends_as_def\<close>)
    next
      case (Fatal m)
      have "sstep envs s SStage (s\<lparr>s_pc := Crashed m\<rparr>)" using sstep.panic [of s envs m] True Fatal env by simp
      then show ?thesis
        by (intro exI [of _ 1] exI [of _ "s\<lparr>s_pc := Crashed m\<rparr>"]) (use True Fatal in \<open>simp add: steps_Cons_iff ends_as_def\<close>)
    qed
  qed
qed

lemma stage_deterministic: "sstep envs s SStage t \<Longrightarrow> sstep envs s SStage u \<Longrightarrow> t = u"
  by (auto elim!: sstep_cases)

lemma stage_starting: "sstep envs s a t \<Longrightarrow> starting (s_pc s)"
  by (auto elim!: sstep_cases)

lemma stages_deterministic:
  "steps (sstep envs) s (replicate j SStage) t \<Longrightarrow> steps (sstep envs) s (replicate k SStage) u \<Longrightarrow>
   \<not> starting (s_pc t) \<Longrightarrow> \<not> starting (s_pc u) \<Longrightarrow> t = u"
proof (induction j arbitrary: s k)
  case 0
  then show ?case by (cases k) (auto simp: steps_Cons_iff dest: stage_starting)
next
  case (Suc j)
  obtain s1 where s1: "sstep envs s SStage s1" "steps (sstep envs) s1 (replicate j SStage) t" using Suc.prems(1) by (auto simp: steps_Cons_iff)
  show ?case
  proof (cases k)
    case 0
    with Suc.prems s1 show ?thesis by (auto dest: stage_starting)
  next
    case (Suc k')
    then obtain s2 where "sstep envs s SStage s2" "steps (sstep envs) s2 (replicate k' SStage) u" using Suc.prems(2) by (auto simp: steps_Cons_iff)
    with s1 Suc.IH Suc.prems(3,4) show ?thesis by (metis stage_deterministic)
  qed
qed

lemma startup_end:
  assumes "steps (sstep envs) (boot cdp) (replicate n SStage) t" and "\<not> starting (s_pc t)"
  shows "ends_as (boot cdp) (map_outcome (Pair AtSelect) (snd (Run_start (envs False) cdp))) t"
proof -
  obtain k u where u: "steps (sstep envs) (boot cdp) (replicate k SStage) u"
    "ends_as (boot cdp) (map_outcome (Pair AtSelect) (snd (Run_start (envs False) cdp))) u"
    using drive_steps [of "boot cdp" envs 10] by (auto simp: boot_def drive_Run_start)
  have "\<not> starting (s_pc u)" using u(2) by (auto simp: ends_as_def map_outcome_def go_simps split: outcome.split_asm prod.split_asm)
  with stages_deterministic [OF assms(1) u(1) assms(2)] u(2) show ?thesis by simp
qed

section \<open>The state during the start-up\<close>

text \<open>An Envoy that has been started and not been told anything.\<close>

definition untouched :: "Proxy \<Rightarrow> bool" where
  "untouched p \<longleftrightarrow> proxy_inv p \<and> proc p \<noteq> NoProcess \<and> (state p = stateRunning \<or> state p = stateExited)"

definition has_envoy :: "ConsulDataplane \<Rightarrow> bool" where
  "has_envoy cdp \<longleftrightarrow> (\<exists>p. cdp_proxy cdp = Some p \<and> untouched p \<and> (\<forall>lc. cdp_lifecycleConfig cdp = Some lc \<longrightarrow> proxy lc = p))"

fun pc_inv :: "'config start_pc \<Rightarrow> ConsulDataplane \<Rightarrow> bool" where
  "pc_inv (AtMetrics b) cdp \<longleftrightarrow> has_envoy cdp \<and> cdp_lifecycleConfig cdp = None"
| "pc_inv AtManager cdp \<longleftrightarrow> has_envoy cdp \<and> cdp_lifecycleConfig cdp = None"
| "pc_inv AtStartManager cdp \<longleftrightarrow> has_envoy cdp \<and> (\<exists>lc. cdp_lifecycleConfig cdp = Some lc \<and> \<not> lifecycleConfig.running lc)"
| "pc_inv AtSelect cdp \<longleftrightarrow> has_envoy cdp \<and> cdp_lifecycleConfig cdp \<noteq> None
     \<or> cfg_Mode (cdp_cfg cdp) = ModeTypeDNSProxy \<and> cdp_proxy cdp = None \<and> cdp_lifecycleConfig cdp = None"
| "pc_inv (Failed e) cdp \<longleftrightarrow> True"
| "pc_inv (Crashed m) cdp \<longleftrightarrow> True"
| "pc_inv AtDnsProxy cdp \<longleftrightarrow> cfg_Mode (cdp_cfg cdp) = ModeTypeDNSProxy \<and> cdp_proxy cdp = None \<and> cdp_lifecycleConfig cdp = None"
| "pc_inv pc cdp \<longleftrightarrow> cdp_proxy cdp = None \<and> cdp_lifecycleConfig cdp = None"

lemma start_envoy_untouched: "start_envoy env json cdp = Ok p \<Longrightarrow> untouched p"
  using start_envoy_running [of env json cdp p] by (auto simp: untouched_def proxy_inv_def)

lemma NewLifecycleConfig_fresh: "NewLifecycleConfig c p = Ok lc \<Longrightarrow> proxy lc = p \<and> \<not> lifecycleConfig.running lc"
  by (auto simp: NewLifecycleConfig_def go_simps)

lemma startLifecycleManager_proxy: "startLifecycleManager lc = Ok lc' \<Longrightarrow> proxy lc' = proxy lc"
  by (auto simp: startLifecycleManager_def shutdownPath_def startupPath_def go_simps Let_def split: if_split_asm prod.split_asm)

lemma advance_pc_inv:
  "advance env pc cdp = Ok (pc', cdp') \<Longrightarrow> starting pc \<Longrightarrow> pc_inv pc cdp \<Longrightarrow> pc_inv pc' cdp'"
  by (induction env pc cdp rule: advance.induct)
    (auto simp: go_simps has_envoy_def dest: start_envoy_untouched NewLifecycleConfig_fresh startLifecycleManager_proxy split: prod.split_asm)

lemma set_proxy_has_envoy: "untouched p \<Longrightarrow> has_envoy (set_proxy p cdp)"
  by (auto simp: has_envoy_def set_proxy_def)

lemma set_proxy_lifecycle [simp]: "cdp_lifecycleConfig (set_proxy p cdp) = map_option (\<lambda>lc. lc\<lparr>proxy := p\<rparr>) (cdp_lifecycleConfig cdp)"
  by (simp add: set_proxy_def)

lemma envoy_untouched:
  "pstep p b p' \<Longrightarrow> b \<in> {LDies} \<union> range LReap \<Longrightarrow> untouched p \<Longrightarrow> untouched p'"
  using pstep_inv [of p b p'] pstep_alive [of p b p'] envoy_phase [of p b p'] by (auto simp: untouched_def)

lemma envoy_pc_inv:
  assumes "pc_inv pc cdp" and "cdp_proxy cdp = Some p" and "starting pc" and "pstep p b p'" and "b \<in> {LDies} \<union> range LReap"
  shows "pc_inv pc (set_proxy p' cdp)"
proof -
  have "has_envoy cdp" using assms(1-3) by (cases pc) auto
  then have "untouched p'" using assms(2) envoy_untouched [OF assms(4,5)] by (auto simp: has_envoy_def)
  with assms(1-3) show ?thesis by (cases pc) (auto simp: set_proxy_has_envoy)
qed

definition sinv :: "'config ssys \<Rightarrow> bool" where
  "sinv s \<longleftrightarrow> pc_inv (s_pc s) (s_cdp s)"

lemma sinv_boot: "NewConsulDP levelOf c = Ok cdp \<Longrightarrow> sinv (boot cdp)"
  using NewConsulDP_fresh [of levelOf c cdp] by (simp add: sinv_def boot_def)

lemma sinv_step:
  assumes "sinv s" and "sstep envs s a t"
  shows "sinv t"
  using assms(2)
proof cases
  case (envoy p b p')
  with envoy_pc_inv [OF _ envoy(4,3,5,6)] assms(1) show ?thesis by (simp add: sinv_def)
qed (use assms(1) in \<open>auto simp: sinv_def dest: advance_pc_inv\<close>)

interpretation startup: invariant_system "\<lambda>s. \<exists>levelOf c cdp. NewConsulDP levelOf c = Ok cdp \<and> s = boot cdp" "sstep envs" sinv for envs
  by unfold_locales (auto intro: sinv_boot sinv_step)

section \<open>Signals before and after Envoy has been started\<close>

text \<open>With a cancelled context no Envoy is started.\<close>

lemma cancelled_envoy_fails: "start_envoy (ctx_env envs True) json cdp \<noteq> Ok p"
  by (auto simp: start_envoy_def ctx_env_def Envoy_Proxy.Run_def go_simps Let_def split: option.split_asm prod.split_asm bool.split_asm)

lemma cancelled_advance:
  "advance (ctx_env envs True) pc cdp = Ok (pc', cdp') \<Longrightarrow> starting pc \<Longrightarrow> pc_inv pc cdp \<Longrightarrow> cdp_proxy cdp = None \<Longrightarrow>
   cdp_proxy cdp' = None \<and> cfg_Mode (cdp_cfg cdp') = cfg_Mode (cdp_cfg cdp)"
  by (cases pc) (auto simp: go_simps cancelled_envoy_fails has_envoy_def split: prod.split_asm)

lemma cancelled_stays:
  assumes "sstep envs s a t" and "sinv s" and "s_cancelled s" and "cdp_proxy (s_cdp s) = None"
  shows "s_cancelled t \<and> cdp_proxy (s_cdp t) = None \<and> cfg_Mode (cdp_cfg (s_cdp t)) = cfg_Mode (cdp_cfg (s_cdp s))"
  using assms cancelled_advance [of envs "s_pc s" "s_cdp s"] by (auto simp: sinv_def elim!: sstep_cases)

lemma cancelled_run:
  "steps (sstep envs) s ls t \<Longrightarrow> sinv s \<Longrightarrow> s_cancelled s \<Longrightarrow> cdp_proxy (s_cdp s) = None \<Longrightarrow>
   sinv t \<and> cdp_proxy (s_cdp t) = None \<and> cfg_Mode (cdp_cfg (s_cdp t)) = cfg_Mode (cdp_cfg (s_cdp s))"
proof (induction rule: steps.induct)
  case (steps_Cons s a t as u)
  with cancelled_stays [OF steps_Cons.hyps(1)] sinv_step [OF _ steps_Cons.hyps(1)] show ?case by simp
qed simp

text \<open>A start-up in which no signal is handled, and the process after it.\<close>

definition quiet :: "'config whole \<Rightarrow> bool" where
  "quiet w \<longleftrightarrow> (case w of Booting s \<Rightarrow> sinv s \<and> \<not> s_cancelled s \<and> \<not> s_handled s | Live m \<Rightarrow> minv m)"

definition quiet_step :: "(bool \<Rightarrow> 'config run_env) \<Rightarrow> 'config whole \<Rightarrow> wlabel \<Rightarrow> 'config whole \<Rightarrow> bool" where
  "quiet_step envs w a w' \<longleftrightarrow> wstep envs w a w' \<and> a \<noteq> WBoot SHandle"

lemma minv_enter:
  assumes "sinv s" and "s_pc s = AtSelect" and "\<not> s_cancelled s"
  shows "minv (enter now s)"
  using assms by (auto simp: sinv_def minv_def enter_def threads_of_def has_envoy_def untouched_def)

lemma quiet_preserved:
  assumes "quiet w" and "quiet_step envs w a w'"
  shows "quiet w'"
proof -
  have w: "wstep envs w a w'" "a \<noteq> WBoot SHandle" using assms(2) by (auto simp: quiet_step_def)
  from w(1) show ?thesis
  proof cases
    case (booting s b t)
    have "s_cancelled t = s_cancelled s" "s_handled t = s_handled s" using booting w(2) by (auto elim!: sstep_cases)
    with booting assms(1) show ?thesis by (auto simp: quiet_def intro: sinv_step)
  next
    case (entering s now)
    with assms(1) show ?thesis by (simp add: quiet_def minv_enter)
  next
    case (living s b t)
    with assms(1) show ?thesis by (auto simp: quiet_def intro: minv_step)
  qed
qed

interpretation quiet_process: invariant_system wstart "quiet_step envs" quiet for envs
proof
  show "wstart w \<Longrightarrow> quiet w" for w :: "'config whole"
    by (auto simp: wstart_def quiet_def sinv_boot) (simp_all add: boot_def)
qed (rule quiet_preserved)

lemma steps_quiet: "steps (wstep envs) w ls w' \<Longrightarrow> WBoot SHandle \<notin> set ls \<Longrightarrow> steps (quiet_step envs) w ls w'"
  by (induction rule: steps.induct) (auto simp: quiet_step_def intro: steps.intros)

text \<open>The last two stages of a successful start-up.\<close>

lemma stages_keep_flags:
  "steps (sstep envs) s (replicate k SStage) t \<Longrightarrow> s_pending t = s_pending s \<and> s_handled t = s_handled s \<and> s_cancelled t = s_cancelled s"
proof (induction k arbitrary: s)
  case (Suc k)
  then obtain u where "sstep envs s SStage u" "steps (sstep envs) u (replicate k SStage) t" by (auto simp: steps_Cons_iff)
  moreover from this(1) have "s_pending u = s_pending s \<and> s_handled u = s_handled s \<and> s_cancelled u = s_cancelled s" by (auto elim!: sstep_cases)
  ultimately show ?case using Suc.IH [of u] by simp
qed simp

lemma last_stage:
  "steps step s (replicate k a) t \<Longrightarrow> s \<noteq> t \<Longrightarrow> \<exists>j u. steps step s (replicate j a) u \<and> step u a t"
proof (cases k)
  case (Suc j)
  assume "steps step s (replicate k a) t"
  then have "steps step s (replicate j a @ [a]) t" using Suc by (simp add: replicate_append_same)
  then show ?thesis by (auto simp: steps_append_iff steps_Cons_iff)
qed auto

lemma stage_inverse:
  "sstep envs s SStage t \<Longrightarrow> \<forall>e. s_pc t \<noteq> Failed e \<Longrightarrow> \<forall>m. s_pc t \<noteq> Crashed m \<Longrightarrow>
   starting (s_pc s) \<and> advance (ctx_env envs (s_cancelled s)) (s_pc s) (s_cdp s) = Ok (s_pc t, s_cdp t)"
  by (auto elim!: sstep_cases)

lemma advance_to_select:
  "advance env pc cdp = Ok (AtSelect, cdp') \<Longrightarrow> starting pc \<Longrightarrow> pc = AtDnsProxy \<or> pc = AtStartManager"
  by (cases pc) (auto simp: go_simps split: prod.split_asm if_split_asm)

lemma advance_to_start_manager: "advance env pc cdp = Ok (AtStartManager, cdp') \<Longrightarrow> starting pc \<Longrightarrow> pc = AtManager"
  by (cases pc) (auto simp: go_simps split: prod.split_asm if_split_asm)

lemma manager_stages_env: "advance env AtManager cdp = advance env' AtManager cdp" "advance env AtStartManager cdp = advance env' AtStartManager cdp"
  by simp_all

lemma last_stages:
  fixes envs :: "bool \<Rightarrow> 'config run_env"
  assumes "NewConsulDP levelOf c = Ok cdp" and "snd (Run_start (envs False) cdp) = Ok cdp'" and "cfg_Mode c \<noteq> ModeTypeDNSProxy"
  shows "\<exists>j v cdp1. steps (sstep envs) (boot cdp) (replicate j SStage) v \<and> sinv v \<and> s_pc v = AtManager
    \<and> \<not> s_pending v \<and> \<not> s_handled v \<and> \<not> s_cancelled v
    \<and> (\<forall>env :: 'config run_env. advance env AtManager (s_cdp v) = Ok (AtStartManager, cdp1) \<and> advance env AtStartManager cdp1 = Ok (AtSelect, cdp'))"
proof -
  let ?t = "(boot cdp)\<lparr>s_pc := AtSelect, s_cdp := cdp'\<rparr>"
  have mgr: "cdp_lifecycleConfig cdp' \<noteq> None" using started_sidecar [OF assms] by auto
  have flags: "\<not> s_cancelled (boot cdp)" "\<not> s_pending (boot cdp)" "\<not> s_handled (boot cdp)" by (simp_all add: boot_def)
  obtain k where k: "steps (sstep envs) (boot cdp) (replicate k SStage) ?t"
    using drive_steps [OF flags(1), of envs 10] assms(2) by (auto simp: boot_def drive_Run_start map_outcome_def ends_as_def)
  obtain j u where u: "steps (sstep envs) (boot cdp) (replicate j SStage) u" "sstep envs u SStage ?t"
    using last_stage [OF k] by (auto simp: boot_def)
  have iu: "sinv u" by (rule startup.steps_inv [OF u(1) sinv_boot [OF assms(1)]])
  have cu: "\<not> s_cancelled u" using stages_keep_flags [OF u(1)] flags by simp
  have au: "advance (envs False) (s_pc u) (s_cdp u) = Ok (AtSelect, cdp')" "starting (s_pc u)"
    using cu stage_inverse [OF u(2)] by (simp_all add: ctx_env_def)
  have pu: "s_pc u = AtStartManager"
    using advance_to_select [OF au] advance_pc_inv [OF au] iu mgr au(1) by (auto simp: sinv_def go_simps)
  then have "boot cdp \<noteq> u" by (auto simp: boot_def)
  then obtain i v where v: "steps (sstep envs) (boot cdp) (replicate i SStage) v" "sstep envs v SStage u" using last_stage [OF u(1)] by blast
  have cv: "\<not> s_cancelled v" "\<not> s_pending v" "\<not> s_handled v" using stages_keep_flags [OF v(1)] flags by simp_all
  have av: "advance (envs False) (s_pc v) (s_cdp v) = Ok (AtStartManager, s_cdp u)" "starting (s_pc v)"
    using cv pu stage_inverse [OF v(2)] by (simp_all add: ctx_env_def)
  have pv: "s_pc v = AtManager" by (rule advance_to_start_manager [OF av])
  have "sinv v" by (rule startup.steps_inv [OF v(1) sinv_boot [OF assms(1)]])
  moreover have "advance env AtManager (s_cdp v) = Ok (AtStartManager, s_cdp u) \<and> advance env AtStartManager (s_cdp u) = Ok (AtSelect, cdp')" for env :: "'config run_env"
    using manager_stages_env [of env "s_cdp v" "envs False"] manager_stages_env [of env "s_cdp u" "envs False"] av(1) au(1) pv pu
    by (simp del: advance.simps)
  ultimately show ?thesis using v(1) pv cv by blast
qed

lemma lift_boot: "steps (sstep envs) s ls t \<Longrightarrow> steps (wstep envs) (Booting s) (map WBoot ls) (Booting t)"
  by (induction rule: steps.induct) (auto intro: steps.intros wstep.booting)

section \<open>The life of Envoy in the whole process\<close>

fun whole_life :: "'config whole \<Rightarrow> life" where
  "whole_life (Booting s) = (case cdp_proxy (s_cdp s) of None \<Rightarrow> Unborn | Some p \<Rightarrow> life_of p)"
| "whole_life (Live m) = (case m_threads m of None \<Rightarrow> Unborn | Some l \<Rightarrow> life_of (proxy (mgr l)))"

text \<open>The events of that life that a step of the process may show.\<close>

fun shows_whole :: "wlabel \<Rightarrow> life_event list \<Rightarrow> bool" where
  "shows_whole (WBoot SStage) bs \<longleftrightarrow> bs = [] \<or> bs = [Born]"
| "shows_whole (WBoot (SEnvoy b)) bs \<longleftrightarrow> shows_life b bs"
| "shows_whole (WLive (MEnvoy b)) bs \<longleftrightarrow> shows_life b bs"
| "shows_whole (WLive (MEnds (ProxyExited e))) bs \<longleftrightarrow> bs = [Told e]"
| "shows_whole (WLive (MEnds XdsExited)) bs \<longleftrightarrow> bs = [] \<or> bs = [Died]"
| "shows_whole (WLive (MEnds LifecycleExited)) bs \<longleftrightarrow> bs = [] \<or> bs = [Died]"
| "shows_whole _ bs \<longleftrightarrow> bs = []"

fun whole_inv :: "'config whole \<Rightarrow> bool" where
  "whole_inv (Booting s) \<longleftrightarrow> sinv s"
| "whole_inv (Live m) \<longleftrightarrow> (\<forall>l. m_run m = Selecting \<longrightarrow> m_threads m = Some l \<longrightarrow> proxy_inv (proxy (mgr l)))"

lemma starting_envoy: "pc_inv pc cdp \<Longrightarrow> starting pc \<Longrightarrow> cdp_proxy cdp = Some p \<Longrightarrow> proxy_inv p"
  by (cases pc) (auto simp: has_envoy_def untouched_def)

lemma start_envoy_up: "start_envoy env json cdp = Ok p \<Longrightarrow> life_of p = Up"
  using start_envoy_running [of env json cdp p] by (simp add: life_of_def)

lemma advance_life:
  "advance env pc cdp = Ok (pc', cdp') \<Longrightarrow> starting pc \<Longrightarrow> pc_inv pc cdp \<Longrightarrow>
   cdp_proxy cdp' = cdp_proxy cdp \<or> cdp_proxy cdp = None \<and> (\<exists>p. cdp_proxy cdp' = Some p \<and> life_of p = Up)"
  by (cases pc) (auto simp: go_simps dest: start_envoy_up split: prod.split_asm)

lemma run_select_life:
  assumes "run_select post kill ev p = Ok (err, p')" and "proxy_inv p"
  shows "life_of p' = life_of p \<or> ev \<in> {XdsExited, LifecycleExited} \<and> life_of p = Up \<and> life_of p' = Down"
proof -
  have q: "proxy_inv (snd (Quit post p))" "life_of (snd (Quit post p)) = life_of p"
    using pstep_inv [OF pstep.quit assms(2)] by (simp_all add: life_of_def)
  have "life_of p1 = life_of p \<or> life_of p = Up \<and> life_of p1 = Down" if "quit_or_kill post kill p = Ok p1" for p1
    using that q Kill_life [of kill "snd (Quit post p)"] by (auto simp: quit_or_kill_def go_simps split: prod.split_asm option.split_asm)
  with assms(1) show ?thesis by (cases ev) (auto simp: go_simps)
qed

lemma ends_life:
  assumes "ready m p ev" and "proxy_inv (received ev p)" and "run_select post kill ev (received ev p) = Ok (err, p')"
  shows "\<exists>bs. shows_whole (WLive (MEnds ev)) bs \<and> steps life_step (life_of p) bs (life_of p')"
proof (cases "\<exists>e. ev = ProxyExited e")
  case True
  then obtain e where ev: "ev = ProxyExited e" by blast
  with assms have "life_of p = Waited e" "life_of p' = Reported" by (auto simp: life_of_def)
  with ev show ?thesis by (intro exI [of _ "[Told e]"]) (simp add: steps_Cons_iff)
next
  case False
  then have "received ev p = p" by (cases ev) auto
  with run_select_life [OF assms(3,2)] consider "life_of p' = life_of p" | "ev \<in> {XdsExited, LifecycleExited}" "life_of p = Up" "life_of p' = Down" by auto
  then show ?thesis
  proof cases
    case 1
    with False show ?thesis by (intro exI [of _ "[]"]) (cases ev; simp)
  next
    case 2
    then show ?thesis by (intro exI [of _ "[Died]"]) (auto simp: steps_Cons_iff)
  qed
qed

lemma lstep_life: "lstep l a l' \<Longrightarrow> proxy_inv (proxy (mgr l)) \<Longrightarrow> proxy_inv (proxy (mgr l')) \<and> life_of (proxy (mgr l')) = life_of (proxy (mgr l))"
  using lstep_proxy [of l a l'] pstep_inv [of "proxy (mgr l)"] pstep_life [of "proxy (mgr l)"] by fastforce

lemma mstep_life:
  assumes "mstep m a m'" and "whole_inv (Live m)"
  shows "whole_inv (Live m') \<and> (\<exists>bs. shows_whole (WLive a) bs \<and> steps life_step (whole_life (Live m)) bs (whole_life (Live m')))"
  using assms(1)
proof cases
  case (graceful l l')
  with assms(2) lstep_life [OF graceful(7)] show ?thesis by simp
next
  case (thread l b l')
  with assms(2) lstep_life [OF thread(5)] show ?thesis by simp
next
  case (envoy l b p)
  then have "proxy_inv (proxy (mgr l))" using assms(2) by simp
  with envoy pstep_life [OF this envoy(5)] show ?thesis by (auto dest: pstep_inv)
next
  case (ends l ev post kill err p)
  have i: "proxy_inv (proxy (mgr l))" "proxy_inv (received ev (proxy (mgr l)))"
    using ends assms(2) by (cases ev; auto simp: proxy_inv_def)+
  have "\<exists>bs. shows_whole (WLive (MEnds ev)) bs \<and> steps life_step (life_of (proxy (mgr l))) bs (life_of p)"
    by (rule ends_life [OF ends(5) i(2) ends(6)])
  with ends show ?thesis by simp
qed (use assms(2) in auto)

lemma sstep_life:
  assumes "sstep envs s a t" and "sinv s"
  shows "\<exists>bs. shows_whole (WBoot a) bs \<and> steps life_step (whole_life (Booting s)) bs (whole_life (Booting t))"
  using assms(1)
proof cases
  case (stage pc cdp)
  with advance_life [OF stage(4,3)] assms(2) show ?thesis by (auto simp: sinv_def steps_Cons_iff)
next
  case (envoy p b p')
  then have "proxy_inv p" using assms(2) starting_envoy by (auto simp: sinv_def)
  with pstep_life [OF this envoy(5)] envoy show ?thesis by (simp add: set_proxy_def)
qed (auto intro!: exI [of _ "[]"])

lemma enter_life:
  assumes "sinv s" and "s_pc s = AtSelect"
  shows "whole_inv (Live (enter now s))" and "whole_life (Live (enter now s)) = whole_life (Booting s)"
  using assms by (auto simp: sinv_def enter_def threads_of_def has_envoy_def untouched_def)

interpretation whole: simulation wstart "wstep envs" whole_inv "\<lambda>l. l = Unborn" life_step whole_life shows_whole for envs
proof
  show "wstart w \<Longrightarrow> whole_inv w" for w :: "'a whole" by (auto simp: wstart_def sinv_boot)
  show "wstart w \<Longrightarrow> whole_life w = Unborn" for w :: "'a whole"
    using NewConsulDP_fresh by (fastforce simp: wstart_def boot_def)
  show "whole_inv w' " if "whole_inv w" "wstep envs w a w'" for w w' :: "'a whole" and a
    using that(2,1) by cases (auto intro: sinv_step simp: enter_life mstep_life simp del: whole_inv.simps(2))
  show "\<exists>bs. shows_whole a bs \<and> steps life_step (whole_life w) bs (whole_life w')"
    if "whole_inv w" "wstep envs w a w'" for w w' :: "'a whole" and a
    using that(2,1)
  proof cases
    case (booting s b t)
    with that(1) sstep_life [OF booting(4)] show ?thesis by simp
  next
    case (entering s now)
    with that(1) enter_life(2) [of s now] show ?thesis by (intro exI [of _ "[]"]) simp
  next
    case (living s b t)
    with that(1) mstep_life [OF living(4)] show ?thesis by simp
  qed
qed

section \<open>Properties\<close>


text \<open>C35: A signal that comes before Envoy. If a signal is handled during the start-up while Envoy has not been started yet, then, whatever the
  environment answers from then on, Envoy is never started; and a sidecar does not get to its
  final \<open>select\<close>.
\<close>

theorem signal_before_envoy:
  assumes "NewConsulDP levelOf c = Ok cdp" and "steps (sstep envs) (boot cdp) as s" and "cdp_proxy (s_cdp s) = None"
    and "sstep envs s SHandle s'" and "steps (sstep envs) s' ls t"
  shows "cdp_proxy (s_cdp t) = None \<and> (s_pc t = AtSelect \<longrightarrow> cfg_Mode (cdp_cfg (s_cdp t)) = ModeTypeDNSProxy)"
proof -
  have i: "sinv s" by (rule startup.steps_inv [OF assms(2) sinv_boot [OF assms(1)]])
  have "s_cancelled s' \<and> cdp_proxy (s_cdp s') = None"
    using assms(4)
  proof cases
    case (early lc)
    with i assms(3) show ?thesis by (cases "s_pc s") (auto simp: sinv_def has_envoy_def)
  qed (use assms(3) in auto)
  with cancelled_run [OF assms(5) sinv_step [OF i assms(4)]] show ?thesis by (auto simp: sinv_def has_envoy_def)
qed

theorem signal_before_envoy_witness:
  "\<exists>cdp s t. NewConsulDP (\<lambda>_. 3) run_config = Ok cdp \<and> sstep (\<lambda>_. run_world) s SHandle t
     \<and> steps (sstep (\<lambda>_. run_world)) (boot cdp) [SSignal, SHandle] t \<and> s_cancelled t \<and> cdp_proxy (s_cdp t) = None"
proof -
  obtain cdp where n: "NewConsulDP (\<lambda>_. 3) run_config = Ok cdp" using run_config_new by blast
  let ?b = "boot cdp :: unit ssys" let ?s = "?b\<lparr>s_pending := True\<rparr>"
  let ?t = "?s\<lparr>s_pending := False, s_handled := True, s_cancelled := True\<rparr>"
  have fresh: "cdp_proxy (s_cdp ?s) = None" "cdp_lifecycleConfig (s_cdp ?s) = None" using NewConsulDP_fresh [OF n] by (simp_all add: boot_def)
  have "sstep (\<lambda>_. run_world) ?b SSignal ?s" by (rule sstep.signal) (simp add: boot_def)
  then have s: "steps (sstep (\<lambda>_. run_world)) ?b [SSignal] ?s" by (auto simp: steps_Cons_iff)
  have t: "sstep (\<lambda>_. run_world) ?s SHandle ?t" by (rule sstep.cancel) (use fresh in \<open>auto simp: boot_def\<close>)
  have "steps (sstep (\<lambda>_. run_world)) ?b ([SSignal] @ [SHandle]) ?t"
    unfolding steps_append_iff [of _ _ "[SSignal]" "[SHandle]"] using s t by (auto simp: steps_Cons_iff)
  moreover have "cdp_proxy (s_cdp ?t) = None" using signal_before_envoy [OF n s fresh(1) t steps_Nil] by blast
  ultimately show ?thesis using n t by (intro exI [of _ cdp] exI [of _ ?s] exI [of _ ?t]) simp
qed

text \<open>C2: The whole process outlives Envoy. Along every run from the very beginning in which no signal is handled before the
  final \<open>select\<close>, however stages, signals, shutdown requests, the clock and Envoy interleave: while a sidecar
  runs, its context is not cancelled, Envoy has been asked to quit only if somebody has
  waited for the whole grace period, and is draining only if that is enabled; and if the process has ended with status
  0, Envoy is dead and its exit has been received.
\<close>

theorem whole_process_outlives_envoy:
  assumes "wstart w" and "steps (wstep envs) w ls (Live s)" and "WBoot SHandle \<notin> set ls" and "m_threads s = Some l"
  shows "(m_run s = Selecting \<longrightarrow> \<not> m_cancelled s \<and> (state (proxy (mgr l)) = stateStopped \<longrightarrow> waited l)
      \<and> (state (proxy (mgr l)) = stateDraining \<longrightarrow> shutdownDrainListenersEnabled (mgr l)))
    \<and> (live_status s = Some 0 \<longrightarrow> proc (proxy (mgr l)) = Dead \<and> exitedCh (proxy (mgr l)) = Closed)"
proof -
  have "quiet (Live s :: 'a whole)"
    by (rule quiet_process.steps_inv [OF steps_quiet [OF assms(2,3)] quiet_process.inv_start [OF assms(1)]])
  with assms(4) show ?thesis by (auto simp: quiet_def minv_def live_status_zero)
qed

lemma window_crash:
  fixes v :: "'config ssys"
  assumes "s_pc v = AtManager" and "\<not> s_handled v" and "\<not> s_cancelled v" and "\<And>env :: 'config run_env. advance env AtManager (s_cdp v) = Ok (AtStartManager, cdp1)"
  shows "\<exists>s. steps (sstep envs) v [SStage, SSignal, SHandle] s \<and> s_pc s = Crashed ''nil pointer dereference'' \<and> s_cdp s = cdp1"
proof -
  obtain lc1 where lc1: "cdp_lifecycleConfig cdp1 = Some lc1" "\<not> lifecycleConfig.running lc1"
    using assms(4) by (auto simp: go_simps dest: NewLifecycleConfig_fresh)
  let ?u = "v\<lparr>s_pc := AtStartManager, s_cdp := cdp1\<rparr>"
  let ?t = "?u\<lparr>s_pending := True, s_pc := Crashed ''nil pointer dereference'', s_pending := False, s_handled := True\<rparr>"
  have "sstep envs v SStage ?u" by (rule sstep.stage) (use assms in auto)
  moreover have "sstep envs ?u SSignal (?u\<lparr>s_pending := True\<rparr>)" by (rule sstep.signal) simp
  moreover have "sstep envs (?u\<lparr>s_pending := True\<rparr>) SHandle ?t" by (rule sstep.early) (use assms(2) lc1 in auto)
  ultimately have "steps (sstep envs) v [SStage, SSignal, SHandle] ?t" unfolding steps_Cons_iff steps_Nil_iff by blast
  then show ?thesis by fastforce
qed

lemma window_cancel:
  fixes v :: "'config ssys"
  assumes "s_pc v = AtManager" and "\<not> s_handled v" and "sinv v"
    and "\<And>env :: 'config run_env. advance env AtManager (s_cdp v) = Ok (AtStartManager, cdp1)" and "\<And>env :: 'config run_env. advance env AtStartManager cdp1 = Ok (AtSelect, cdp')"
  shows "\<exists>t. steps (sstep envs) v [SSignal, SHandle, SStage, SStage] t \<and> s_pc t = AtSelect \<and> s_cdp t = cdp' \<and> s_cancelled t"
proof -
  have none: "cdp_lifecycleConfig (s_cdp v) = None" using assms(1,3) by (simp add: sinv_def)
  let ?c = "v\<lparr>s_pending := False, s_handled := True, s_cancelled := True\<rparr>" let ?d = "?c\<lparr>s_pc := AtStartManager, s_cdp := cdp1\<rparr>"
  have "sstep envs v SSignal (v\<lparr>s_pending := True\<rparr>)" by (rule sstep.signal) (simp add: assms)
  moreover have "sstep envs (v\<lparr>s_pending := True\<rparr>) SHandle ?c"
    using sstep.cancel [of "v\<lparr>s_pending := True\<rparr>" envs] assms(1,2) none by simp
  moreover have "sstep envs ?c SStage ?d" by (rule sstep.stage) (use assms in auto)
  moreover have "sstep envs ?d SStage (?d\<lparr>s_pc := AtSelect, s_cdp := cdp'\<rparr>)" by (rule sstep.stage) (use assms(5) in auto)
  ultimately have "steps (sstep envs) v [SSignal, SHandle, SStage, SStage] (?d\<lparr>s_pc := AtSelect, s_cdp := cdp'\<rparr>)"
    unfolding steps_Cons_iff steps_Nil_iff by blast
  then show ?thesis by fastforce
qed

text \<open>At the \<open>select\<close> of a sidecar with a cancelled context, the process can return at once.\<close>

lemma cancelled_select_returns:
  assumes "s_pc t = AtSelect" and "s_cancelled t" and "cdp_lifecycleConfig (s_cdp t) = Some lc"
  shows "\<exists>s l. steps (wstep envs) (Booting t) [WEnter 0, WLive (MEnds CtxDone)] (Live s) \<and> m_run s = Returned None
    \<and> m_threads s = Some l \<and> proxy (mgr l) = proxy lc"
proof -
  let ?l = "\<lparr>clock = 0, mgr = lc, shutdowns = []\<rparr>"
  let ?s = "(enter 0 t)\<lparr>m_run := Returned None, m_threads := Some (with_proxy ?l (proxy lc))\<rparr>"
  have m: "m_run (enter 0 t) = Selecting" "m_threads (enter 0 t) = Some ?l" "m_cancelled (enter 0 t)"
    using assms by (simp_all add: enter_def threads_of_def)
  have "mstep (enter 0 t) (MEnds CtxDone) ?s" using mstep.ends [OF m(1,2), of CtxDone _ _ None "proxy lc"] m(3) by simp
  then have "wstep envs (Live (enter 0 t)) (WLive (MEnds CtxDone)) (Live ?s)" by (rule wstep.living)
  with wstep.entering [OF assms(1), of envs 0] have "steps (wstep envs) (Booting t) [WEnter 0, WLive (MEnds CtxDone)] (Live ?s)"
    unfolding steps_Cons_iff steps_Nil_iff by blast
  then show ?thesis by fastforce
qed

lemma lift_live: "steps mstep s ls t \<Longrightarrow> steps (wstep envs) (Live s) (map WLive ls) (Live t)"
  by (induction rule: steps.induct) (auto intro: steps.intros wstep.living)

theorem whole_process_outlives_envoy_witness:
  "\<exists>w ls s l. wstart w \<and> steps (wstep (\<lambda>_. run_world)) w ls (Live s) \<and> m_threads s = Some l \<and> live_status s = Some 0 \<and> proc (proxy (mgr l)) = Dead"
proof -
  obtain cdp where n: "NewConsulDP (\<lambda>_. 3) run_config = Ok cdp" using run_config_new by blast
  obtain cdp' where r: "snd (Run_start run_world cdp) = Ok cdp'" using world_runs [OF n] by blast
  have mode: "cfg_Mode run_config \<noteq> ModeTypeDNSProxy" by (simp add: run_config_def sample_sidecar_def sample_dataplane_def)
  let ?b = "boot cdp :: unit ssys" let ?t = "?b\<lparr>s_pc := AtSelect, s_cdp := cdp'\<rparr>" let ?m = "enter 0 ?t"
  obtain k where k: "steps (sstep (\<lambda>_. run_world)) ?b (replicate k SStage) ?t"
    using drive_steps [of ?b "\<lambda>_. run_world" 10] r by (auto simp: boot_def drive_Run_start map_outcome_def ends_as_def)
  obtain l where m: "m_threads ?m = Some l" "m_run ?m = Selecting" "proc (proxy (mgr l)) = Alive" "exitedCh (proxy (mgr l)) = Waiting"
    using started_sidecar [OF n r mode] by (auto simp: enter_def threads_of_def)
  obtain s' l' where e: "steps mstep ?m [MEnvoy LDies, MEnvoy (LReap None), MEnds (ProxyExited None)] s'" "m_run s' = Returned None" "m_threads s' = Some l'"
    using envoy_exit_ends [OF m(2,1,3,4)] by blast
  let ?ls = "map WBoot (replicate k SStage) @ WEnter 0 # map WLive [MEnvoy LDies, MEnvoy (LReap None), MEnds (ProxyExited None)]"
  have "wstep (\<lambda>_. run_world) (Booting ?t) (WEnter 0) (Live ?m)" by (rule wstep.entering) simp
  then have "steps (wstep (\<lambda>_. run_world)) (Booting ?t) (WEnter 0 # map WLive [MEnvoy LDies, MEnvoy (LReap None), MEnds (ProxyExited None)]) (Live s')"
    by (rule steps_Cons) (rule lift_live [OF e(1)])
  then have run: "steps (wstep (\<lambda>_. run_world)) (Booting ?b) ?ls (Live s')"
    using lift_boot [OF k] by (intro steps_append_iff [THEN iffD2] exI conjI)
  have w: "wstart (Booting ?b)" unfolding wstart_def using n by blast
  have "WBoot SHandle \<notin> set ?ls" by auto
  from whole_process_outlives_envoy [OF w run this e(3)] live_status_zero [of s'] e(2,3) w run show ?thesis by blast
qed

text \<open>C3: Envoy lives once in the whole process. Along every run of the process from its very beginning, with any signals, shutdown requests, failing
  stages and servers: Envoy is started at most once, only by a stage of the start-up; it dies at
  most once after that, its exit is waited for and then received by the final \<open>select\<close>, each at most once and in this order.
\<close>

theorem process_refines_life:
  assumes "wstart w" and "steps (wstep envs) w ls w'"
  shows "\<exists>bss k e. list_all2 shows_whole ls bss \<and> steps life_step Unborn (concat bss) (whole_life w')
    \<and> concat bss = take k [Born, Died, Reaped e, Told e]"
  using whole.run_simulated [OF assms(2) whole.inv_start [OF assms(1)]] whole.abst_start [OF assms(1)] life_runs [of Unborn]
  by (metis remaining.simps(1))

theorem process_refines_life_witness:
  "\<exists>w w' bss k e. wstart w \<and> wstep (\<lambda>_. run_world) w (WBoot SSignal) w' \<and> list_all2 shows_whole [WBoot SSignal] bss
    \<and> steps life_step Unborn (concat bss) (whole_life w') \<and> concat bss = take k [Born, Died, Reaped e, Told e]"
proof -
  obtain cdp where n: "NewConsulDP (\<lambda>_. 3) run_config = Ok cdp" using run_config_new by blast
  let ?b = "boot cdp :: unit ssys"
  have w: "wstart (Booting ?b)" using n by (auto simp: wstart_def)
  have s: "wstep (\<lambda>_. run_world) (Booting ?b) (WBoot SSignal) (Booting (?b\<lparr>s_pending := True\<rparr>))"
    by (intro wstep.booting sstep.signal) (simp add: boot_def)
  then have "steps (wstep (\<lambda>_. run_world)) (Booting ?b) [WBoot SSignal] (Booting (?b\<lparr>s_pending := True\<rparr>))" by (auto simp: steps_Cons_iff)
  from process_refines_life [OF w this] w s show ?thesis by blast
qed



end
