(* ===== verification/Test_Suite.thy ===== *)
theory Test_Suite
  imports Go_Path "HOL-Library.AList"
begin

text \<open>
  The integration test suite (\<open>integration-tests/helpers\<close>: \<open>suite.go\<close>, \<open>pod.go\<close>, \<open>service.go\<close>,
  \<open>tls.go\<close>, \<open>dataplane.go\<close> and \<open>RunServer\<close> of \<open>server.go\<close>): the resources a test creates, the clean-ups
  it registers for them, and what is left when the test ends, also when it is given up on an error.

  A test is a function of the world that may be given up (\<open>require.NoError\<close> ends it), in which case
  the world stays as it is at that point and the clean-ups still run. Docker, through the testcontainers library, is an
  argument: the answers of its calls may depend on its state, which counts the calls, so that two calls may be answered
  differently. What a call changes in that state is written out. The volume is an object that the suite and its callers share,
  so volumes live in a store and the suite holds an index. One goroutine runs a test, so the mutexes are left out; so is the
  output of \<open>t.Logf\<close>.
\<close>

section \<open>Data\<close>

record SuiteOptions =
  so_OutputDir :: string
  so_DisableReaper :: bool
  so_ServerImage :: string
  so_ServerVersion :: string
  so_DataplaneImage :: string

text \<open>The fields of \<open>testcontainers.ContainerRequest\<close> that are set; a mount is the name of a volume and a target.\<close>

record ContainerRequest =
  cr_Name :: string
  cr_Image :: string
  cr_Cmd :: "string list"
  cr_Mounts :: "(string \<times> string) list"
  cr_ExposedPorts :: "string list"
  cr_NetworkMode :: string
  cr_Privileged :: bool
  cr_WaitingFor :: "string option"
  cr_AutoRemove :: bool
  cr_SkipReaper :: bool

definition zero_request :: ContainerRequest where
  "zero_request = \<lparr>cr_Name = [], cr_Image = [], cr_Cmd = [], cr_Mounts = [], cr_ExposedPorts = [], cr_NetworkMode = [],
     cr_Privileged = False, cr_WaitingFor = None, cr_AutoRemove = False, cr_SkipReaper = False\<rparr>"

record Container =
  ct_handle :: nat
  ct_Name :: string
  ct_HostIP :: string
  ct_ContainerIP :: string
  ct_MappedPorts :: "string \<rightharpoonup> int"

record Volume =
  vo_Name :: string
  vo_container :: "Container option"

record Suite =
  su_Name :: string
  su_opts :: SuiteOptions
  su_artifacts :: "(string \<times> string) list"
  su_volume :: "nat option"

type_synonym Pod = Container

text \<open>What a test has registered with \<open>t.Cleanup\<close>: the closures of \<open>Context\<close>, \<open>NewSuite\<close>, \<open>RunContainer\<close> (the
  container, its name, whether its logs are captured, and its log consumer) and \<open>Volume\<close>.\<close>

datatype cleanup =
    CancelContext nat
  | SuiteCleanup
  | StopContainer nat string bool nat
  | RemoveVolume string

text \<open>The containers that exist, each with its request and whether it runs, and the volumes.\<close>

record docker_state =
  ds_containers :: "(nat \<times> ContainerRequest \<times> bool) list"
  ds_next :: nat
  ds_volumes :: "string list"
  ds_calls :: nat

text \<open>The answers of Docker and of the file system. Creating a container answers whether it runs afterwards,
  and an error. A container exists if there is no error; with \<open>Started\<close> set it may also have been started and
  waiting for it have failed.\<close>

record docker =
  d_GenericContainer :: "docker_state \<Rightarrow> ContainerRequest \<Rightarrow> bool \<times> go_error option"
  d_StartLogProducer :: "docker_state \<Rightarrow> nat \<Rightarrow> go_error option"
  d_State :: "docker_state \<Rightarrow> nat \<Rightarrow> bool result"
  d_Terminate :: "docker_state \<Rightarrow> nat \<Rightarrow> go_error option"
  d_Host :: "docker_state \<Rightarrow> nat \<Rightarrow> string result"
  d_ContainerIP :: "docker_state \<Rightarrow> nat \<Rightarrow> string result"
  d_MappedPort :: "docker_state \<Rightarrow> nat \<Rightarrow> string \<Rightarrow> int result"
  d_Exec :: "docker_state \<Rightarrow> nat \<Rightarrow> string list \<Rightarrow> go_error option"
  d_CopyToContainer :: "docker_state \<Rightarrow> nat \<Rightarrow> string \<Rightarrow> string \<Rightarrow> go_error option"
  d_NewDockerClient :: "docker_state \<Rightarrow> go_error option"
  d_VolumeCreate :: "docker_state \<Rightarrow> string \<Rightarrow> string result"
  d_VolumeRemove :: "docker_state \<Rightarrow> string \<Rightarrow> go_error option"
  d_NewClient :: "docker_state \<Rightarrow> string \<Rightarrow> string \<Rightarrow> go_error option"
  d_WriteFile :: "string \<Rightarrow> go_error option"

record world =
  w_docker :: docker_state
  w_suite :: Suite
  w_vols :: "Volume list"
  w_cleanups :: "cleanup list"
  w_contexts :: nat
  w_cancelled :: "nat list"
  w_logs :: "string list"
  w_files :: "(string \<times> string) list"

section \<open>Tests\<close>

type_synonym 'a test = "world \<Rightarrow> 'a option \<times> world"

definition treturn :: "'a \<Rightarrow> 's \<Rightarrow> 'a option \<times> 's" where
  "treturn a w = (Some a, w)"

definition tbind :: "('s \<Rightarrow> 'a option \<times> 's) \<Rightarrow> ('a \<Rightarrow> 's \<Rightarrow> 'b option \<times> 's) \<Rightarrow> 's \<Rightarrow> 'b option \<times> 's" where
  "tbind m f w = (case m w of (None, w') \<Rightarrow> (None, w') | (Some a, w') \<Rightarrow> f a w')"

definition get :: "(world \<Rightarrow> 'a) \<Rightarrow> 'a test" where
  "get f w = (Some (f w), w)"

definition change :: "(world \<Rightarrow> world) \<Rightarrow> unit test" where
  "change f w = (Some (), f w)"

text \<open>\<open>require.NoError\<close>: the test is given up on an error.\<close>

definition NoError :: "go_error option \<Rightarrow> 's \<Rightarrow> unit option \<times> 's" where
  "NoError err w = (case err of None \<Rightarrow> (Some (), w) | Some e \<Rightarrow> (None, w))"

definition Cleanup :: "cleanup \<Rightarrow> unit test" where
  "Cleanup c = change (w_cleanups_update (Cons c))"

text \<open>A call of Docker whose answer is a value or an error that ends the test.\<close>

definition tick :: "world \<Rightarrow> world" where
  "tick = w_docker_update (ds_calls_update Suc)"

definition ask :: "(docker_state \<Rightarrow> 'a result) \<Rightarrow> 'a test" where
  "ask f w = (case f (w_docker w) of Inl e \<Rightarrow> (None, tick w) | Inr a \<Rightarrow> (Some a, tick w))"

definition ask_err :: "(docker_state \<Rightarrow> go_error option) \<Rightarrow> unit test" where
  "ask_err f = ask (\<lambda>ds. case f ds of None \<Rightarrow> Inr () | Some e \<Rightarrow> Inl e)"

fun each :: "('a \<Rightarrow> unit test) \<Rightarrow> 'a list \<Rightarrow> unit test" where
  "each f [] = treturn ()"
| "each f (x # xs) = tbind (f x) (\<lambda>_. each f xs)"

section \<open>The suite\<close>

definition NewSuite :: "int \<Rightarrow> SuiteOptions \<Rightarrow> docker_state \<Rightarrow> world" where
  "NewSuite now opts ds =
     \<lparr>w_docker = ds, w_suite = \<lparr>su_Name = ''int-'' @ Itoa now, su_opts = opts, su_artifacts = [], su_volume = None\<rparr>,
      w_vols = [], w_cleanups = [SuiteCleanup], w_contexts = 0, w_cancelled = [], w_logs = [], w_files = []\<rparr>"

text \<open>\<open>Context\<close>: a new context, cancelled when the test ends.\<close>

definition Context :: "nat test" where
  "Context = tbind (get w_contexts) (\<lambda>k. tbind (change (w_contexts_update Suc)) (\<lambda>_. tbind (Cleanup (CancelContext k)) (\<lambda>_. treturn k)))"

definition GenericContainer :: "docker \<Rightarrow> ContainerRequest \<Rightarrow> nat test" where
  "GenericContainer d req w =
     (let h = ds_next (w_docker w) in
      case d_GenericContainer d (w_docker w) req of (started, err) \<Rightarrow>
        let w' = (if started \<or> err = None
                  then w_docker_update (\<lambda>s. s\<lparr>ds_containers := (h, req, started) # ds_containers s, ds_next := Suc h\<rparr>) (tick w)
                  else tick w)
        in case err of Some e \<Rightarrow> (None, w') | None \<Rightarrow> (Some h, w'))"

text \<open>\<open>container.FollowOutput(&logConsumer{})\<close>.\<close>

definition FollowOutput :: "nat test" where
  "FollowOutput = tbind (get (\<lambda>w. length (w_logs w))) (\<lambda>l. tbind (change (w_logs_update (\<lambda>b. b @ [[]]))) (\<lambda>_. treturn l))"

text \<open>\<open>logConsumer.Accept\<close> and \<open>logConsumer.bytes\<close>.\<close>

definition Accept :: "nat \<Rightarrow> string \<Rightarrow> world \<Rightarrow> world" where
  "Accept l content w = (if l < length (w_logs w) then w\<lparr>w_logs := (w_logs w)[l := w_logs w ! l @ content]\<rparr> else w)"

definition log_bytes :: "world \<Rightarrow> nat \<Rightarrow> string" where
  "log_bytes w l = (if l < length (w_logs w) then w_logs w ! l else [])"

fun map_ports :: "docker \<Rightarrow> nat \<Rightarrow> (string \<rightharpoonup> int) \<Rightarrow> string list \<Rightarrow> (string \<rightharpoonup> int) test" where
  "map_ports d h m [] = treturn m"
| "map_ports d h m (p # ps) = tbind (ask (\<lambda>ds. d_MappedPort d ds h p)) (\<lambda>hostPort. map_ports d h (m(p \<mapsto> hostPort)) ps)"

definition RunContainer :: "docker \<Rightarrow> string \<Rightarrow> bool \<Rightarrow> ContainerRequest \<Rightarrow> Container test" where
  "RunContainer d name captureLogs req0 =
     tbind Context (\<lambda>ctx.
     tbind (get w_suite) (\<lambda>s.
       let req = req0\<lparr>cr_Name := su_Name s @ ''-'' @ name, cr_AutoRemove := False, cr_SkipReaper := so_DisableReaper (su_opts s)\<rparr> in
       tbind (GenericContainer d req) (\<lambda>h.
       tbind FollowOutput (\<lambda>l.
       tbind (ask_err (\<lambda>ds. d_StartLogProducer d ds h)) (\<lambda>_.
       tbind (Cleanup (StopContainer h name captureLogs l)) (\<lambda>_.
       tbind (ask (\<lambda>ds. d_Host d ds h)) (\<lambda>hostIP.
       tbind (ask (\<lambda>ds. d_ContainerIP d ds h)) (\<lambda>containerIP.
       tbind (map_ports d h Map.empty (cr_ExposedPorts req)) (\<lambda>ports.
         treturn \<lparr>ct_handle = h, ct_Name = cr_Name req, ct_HostIP = hostIP, ct_ContainerIP = containerIP,
                  ct_MappedPorts = ports\<rparr>)))))))))"

definition CaptureArtifact :: "string \<Rightarrow> string \<Rightarrow> world \<Rightarrow> world" where
  "CaptureArtifact name data = w_suite_update (su_artifacts_update (AList.update name data))"

text \<open>Go iterates over a map in an arbitrary order, the argument \<open>rng\<close>.\<close>

definition suite_cleanup :: "docker \<Rightarrow> ((string \<times> string) list \<Rightarrow> (string \<times> string) list) \<Rightarrow> world \<Rightarrow> world" where
  "suite_cleanup d rng w =
     (let dir = so_OutputDir (su_opts (w_suite w)) in
      if dir = [] then w
      else fold (\<lambda>(name, data) w'.
             let path = path_Join dir name in
             case d_WriteFile d path of None \<Rightarrow> w'\<lparr>w_files := w_files w' @ [(path, data)]\<rparr> | Some e \<Rightarrow> w')
           (rng (su_artifacts (w_suite w))) w)"

text \<open>The volume of the suite, created when it is needed first. Once Docker has created it, its removal is registered and
  the suite keeps it.\<close>

definition keep_volume :: "string \<Rightarrow> nat test" where
  "keep_volume vname =
     tbind (change (w_docker_update (ds_volumes_update (Cons vname)))) (\<lambda>_.
     tbind (Cleanup (RemoveVolume vname)) (\<lambda>_.
     tbind (get (\<lambda>w. length (w_vols w))) (\<lambda>p.
     tbind (change (w_vols_update (\<lambda>vs. vs @ [\<lparr>vo_Name = vname, vo_container = None\<rparr>]))) (\<lambda>_.
     tbind (change (w_suite_update (su_volume_update (\<lambda>_. Some p)))) (\<lambda>_.
       treturn p)))))"

definition create_volume :: "docker \<Rightarrow> nat test" where
  "create_volume d =
     tbind Context (\<lambda>_.
     tbind (ask_err (d_NewDockerClient d)) (\<lambda>_.
     tbind Context (\<lambda>_.
     tbind (get (\<lambda>w. su_Name (w_suite w) @ ''-volume'')) (\<lambda>name.
     tbind (ask (\<lambda>ds. d_VolumeCreate d ds name)) (\<lambda>vname.
       keep_volume vname)))))"

definition Volume_of_suite :: "docker \<Rightarrow> nat test" where
  "Volume_of_suite d =
     tbind (get (\<lambda>w. su_volume (w_suite w))) (\<lambda>v. case v of Some p \<Rightarrow> treturn p | None \<Rightarrow> create_volume d)"

definition Network :: "Container \<Rightarrow> string" where
  "Network c = ''container:'' @ ct_Name c"

definition pauseContainerImage :: string where "pauseContainerImage = ''registry.k8s.io/pause''"

text \<open>\<open>WriteFile\<close> is called on the volume that \<open>Volume\<close> returned, so the index is one of the store.\<close>

definition WriteFile :: "docker \<Rightarrow> nat \<Rightarrow> string \<Rightarrow> string \<Rightarrow> unit test" where
  "WriteFile d p name contents =
     tbind (get (\<lambda>w. w_vols w ! p)) (\<lambda>v.
     tbind (case vo_container v of
              Some c \<Rightarrow> treturn c
            | None \<Rightarrow>
                tbind (RunContainer d ''volume'' False
                         (zero_request\<lparr>cr_Image := pauseContainerImage, cr_Mounts := [(vo_Name v, ''/data'')]\<rparr>)) (\<lambda>c.
                tbind (change (w_vols_update (\<lambda>vs. vs[p := (vs ! p)\<lparr>vo_container := Some c\<rparr>]))) (\<lambda>_. treturn c))) (\<lambda>c.
     tbind Context (\<lambda>ctx.
       ask_err (\<lambda>ds. d_CopyToContainer d ds (ct_handle c) contents (path_Join ''/data'' name)))))"

section \<open>Pods, services, servers and dataplanes\<close>

text \<open>Ports as the library \<open>nat\<close> has them.\<close>

record nat_lib =
  nt_NewPort :: "string \<Rightarrow> string \<Rightarrow> string result"
  nt_Proto :: "string \<Rightarrow> string"
  nt_Port :: "string \<Rightarrow> string"

definition TCP :: "nat_lib \<Rightarrow> int \<Rightarrow> string outcome" where
  "TCP nl n = (case nt_NewPort nl ''tcp'' (Itoa n) of Inl e \<Rightarrow> Panic ''nat.NewPort'' | Inr port \<Rightarrow> Ok port)"

definition UDP :: "nat_lib \<Rightarrow> int \<Rightarrow> string outcome" where
  "UDP nl n = (case nt_NewPort nl ''udp'' (Itoa n) of Inl e \<Rightarrow> Panic ''nat.NewPort'' | Inr port \<Rightarrow> Ok port)"

definition RunPod :: "docker \<Rightarrow> string \<Rightarrow> string list \<Rightarrow> Pod test" where
  "RunPod d podName mappedPorts =
     RunContainer d (podName @ ''-pod'') False
       (zero_request\<lparr>cr_Image := pauseContainerImage, cr_ExposedPorts := mappedPorts\<rparr>)"

definition forward_cmd :: "nat_lib \<Rightarrow> string \<Rightarrow> string" where
  "forward_cmd nl port = ''iptables -t nat -A PREROUTING -p '' @ nt_Proto nl port @ '' --dport '' @ nt_Port nl port
     @ '' -j DNAT --to-destination 127.0.0.1:'' @ nt_Port nl port"

definition exec_all :: "docker \<Rightarrow> Container \<Rightarrow> string list \<Rightarrow> unit test" where
  "exec_all d c cmds = each (\<lambda>cmd. ask_err (\<lambda>ds. d_Exec d ds (ct_handle c) (split_on CHR '' '' cmd))) cmds"

definition ExposeInternalPorts :: "docker \<Rightarrow> nat_lib \<Rightarrow> Pod \<Rightarrow> string list \<Rightarrow> unit test" where
  "ExposeInternalPorts d nl p ports =
     tbind (RunContainer d ''expose-internal-pods'' False
              (zero_request\<lparr>cr_NetworkMode := Network p, cr_Image := ''alpine:3.16.2'', cr_Cmd := [''sleep'', ''infinity''],
                 cr_Privileged := True\<rparr>)) (\<lambda>c.
     each (\<lambda>cmd. tbind Context (\<lambda>_. exec_all d c [cmd]))
       ([''sysctl -w net.ipv4.conf.all.route_localnet=1'', ''apk add iptables''] @ map (forward_cmd nl) ports))"

text \<open>The argument \<open>quoted\<close> is the service name as the verb \<open>%q\<close> prints it.\<close>

definition RunService :: "docker \<Rightarrow> (string \<Rightarrow> string) \<Rightarrow> Pod \<Rightarrow> string \<Rightarrow> Container test" where
  "RunService d quoted pod serviceName =
     RunContainer d serviceName True
       (zero_request\<lparr>cr_NetworkMode := Network pod, cr_Image := ''hashicorp/http-echo:0.2.3'',
          cr_Cmd := [''-listen'', '':8080'', ''-text'', ''service_metric{service_name='' @ quoted serviceName @ ''} 1'']\<rparr>)"

definition GenerateServerTLS :: "docker \<Rightarrow> unit test" where
  "GenerateServerTLS d =
     tbind Context (\<lambda>ctx.
     tbind (Volume_of_suite d) (\<lambda>volume.
     tbind (get (\<lambda>w. vo_Name (w_vols w ! volume))) (\<lambda>vname.
     tbind (get (\<lambda>w. so_ServerImage (su_opts (w_suite w)))) (\<lambda>image.
     tbind (RunContainer d ''generate-tls-certs'' False
              (zero_request\<lparr>cr_Image := image, cr_Cmd := [''sleep'', ''infinity''], cr_Mounts := [(vname, ''/data'')]\<rparr>)) (\<lambda>c.
       exec_all d c
         [''consul tls ca create'', ''cp consul-agent-ca.pem /data/ca-cert.pem'', ''consul tls cert create -server'',
          ''cp dc1-server-consul-0.pem /data/server-cert.pem'', ''cp dc1-server-consul-0-key.pem /data/server-key.pem'',
          ''chmod 444 /data/server-key.pem''])))))"

definition rootACLToken :: string where "rootACLToken = ''1e7038d4-53ff-4c18-a0c0-1e72d9c101dc''"

definition tabbed :: "nat \<Rightarrow> string \<Rightarrow> string" where
  "tabbed n s = replicate n (CHR 0x09) @ s"

definition serverConfig :: "string \<Rightarrow> string \<Rightarrow> string" where
  "serverConfig httpPort grpcPort = Join
     [[], tabbed 2 ''server = true'', tabbed 2 ''data_dir = \"/consul/data\"'', tabbed 2 ''log_level = \"debug\"'', [],
      tabbed 2 ''bootstrap_expect = 1'', [],
      tabbed 2 ''acl {'', tabbed 3 ''enabled = true'', tabbed 3 ''default_policy = \"deny\"'', [],
      tabbed 3 ''tokens {'', tabbed 4 (''initial_management = \"'' @ rootACLToken @ ''\"''),
      tabbed 4 (''default = \"'' @ rootACLToken @ ''\"''), tabbed 3 ''}'', tabbed 2 ''}'', [],
      tabbed 2 ''connect {'', tabbed 3 ''enabled = true'', tabbed 2 ''}'', [],
      tabbed 2 ''ports {'', tabbed 3 (''http = '' @ httpPort), tabbed 3 (''grpc_tls = '' @ grpcPort), tabbed 2 ''}'', [],
      tabbed 2 ''tls {'', tabbed 3 ''grpc {'', tabbed 4 ''ca_file = \"/data/ca-cert.pem\"'',
      tabbed 4 ''cert_file = \"/data/server-cert.pem\"'', tabbed 4 ''key_file = \"/data/server-key.pem\"'', tabbed 3 ''}'',
      tabbed 2 ''}'', tabbed 1 []] [CHR 0x0A]"

record ConsulServer =
  cs_Container :: Container
  cs_ClientAddress :: string
  cs_ClientToken :: string

text \<open>The ports \<open>serverHTTPPort\<close> and \<open>serverGRPCPort\<close> are arguments. A port that is missing in a Go map reads as 0.\<close>

definition RunServer :: "docker \<Rightarrow> nat_lib \<Rightarrow> string \<Rightarrow> string \<Rightarrow> ConsulServer test" where
  "RunServer d nl httpPort grpcPort =
     tbind (GenerateServerTLS d) (\<lambda>_.
     tbind (Volume_of_suite d) (\<lambda>volume.
     tbind (WriteFile d volume ''server.hcl'' (serverConfig (nt_Port nl httpPort) (nt_Port nl grpcPort))) (\<lambda>_.
     tbind (get (\<lambda>w. vo_Name (w_vols w ! volume))) (\<lambda>vname.
     tbind (get (\<lambda>w. so_ServerImage (su_opts (w_suite w)))) (\<lambda>image.
     tbind (RunContainer d ''server'' True
              (zero_request\<lparr>cr_Image := image, cr_Mounts := [(vname, ''/data'')], cr_ExposedPorts := [httpPort],
                 cr_WaitingFor := Some ''successfully established leadership'',
                 cr_Cmd := [''consul'', ''agent'', ''-config-file'', ''/data/server.hcl'', ''-client'', ''0.0.0.0'']\<rparr>)) (\<lambda>c.
       let address = JoinHostPort (ct_HostIP c) (Itoa (case ct_MappedPorts c httpPort of None \<Rightarrow> 0 | Some n \<Rightarrow> n)) in
       tbind (ask_err (\<lambda>ds. d_NewClient d ds address rootACLToken)) (\<lambda>_.
         treturn \<lparr>cs_Container = c, cs_ClientAddress = address, cs_ClientToken = rootACLToken\<rparr>)))))))"

record DataplaneConfig =
  tc_Addresses :: string
  tc_ServiceNodeName :: string
  tc_ProxyServiceID :: string
  tc_LoginAuthMethod :: string
  tc_LoginBearerToken :: string
  tc_DNSBindPort :: string
  tc_ServiceMetricsURL :: string
  tc_ShutdownGracePeriodSeconds :: string
  tc_ShutdownDrainListenersEnabled :: bool
  tc_DumpEnvoyConfigOnExitEnabled :: bool

text \<open>The first argument is \<open>EnvoyAdminPort.Port()\<close>.\<close>

definition ToArgs :: "string \<Rightarrow> DataplaneConfig \<Rightarrow> string list" where
  "ToArgs adminPort cfg =
     [''-addresses'', tc_Addresses cfg,
      ''-service-node-name'', tc_ServiceNodeName cfg,
      ''-proxy-service-id'', tc_ProxyServiceID cfg,
      ''-envoy-admin-bind-address'', ''0.0.0.0'',
      ''-envoy-admin-bind-port'', adminPort,
      ''-credential-type'', ''login'',
      ''-login-auth-method'', tc_LoginAuthMethod cfg,
      ''-login-bearer-token'', tc_LoginBearerToken cfg,
      ''-ca-certs'', ''/data/ca-cert.pem'',
      ''-tls-server-name'', ''server.dc1.consul'',
      ''-log-level'', ''debug'',
      ''-consul-dns-bind-port'', tc_DNSBindPort cfg,
      ''-telemetry-use-central-config'',
      ''-telemetry-prom-scrape-path'', ''/metrics'',
      ''-telemetry-prom-service-metrics-url'', tc_ServiceMetricsURL cfg]
     @ (if tc_ShutdownGracePeriodSeconds cfg \<noteq> []
        then [''-shutdown-grace-period-seconds'', tc_ShutdownGracePeriodSeconds cfg] else [])
     @ (if tc_ShutdownDrainListenersEnabled cfg then [''-shutdown-drain-listeners''] else [])
     @ (if tc_DumpEnvoyConfigOnExitEnabled cfg then [''-dump-envoy-config-on-exit''] else [])"

definition RunDataplane_container :: "docker \<Rightarrow> string \<Rightarrow> Pod \<Rightarrow> DataplaneConfig \<Rightarrow> Container test" where
  "RunDataplane_container d adminPort pod cfg =
     tbind (Volume_of_suite d) (\<lambda>volume.
     tbind (get (\<lambda>w. vo_Name (w_vols w ! volume))) (\<lambda>vname.
     tbind (get (\<lambda>w. so_DataplaneImage (su_opts (w_suite w)))) (\<lambda>image.
       RunContainer d (tc_ProxyServiceID cfg @ ''-dataplane'') True
         (zero_request\<lparr>cr_NetworkMode := Network pod, cr_Image := image, cr_Cmd := ToArgs adminPort cfg,
            cr_Mounts := [(vname, ''/data'')], cr_WaitingFor := Some ''starting main dispatch loop''\<rparr>))))"

section \<open>A test from its beginning to its end\<close>

text \<open>What the closures registered with \<open>t.Cleanup\<close> do. Errors are only logged.\<close>

fun run_cleanup :: "docker \<Rightarrow> ((string \<times> string) list \<Rightarrow> (string \<times> string) list) \<Rightarrow> cleanup \<Rightarrow> world \<Rightarrow> world" where
  "run_cleanup d rng (CancelContext k) w = w\<lparr>w_cancelled := k # w_cancelled w\<rparr>"
| "run_cleanup d rng SuiteCleanup w = suite_cleanup d rng w"
| "run_cleanup d rng (StopContainer h name captureLogs l) w =
     (let w1 = (if captureLogs then CaptureArtifact (name @ ''.log'') (log_bytes w l) w else w) in
      case d_State d (w_docker w1) h of
        Inl e \<Rightarrow> tick w1
      | Inr running \<Rightarrow>
          if \<not> running then tick w1
          else (let w2 = tick w1 in
                case d_Terminate d (w_docker w2) h of
                  Some e \<Rightarrow> tick w2
                | None \<Rightarrow> w_docker_update (ds_containers_update (filter (\<lambda>c. fst c \<noteq> h))) (tick w2)))"
| "run_cleanup d rng (RemoveVolume v) w =
     (case su_volume (w_suite w) of
        None \<Rightarrow> w
      | Some p \<Rightarrow>
          (let w1 = (case d_VolumeRemove d (w_docker w) v of
                       Some e \<Rightarrow> tick w
                     | None \<Rightarrow> w_docker_update (ds_volumes_update (filter (\<lambda>x. x \<noteq> v))) (tick w))
           in w1\<lparr>w_suite := (w_suite w1)\<lparr>su_volume := None\<rparr>\<rparr>))"

fun run_cleanups :: "docker \<Rightarrow> ((string \<times> string) list \<Rightarrow> (string \<times> string) list) \<Rightarrow> cleanup list \<Rightarrow> world \<Rightarrow> world" where
  "run_cleanups d rng [] w = w"
| "run_cleanups d rng (c # cs) w = run_cleanups d rng cs (run_cleanup d rng c w)"

text \<open>What a test does with the suite, with the output and the end of a container in between.\<close>

datatype test_op =
    OpRunServer string string
  | OpRunPod string "string list"
  | OpExposeInternalPorts Pod "string list"
  | OpRunService Pod string
  | OpRunDataplane Pod DataplaneConfig
  | OpWriteFile string string
  | OpCaptureArtifact string string
  | OpOutput nat string
  | OpExits nat

record helpers =
  hp_docker :: docker
  hp_nat :: nat_lib
  hp_quoted :: "string \<Rightarrow> string"
  hp_adminPort :: string

definition exits :: "nat \<Rightarrow> world \<Rightarrow> world" where
  "exits h = w_docker_update (ds_containers_update (map (\<lambda>(k, r, b). (k, r, b \<and> k \<noteq> h))))"

fun run_op :: "helpers \<Rightarrow> test_op \<Rightarrow> unit test" where
  "run_op hp (OpRunServer http grpc) = tbind (RunServer (hp_docker hp) (hp_nat hp) http grpc) (\<lambda>_. treturn ())"
| "run_op hp (OpRunPod name ports) = tbind (RunPod (hp_docker hp) name ports) (\<lambda>_. treturn ())"
| "run_op hp (OpExposeInternalPorts pod ports) = ExposeInternalPorts (hp_docker hp) (hp_nat hp) pod ports"
| "run_op hp (OpRunService pod name) = tbind (RunService (hp_docker hp) (hp_quoted hp) pod name) (\<lambda>_. treturn ())"
| "run_op hp (OpRunDataplane pod cfg) = tbind (RunDataplane_container (hp_docker hp) (hp_adminPort hp) pod cfg) (\<lambda>_. treturn ())"
| "run_op hp (OpWriteFile name contents) =
     tbind (Volume_of_suite (hp_docker hp)) (\<lambda>v. WriteFile (hp_docker hp) v name contents)"
| "run_op hp (OpCaptureArtifact name data) = change (CaptureArtifact name data)"
| "run_op hp (OpOutput l content) = change (Accept l content)"
| "run_op hp (OpExits h) = change (exits h)"

text \<open>A test passes or is given up; then its clean-ups run, the last registered first.\<close>

definition run_test :: "helpers \<Rightarrow> ((string \<times> string) list \<Rightarrow> (string \<times> string) list) \<Rightarrow> test_op list \<Rightarrow> world \<Rightarrow> bool \<times> world" where
  "run_test hp rng ops w =
     (case each (run_op hp) ops w of (r, w') \<Rightarrow> (r \<noteq> None, run_cleanups (hp_docker hp) rng (w_cleanups w') (w'\<lparr>w_cleanups := []\<rparr>)))"

section \<open>What the clean-ups do\<close>

definition stops :: "cleanup list \<Rightarrow> nat set" where
  "stops cs = {h. \<exists>n b l. StopContainer h n b l \<in> set cs}"

lemma stops_simps [simp]:
  "stops [] = {}" "stops (CancelContext k # cs) = stops cs" "stops (SuiteCleanup # cs) = stops cs"
  "stops (RemoveVolume v # cs) = stops cs" "stops (StopContainer h n b l # cs) = insert h (stops cs)"
  "stops (cs @ cs') = stops cs \<union> stops cs'"
  by (auto simp: stops_def)

definition is_running :: "docker_state \<Rightarrow> nat \<Rightarrow> bool" where
  "is_running ds h \<longleftrightarrow> (\<exists>c \<in> set (ds_containers ds). fst c = h \<and> snd (snd c))"

definition mounts :: "ContainerRequest \<Rightarrow> string \<Rightarrow> bool" where
  "mounts r v \<longleftrightarrow> v \<in> fst ` set (cr_Mounts r)"

definition unused :: "docker_state \<Rightarrow> string \<Rightarrow> bool" where
  "unused ds v \<longleftrightarrow> (\<forall>(h, r, b) \<in> set (ds_containers ds). \<not> mounts r v)"

text \<open>Docker does what it is asked: it knows which containers run, terminates them, and removes a volume that
  no container uses; files can be written.\<close>

definition reliable :: "docker \<Rightarrow> bool" where
  "reliable d \<longleftrightarrow> (\<forall>ds h. d_State d ds h = Inr (is_running ds h)) \<and> (\<forall>ds h. d_Terminate d ds h = None)
     \<and> (\<forall>ds v. unused ds v \<longrightarrow> d_VolumeRemove d ds v = None) \<and> (\<forall>path. d_WriteFile d path = None)"

lemma tick_simps [simp]:
  "ds_containers (w_docker (tick w)) = ds_containers (w_docker w)" "ds_next (w_docker (tick w)) = ds_next (w_docker w)"
  "ds_volumes (w_docker (tick w)) = ds_volumes (w_docker w)" "w_suite (tick w) = w_suite w" "w_vols (tick w) = w_vols w"
  "w_cleanups (tick w) = w_cleanups w" "w_logs (tick w) = w_logs w" "w_files (tick w) = w_files w"
  by (simp_all add: tick_def)

lemma CaptureArtifact_simps [simp]:
  "w_docker (CaptureArtifact n x w) = w_docker w" "w_cleanups (CaptureArtifact n x w) = w_cleanups w"
  "w_logs (CaptureArtifact n x w) = w_logs w" "w_vols (CaptureArtifact n x w) = w_vols w"
  "su_artifacts (w_suite (CaptureArtifact n x w)) = AList.update n x (su_artifacts (w_suite w))"
  "su_volume (w_suite (CaptureArtifact n x w)) = su_volume (w_suite w)"
  "su_opts (w_suite (CaptureArtifact n x w)) = su_opts (w_suite w)"
  by (simp_all add: CaptureArtifact_def)

lemma suite_cleanup_same [simp]:
  "w_docker (suite_cleanup d rng w) = w_docker w" "w_suite (suite_cleanup d rng w) = w_suite w" "w_logs (suite_cleanup d rng w) = w_logs w"
proof -
  have "w_docker (fold f xs w) = w_docker w \<and> w_suite (fold f xs w) = w_suite w \<and> w_logs (fold f xs w) = w_logs w"
    if "\<And>x w. w_docker (f x w) = w_docker w \<and> w_suite (f x w) = w_suite w \<and> w_logs (f x w) = w_logs w" for f :: "string \<times> string \<Rightarrow> world \<Rightarrow> world" and xs
    by (induction xs arbitrary: w) (simp_all add: that)
  then show "w_docker (suite_cleanup d rng w) = w_docker w" "w_suite (suite_cleanup d rng w) = w_suite w" "w_logs (suite_cleanup d rng w) = w_logs w"
    unfolding suite_cleanup_def Let_def by (simp_all split: prod.split option.split)
qed

definition left_over :: "nat set \<Rightarrow> (nat \<times> ContainerRequest \<times> bool) list \<Rightarrow> (nat \<times> ContainerRequest \<times> bool) list" where
  "left_over hs = filter (\<lambda>c. fst c \<notin> hs \<or> \<not> snd (snd c))"

lemma left_over_left_over [simp]: "left_over hs (left_over ks cs) = left_over (hs \<union> ks) cs"
  by (auto simp: left_over_def intro: filter_cong)

lemma left_over_empty [simp]: "left_over {} cs = cs"
  by (simp add: left_over_def)

lemma left_over_distinct: "distinct (map fst cs) \<Longrightarrow> distinct (map fst (left_over hs cs))"
  by (simp add: left_over_def distinct_map_filter)

lemma terminate_left_over:
  "distinct (map fst cs) \<Longrightarrow> (h, r, True) \<in> set cs \<Longrightarrow> filter (\<lambda>c. fst c \<noteq> h) cs = left_over {h} cs"
  unfolding left_over_def by (rule filter_cong) (fastforce simp: distinct_map inj_on_def)+

lemma run_cleanup_containers:
  assumes "reliable d" and "distinct (map fst (ds_containers (w_docker w)))"
  shows "ds_containers (w_docker (run_cleanup d rng c w)) = left_over (stops [c]) (ds_containers (w_docker w))"
proof (cases c)
  case (StopContainer h n b l)
  show ?thesis
  proof (cases "is_running (w_docker w) h")
    case True
    then obtain r where "(h, r, True) \<in> set (ds_containers (w_docker w))" by (auto simp: is_running_def)
    from terminate_left_over [OF assms(2) this] StopContainer True assms(1) show ?thesis by (simp add: reliable_def Let_def)
  next
    case False
    then have "left_over {h} (ds_containers (w_docker w)) = ds_containers (w_docker w)"
      by (auto simp: left_over_def is_running_def filter_id_conv)
    with StopContainer False assms(1) show ?thesis by (simp add: reliable_def Let_def)
  qed
qed (auto simp: Let_def split: option.split)

lemma run_cleanups_containers:
  "reliable d \<Longrightarrow> distinct (map fst (ds_containers (w_docker w))) \<Longrightarrow>
   ds_containers (w_docker (run_cleanups d rng cs w)) = left_over (stops cs) (ds_containers (w_docker w))"
proof (induction cs arbitrary: w)
  case (Cons c cs)
  note c = run_cleanup_containers [OF Cons.prems, of rng c]
  from Cons.prems(2) have "distinct (map fst (ds_containers (w_docker (run_cleanup d rng c w))))"
    unfolding c by (rule left_over_distinct)
  from Cons.IH [OF Cons.prems(1) this] have "ds_containers (w_docker (run_cleanups d rng (c # cs) w))
      = left_over (stops cs \<union> stops [c]) (ds_containers (w_docker w))" unfolding c by simp
  also have "stops cs \<union> stops [c] = stops (c # cs)" by (cases c) auto
  finally show ?case .
qed simp

lemma run_cleanups_append: "run_cleanups d rng (cs @ cs') w = run_cleanups d rng cs' (run_cleanups d rng cs w)"
  by (induction cs arbitrary: w) simp_all

text \<open>The volume goes if every container that mounts it is terminated before.\<close>

lemma run_cleanup_volume:
  "(\<forall>v. c \<noteq> RemoveVolume v) \<Longrightarrow> su_volume (w_suite (run_cleanup d rng c w)) = su_volume (w_suite w)
     \<and> ds_volumes (w_docker (run_cleanup d rng c w)) = ds_volumes (w_docker w)"
  by (cases c) (auto simp: Let_def split: sum.split option.split)

lemma run_cleanups_volume:
  "(\<forall>v. RemoveVolume v \<notin> set cs) \<Longrightarrow> su_volume (w_suite (run_cleanups d rng cs w)) = su_volume (w_suite w)
     \<and> ds_volumes (w_docker (run_cleanups d rng cs w)) = ds_volumes (w_docker w)"
proof (induction cs arbitrary: w)
  case (Cons c cs)
  with run_cleanup_volume [of c d rng w] show ?case by auto
qed simp

lemma run_cleanups_no_volumes:
  "ds_volumes (w_docker w) = [] \<Longrightarrow> ds_volumes (w_docker (run_cleanups d rng cs w)) = []"
proof (induction cs arbitrary: w)
  case (Cons c cs)
  then have "ds_volumes (w_docker (run_cleanup d rng c w)) = []"
    by (cases c) (auto simp: Let_def split: sum.split option.split)
  with Cons.IH show ?case by simp
qed simp

lemma remove_volume:
  assumes "reliable d" and "distinct (map fst (ds_containers (w_docker w)))"
    and "\<forall>v. RemoveVolume v \<notin> set xs" and "su_volume (w_suite w) \<noteq> None" and "ds_volumes (w_docker w) = [v]"
    and "\<forall>(h, r, b) \<in> set (ds_containers (w_docker w)). mounts r v \<longrightarrow> h \<in> stops xs \<and> b"
  shows "ds_volumes (w_docker (run_cleanups d rng (xs @ RemoveVolume v # ys) w)) = []"
proof -
  let ?w = "run_cleanups d rng xs w"
  have "unused (w_docker ?w) v"
    using assms(6) by (auto simp: unused_def run_cleanups_containers [OF assms(1,2)] left_over_def)
  then have "ds_volumes (w_docker (run_cleanup d rng (RemoveVolume v) ?w)) = []"
    using assms(1,4,5) run_cleanups_volume [OF assms(3), of d rng w] by (auto simp: reliable_def Let_def)
  then show ?thesis by (simp add: run_cleanups_append run_cleanups_no_volumes)
qed

text \<open>The logs are captured before the suite writes its artifacts.\<close>

lemma run_cleanup_logs [simp]: "log_bytes (run_cleanup d rng c w) l = log_bytes w l" "w_logs (run_cleanup d rng c w) = w_logs w"
  "su_opts (w_suite (run_cleanup d rng c w)) = su_opts (w_suite w)"
  by (cases c; auto simp: log_bytes_def Let_def split: sum.split option.split)+

lemma run_cleanups_logs [simp]: "log_bytes (run_cleanups d rng cs w) l = log_bytes w l"
  "su_opts (w_suite (run_cleanups d rng cs w)) = su_opts (w_suite w)"
  by (induction cs arbitrary: w) simp_all

lemma run_cleanup_artifacts:
  "su_artifacts (w_suite (run_cleanup d rng c w)) =
     (case c of StopContainer h n b l \<Rightarrow> if b then AList.update (n @ ''.log'') (log_bytes w l) (su_artifacts (w_suite w)) else su_artifacts (w_suite w)
      | _ \<Rightarrow> su_artifacts (w_suite w))"
  by (cases c) (auto simp: Let_def split: sum.split option.split)

lemma captured_log:
  assumes "StopContainer h n True l \<in> set cs"
  shows "\<exists>h' l'. StopContainer h' n True l' \<in> set cs
    \<and> map_of (su_artifacts (w_suite (run_cleanups d rng cs w))) (n @ ''.log'') = Some (log_bytes w l')"
  using assms
proof (induction cs rule: rev_induct)
  case (snoc c cs)
  show ?case
  proof (cases "\<exists>h l. c = StopContainer h n True l")
    case True
    then obtain h' l' where "c = StopContainer h' n True l'" by blast
    moreover from this have "map_of (su_artifacts (w_suite (run_cleanup d rng c w'))) (n @ ''.log'') = Some (log_bytes w' l')" for w'
      unfolding run_cleanup_artifacts by (simp add: update_conv)
    ultimately show ?thesis by (metis run_cleanups.simps run_cleanups_append run_cleanups_logs(1) in_set_conv_decomp)
  next
    case False
    then obtain h' l' where l': "StopContainer h' n True l' \<in> set cs"
      "map_of (su_artifacts (w_suite (run_cleanups d rng cs w))) (n @ ''.log'') = Some (log_bytes w l')" using snoc by auto
    moreover have "map_of (su_artifacts (w_suite (run_cleanup d rng c w'))) (n @ ''.log'') = map_of (su_artifacts (w_suite w')) (n @ ''.log'')" for w'
      unfolding run_cleanup_artifacts using False by (auto simp: update_conv split: cleanup.split)
    ultimately show ?thesis by (auto simp: run_cleanups_append)
  qed
qed simp

lemma suite_cleanup_files:
  assumes "reliable d" and "so_OutputDir (su_opts (w_suite w)) \<noteq> []" and "set (rng (su_artifacts (w_suite w))) = set (su_artifacts (w_suite w))"
  shows "set (w_files (suite_cleanup d rng w)) =
    set (w_files w) \<union> (\<lambda>(n, x). (path_Join (so_OutputDir (su_opts (w_suite w))) n, x)) ` set (su_artifacts (w_suite w))"
proof -
  let ?dir = "so_OutputDir (su_opts (w_suite w))"
  let ?f = "\<lambda>(name, data) w'. w'\<lparr>w_files := w_files w' @ [(path_Join ?dir name, data)]\<rparr>"
  have "set (w_files (fold ?f xs w')) = set (w_files w') \<union> (\<lambda>(n, x). (path_Join ?dir n, x)) ` set xs" for xs :: "(string \<times> string) list" and w' :: world
    by (induction xs arbitrary: w') auto
  moreover have "suite_cleanup d rng w = fold ?f (rng (su_artifacts (w_suite w))) w"
    using assms(1,2) by (simp add: suite_cleanup_def reliable_def Let_def case_prod_beta)
  ultimately show ?thesis using assms(3) by simp
qed

section \<open>What holds while a test runs\<close>

text \<open>
  The containers and volumes that exist are registered for clean-up, but for those in \<open>X\<close>: the suite's clean-up is at the bottom of the
  stack, every container has its own above the removal of a volume it mounts, and the volume of the suite is the only one.
\<close>

definition registered :: "nat set \<Rightarrow> world \<Rightarrow> bool" where
  "registered X w \<longleftrightarrow> fst ` set (ds_containers (w_docker w)) \<subseteq> stops (w_cleanups w) \<union> X"

definition handles_ok :: "world \<Rightarrow> bool" where
  "handles_ok w \<longleftrightarrow> distinct (map fst (ds_containers (w_docker w))) \<and> (\<forall>c \<in> set (ds_containers (w_docker w)). fst c < ds_next (w_docker w))"

definition mounts_ok :: "nat set \<Rightarrow> world \<Rightarrow> bool" where
  "mounts_ok X w \<longleftrightarrow>
     (\<forall>(h, r, b) \<in> set (ds_containers (w_docker w)). \<forall>v. mounts r v \<longrightarrow> RemoveVolume v \<in> set (w_cleanups w)
        \<and> (h \<notin> X \<longrightarrow> (\<forall>xs ys. w_cleanups w = xs @ RemoveVolume v # ys \<longrightarrow> h \<in> stops xs)))"

definition volume_ok :: "world \<Rightarrow> bool" where
  "volume_ok w \<longleftrightarrow>
     (case su_volume (w_suite w) of
        None \<Rightarrow> ds_volumes (w_docker w) = [] \<and> (\<forall>v. RemoveVolume v \<notin> set (w_cleanups w))
      | Some p \<Rightarrow> p < length (w_vols w) \<and> ds_volumes (w_docker w) = [vo_Name (w_vols w ! p)]
          \<and> (\<forall>v. RemoveVolume v \<in> set (w_cleanups w) \<longleftrightarrow> v = vo_Name (w_vols w ! p)))"

definition suite_inv :: "nat set \<Rightarrow> world \<Rightarrow> bool" where
  "suite_inv X w \<longleftrightarrow> registered X w \<and> handles_ok w \<and> mounts_ok X w \<and> volume_ok w
     \<and> (\<exists>cs. w_cleanups w = cs @ [SuiteCleanup])"

text \<open>The state after a step, or after the step that gave the test up: then at most one container is not registered.\<close>

definition holds :: "nat set \<Rightarrow> cleanup set \<Rightarrow> world \<Rightarrow> bool" where
  "holds V C w \<longleftrightarrow> suite_inv {} w \<and> C \<subseteq> set (w_cleanups w) \<and> V \<subseteq> set_option (su_volume (w_suite w))"

definition given_up :: "world \<Rightarrow> bool" where
  "given_up w \<longleftrightarrow> (\<exists>h. suite_inv {h} w)"

definition keeps :: "(world \<Rightarrow> bool) \<Rightarrow> 'a test \<Rightarrow> ('a \<Rightarrow> world \<Rightarrow> bool) \<Rightarrow> bool" where
  "keeps P m Q \<longleftrightarrow> (\<forall>w. P w \<longrightarrow> (case m w of (Some a, w') \<Rightarrow> Q a w' | (None, w') \<Rightarrow> given_up w'))"

lemma suite_inv_mono: "suite_inv X w \<Longrightarrow> X \<subseteq> Y \<Longrightarrow> suite_inv Y w"
  unfolding suite_inv_def registered_def mounts_ok_def by fast

lemma holds_given_up: "holds V C w \<Longrightarrow> given_up w"
  unfolding holds_def given_up_def using suite_inv_mono by blast

lemma keeps_bind: "keeps P m Q \<Longrightarrow> (\<And>a. keeps (Q a) (f a) R) \<Longrightarrow> keeps P (tbind m f) R"
  unfolding keeps_def tbind_def by (force split: option.splits prod.splits)

lemma keeps_return: "(\<And>w. P w \<Longrightarrow> Q a w) \<Longrightarrow> keeps P (treturn a) Q"
  by (simp add: keeps_def treturn_def)

lemma keeps_get: "keeps P (get f) (\<lambda>a w. P w \<and> a = f w)"
  by (simp add: keeps_def get_def)

lemma keeps_change: "(\<And>w. P w \<Longrightarrow> Q (f w)) \<Longrightarrow> keeps P (change f) (\<lambda>_. Q)"
  by (simp add: keeps_def change_def)

lemma keeps_ask: "(\<And>w. P w \<Longrightarrow> P (tick w)) \<Longrightarrow> (\<And>w. P w \<Longrightarrow> given_up w) \<Longrightarrow> keeps P (ask f) (\<lambda>_. P)"
  unfolding keeps_def ask_def by (auto split: sum.split)

lemma keeps_ask_err: "(\<And>w. P w \<Longrightarrow> P (tick w)) \<Longrightarrow> (\<And>w. P w \<Longrightarrow> given_up w) \<Longrightarrow> keeps P (ask_err f) (\<lambda>_. P)"
  unfolding ask_err_def by (rule keeps_ask)

lemma keeps_each: "(\<And>x. keeps P (f x) (\<lambda>_. P)) \<Longrightarrow> keeps P (each f xs) (\<lambda>_. P)"
  by (induction xs) (auto intro: keeps_bind keeps_return)

lemma keeps_weaken: "keeps P m Q \<Longrightarrow> (\<And>w. P' w \<Longrightarrow> P w) \<Longrightarrow> (\<And>a w. Q a w \<Longrightarrow> Q' a w) \<Longrightarrow> keeps P' m Q'"
  unfolding keeps_def by (force split: option.splits prod.splits)

text \<open>The invariant depends on a part of the world only.\<close>

lemma suite_inv_cong:
  assumes "ds_containers (w_docker w') = ds_containers (w_docker w)" "ds_next (w_docker w') = ds_next (w_docker w)"
    "ds_volumes (w_docker w') = ds_volumes (w_docker w)" "w_cleanups w' = w_cleanups w"
    "map vo_Name (w_vols w') = map vo_Name (w_vols w)" "su_volume (w_suite w') = su_volume (w_suite w)"
  shows "suite_inv X w' \<longleftrightarrow> suite_inv X w"
proof -
  have l: "length (w_vols w') = length (w_vols w)" using assms(5) by (rule map_eq_imp_length_eq)
  then have "vo_Name (w_vols w' ! p) = vo_Name (w_vols w ! p)" if "p < length (w_vols w)" for p
    using assms(5) that by (metis nth_map)
  then have "volume_ok w' \<longleftrightarrow> volume_ok w"
    unfolding volume_ok_def assms l by (auto split: option.split)
  then show ?thesis unfolding suite_inv_def registered_def handles_ok_def mounts_ok_def assms by simp
qed

lemma push_splits: "c # cs = xs @ y # ys \<longleftrightarrow> (xs = [] \<and> c = y \<and> cs = ys) \<or> (\<exists>zs. xs = c # zs \<and> cs = zs @ y # ys)"
  by (cases xs) auto

lemma stops_Cons: "stops (c # cs) = stops [c] \<union> stops cs"
  by (cases c) auto

lemma mounts_okI:
  assumes "\<And>h r b v. (h, r, b) \<in> set (ds_containers (w_docker w)) \<Longrightarrow> mounts r v \<Longrightarrow> RemoveVolume v \<in> set (w_cleanups w)"
    and "\<And>h r b v xs ys. (h, r, b) \<in> set (ds_containers (w_docker w)) \<Longrightarrow> mounts r v \<Longrightarrow> h \<notin> X \<Longrightarrow>
      w_cleanups w = xs @ RemoveVolume v # ys \<Longrightarrow> h \<in> stops xs"
  shows "mounts_ok X w"
  using assms unfolding mounts_ok_def by blast

lemma mounts_okD:
  assumes "mounts_ok X w" "(h, r, b) \<in> set (ds_containers (w_docker w))" "mounts r v"
  shows "RemoveVolume v \<in> set (w_cleanups w)" "h \<notin> X \<Longrightarrow> w_cleanups w = xs @ RemoveVolume v # ys \<Longrightarrow> h \<in> stops xs"
  using assms unfolding mounts_ok_def by blast+

lemma mounts_ok_push:
  assumes "mounts_ok X w" and "\<forall>v. c \<noteq> RemoveVolume v"
  shows "mounts_ok (X - stops [c]) (w_cleanups_update (Cons c) w)"
proof -
  have "h \<in> stops xs" if "(h, r, b) \<in> set (ds_containers (w_docker w))" "mounts r v" "h \<notin> X - stops [c]" "c # w_cleanups w = xs @ RemoveVolume v # ys"
    for h r b v xs ys
  proof -
    from that(4) assms(2) obtain zs where zs: "xs = c # zs" "w_cleanups w = zs @ RemoveVolume v # ys" unfolding push_splits by blast
    show ?thesis using that(1,2,3) zs assms(1) unfolding mounts_ok_def by (subst zs(1), subst stops_Cons) blast
  qed
  moreover have "RemoveVolume v \<in> set (c # w_cleanups w)" if "(h, r, b) \<in> set (ds_containers (w_docker w))" "mounts r v" for h r b v
    using mounts_okD [OF assms(1) that] by simp
  ultimately show ?thesis by (intro mounts_okI) simp_all
qed

lemma suite_inv_push:
  assumes "suite_inv X w" and "\<forall>v. c \<noteq> RemoveVolume v"
  shows "suite_inv (X - stops [c]) (w_cleanups_update (Cons c) w)"
proof -
  have "registered (X - stops [c]) (w_cleanups_update (Cons c) w)"
    using assms(1) unfolding suite_inv_def registered_def by (auto simp: stops_Cons [of c "w_cleanups w"])
  moreover have "volume_ok (w_cleanups_update (Cons c) w)"
    using assms unfolding suite_inv_def volume_ok_def by (auto split: option.splits)
  ultimately show ?thesis
    using assms mounts_ok_push [of X w c] unfolding suite_inv_def handles_ok_def by auto
qed

text \<open>The operations, from the bottom up.\<close>

lemma holds_tick: "holds V C w \<Longrightarrow> holds V C (tick w)"
  unfolding holds_def using suite_inv_cong [of "tick w" w] by auto

lemma keeps_asking: "keeps (holds V C) (ask f) (\<lambda>_. holds V C)" "keeps (holds V C) (ask_err g) (\<lambda>_. holds V C)"
  by (rule keeps_ask keeps_ask_err; erule holds_tick holds_given_up)+

lemma holds_push: "holds V C w \<Longrightarrow> \<forall>v. c \<noteq> RemoveVolume v \<Longrightarrow> holds V (insert c C) (w_cleanups_update (Cons c) w)"
  unfolding holds_def using suite_inv_push [of "{}" w c] by auto

lemma keeps_Context: "keeps (holds V C) Context (\<lambda>_. holds V C)"
proof -
  have "holds V C (w_cleanups_update (Cons (CancelContext k)) (w_contexts_update Suc w))" if "holds V C w" for k w
  proof -
    have "holds V C (w_contexts_update Suc w)"
      using that unfolding holds_def using suite_inv_cong [of "w_contexts_update Suc w" w] by auto
    from holds_push [OF this, of "CancelContext k"] show ?thesis unfolding holds_def by auto
  qed
  then show ?thesis by (simp add: keeps_def Context_def tbind_def get_def change_def Cleanup_def treturn_def)
qed

text \<open>A container that is not registered yet.\<close>

definition pending :: "nat \<Rightarrow> nat set \<Rightarrow> cleanup set \<Rightarrow> world \<Rightarrow> bool" where
  "pending h V C w \<longleftrightarrow> suite_inv {h} w \<and> C \<subseteq> set (w_cleanups w) \<and> V \<subseteq> set_option (su_volume (w_suite w))"

lemma pending_given_up: "pending h V C w \<Longrightarrow> given_up w"
  unfolding pending_def given_up_def by blast

lemma pending_tick: "pending h V C w \<Longrightarrow> pending h V C (tick w)"
  unfolding pending_def using suite_inv_cong [of "tick w" w] by auto

lemma started_pending:
  assumes "holds V C w" and "\<forall>v. mounts req v \<longrightarrow> RemoveVolume v \<in> C" and "h = ds_next (w_docker w)"
  shows "pending h V C (w_docker_update (\<lambda>s. s\<lparr>ds_containers := (h, req, b) # ds_containers s, ds_next := Suc h\<rparr>) w)"
proof -
  let ?w = "w_docker_update (\<lambda>s. s\<lparr>ds_containers := (h, req, b) # ds_containers s, ds_next := Suc h\<rparr>) w"
  have i: "registered {} w" "handles_ok w" "mounts_ok {} w" "volume_ok w" "\<exists>cs. w_cleanups w = cs @ [SuiteCleanup]" "C \<subseteq> set (w_cleanups w)"
    using assms(1) by (auto simp: holds_def suite_inv_def)
  have "registered {h} ?w" using i(1) by (auto simp: registered_def)
  moreover have "handles_ok ?w" using i(2) assms(3) by (fastforce simp: handles_ok_def)
  moreover have "mounts_ok {h} ?w"
    using assms(2) i(6) by (intro mounts_okI) (auto dest: mounts_okD [OF i(3)])
  moreover have "volume_ok ?w" using i(4) by (simp add: volume_ok_def split: option.splits)
  ultimately show ?thesis using i(5,6) assms(1) by (simp add: pending_def suite_inv_def holds_def)
qed

lemma keeps_GenericContainer:
  assumes "\<forall>v. mounts req v \<longrightarrow> RemoveVolume v \<in> C"
  shows "keeps (holds V C) (GenericContainer d req) (\<lambda>h. pending h V C)"
proof -
  have "case GenericContainer d req w of (Some h, w') \<Rightarrow> pending h V C w' | (None, w') \<Rightarrow> given_up w'" if w: "holds V C w" for w
  proof -
    note p = started_pending [OF holds_tick [OF w] assms refl]
    show ?thesis
      using p holds_given_up [OF holds_tick [OF w]] pending_given_up [OF p]
      by (auto simp: GenericContainer_def Let_def split: prod.split option.split)
  qed
  then show ?thesis by (simp add: keeps_def)
qed

lemma keeps_FollowOutput: "keeps (pending h V C) FollowOutput (\<lambda>_. pending h V C)"
proof -
  have "pending h V C (w_logs_update (\<lambda>b. b @ [[]]) w)" if "pending h V C w" for w
    using that unfolding pending_def using suite_inv_cong [of "w_logs_update (\<lambda>b. b @ [[]]) w" w] by auto
  then show ?thesis by (simp add: keeps_def FollowOutput_def tbind_def get_def change_def treturn_def)
qed

lemma keeps_register:
  "keeps (pending h V C) (Cleanup (StopContainer h n b l)) (\<lambda>_. holds V (insert (StopContainer h n b l) C))"
  unfolding Cleanup_def
proof (rule keeps_change)
  fix w
  assume "pending h V C w"
  then show "holds V (insert (StopContainer h n b l) C) (w_cleanups_update (Cons (StopContainer h n b l)) w)"
    unfolding pending_def holds_def using suite_inv_push [of "{h}" w "StopContainer h n b l"] by auto
qed

lemma keeps_map_ports: "keeps (holds V C) (map_ports d h m ps) (\<lambda>_. holds V C)"
  by (induction ps arbitrary: m) (auto intro!: keeps_bind [OF keeps_asking(1)] keeps_return)

lemma keeps_RunContainer:
  assumes "\<forall>v. mounts req v \<longrightarrow> RemoveVolume v \<in> C"
  shows "keeps (holds V C) (RunContainer d name b req) (\<lambda>_ w. \<exists>h l. holds V (insert (StopContainer h name b l) C) w)"
  unfolding RunContainer_def Let_def
proof (intro keeps_bind [OF keeps_Context] keeps_bind [OF keeps_get])
  fix ctx :: nat and s :: Suite
  let ?r = "req\<lparr>cr_Name := su_Name s @ ''-'' @ name, cr_AutoRemove := False, cr_SkipReaper := so_DisableReaper (su_opts s)\<rparr>"
  have "\<forall>v. mounts ?r v \<longrightarrow> RemoveVolume v \<in> C" using assms by (simp add: mounts_def)
  note g = keeps_weaken [OF keeps_GenericContainer [OF this, of V d], of "\<lambda>w. holds V C w \<and> s = w_suite w" "\<lambda>h. pending h V C"]
  have st: "keeps (pending h V C) (ask_err f) (\<lambda>_. pending h V C)" for h f
    by (rule keeps_ask_err; erule pending_tick pending_given_up)
  show "keeps (\<lambda>w. holds V C w \<and> s = w_suite w)
    (tbind (GenericContainer d ?r) (\<lambda>h. tbind FollowOutput (\<lambda>l. tbind (ask_err (\<lambda>ds. d_StartLogProducer d ds h)) (\<lambda>_.
       tbind (Cleanup (StopContainer h name b l)) (\<lambda>_. tbind (ask (\<lambda>ds. d_Host d ds h)) (\<lambda>hostIP.
       tbind (ask (\<lambda>ds. d_ContainerIP d ds h)) (\<lambda>containerIP. tbind (map_ports d h Map.empty (cr_ExposedPorts ?r)) (\<lambda>ports.
         treturn \<lparr>ct_handle = h, ct_Name = cr_Name ?r, ct_HostIP = hostIP, ct_ContainerIP = containerIP, ct_MappedPorts = ports\<rparr>))))))))
    (\<lambda>_ w. \<exists>h l. holds V (insert (StopContainer h name b l) C) w)"
    by (rule keeps_bind [OF g]) (auto intro!: keeps_bind [OF keeps_FollowOutput] keeps_bind [OF st] keeps_bind [OF keeps_register]
      keeps_bind [OF keeps_asking(1)] keeps_bind [OF keeps_map_ports] keeps_return)
qed

lemma new_volume:
  assumes "holds V C w" and "su_volume (w_suite w) = None"
    and w': "w' = w\<lparr>w_docker := (w_docker w)\<lparr>ds_volumes := v # ds_volumes (w_docker w)\<rparr>, w_cleanups := RemoveVolume v # w_cleanups w,
      w_vols := w_vols w @ [\<lparr>vo_Name = v, vo_container = None\<rparr>], w_suite := (w_suite w)\<lparr>su_volume := Some (length (w_vols w))\<rparr>\<rparr>"
  shows "holds {length (w_vols w)} C w'"
proof -
  have i: "registered {} w" "handles_ok w" "mounts_ok {} w" "volume_ok w" "\<exists>cs. w_cleanups w = cs @ [SuiteCleanup]" "C \<subseteq> set (w_cleanups w)"
    using assms(1) by (auto simp: holds_def suite_inv_def)
  have no: "\<not> mounts r x" if "(h, r, b) \<in> set (ds_containers (w_docker w))" for h r b x
    using mounts_okD(1) [OF i(3) that] i(4) assms(2) by (auto simp: volume_ok_def)
  have "mounts_ok {} w'" by (rule mounts_okI) (use no in \<open>auto simp: w'\<close>)
  moreover have "registered {} w'" "handles_ok w'" "volume_ok w'" "\<exists>cs. w_cleanups w' = cs @ [SuiteCleanup]"
    using i(1,2,4,5) assms(2) by (auto simp: w' registered_def handles_ok_def volume_ok_def)
  ultimately show ?thesis using i(6) by (auto simp: holds_def suite_inv_def w')
qed

text \<open>\<open>Context\<close> and the calls of Docker do not create the volume.\<close>

definition volumeless :: "nat set \<Rightarrow> cleanup set \<Rightarrow> world \<Rightarrow> bool" where
  "volumeless V C w \<longleftrightarrow> holds V C w \<and> su_volume (w_suite w) = None"

lemma keeps_volumeless:
  "keeps (volumeless V C) Context (\<lambda>_. volumeless V C)" "keeps (volumeless V C) (ask f) (\<lambda>_. volumeless V C)"
  "keeps (volumeless V C) (ask_err g) (\<lambda>_. volumeless V C)"
proof -
  have "su_volume (w_suite (snd (Context w))) = su_volume (w_suite w)" for w
    by (simp add: Context_def tbind_def get_def change_def Cleanup_def treturn_def)
  then show "keeps (volumeless V C) Context (\<lambda>_. volumeless V C)"
    using keeps_Context [of V C] by (auto simp: keeps_def volumeless_def split: prod.splits option.splits) (metis snd_conv)
  have t: "volumeless V C (tick w)" "given_up w" if "volumeless V C w" for w
    using that holds_tick holds_given_up by (auto simp: volumeless_def)
  then show "keeps (volumeless V C) (ask f) (\<lambda>_. volumeless V C)" "keeps (volumeless V C) (ask_err g) (\<lambda>_. volumeless V C)"
    by (auto intro: keeps_ask keeps_ask_err)
qed

lemma keeps_keep_volume: "keeps (volumeless V C) (keep_volume v) (\<lambda>p. holds {p} C)"
proof -
  have "holds {length (w_vols w)} C (w_suite_update (su_volume_update (\<lambda>_. Some (length (w_vols w))))
      (w_vols_update (\<lambda>vs. vs @ [\<lparr>vo_Name = v, vo_container = None\<rparr>]) (w_cleanups_update (Cons (RemoveVolume v)) (w_docker_update (ds_volumes_update (Cons v)) w))))"
    if "volumeless V C w" for w
    by (rule new_volume [of V C w _ v]) (use that in \<open>auto simp: volumeless_def\<close>)
  then show ?thesis by (simp add: keeps_def keep_volume_def tbind_def change_def get_def Cleanup_def treturn_def)
qed

lemma keeps_Volume: "keeps (holds V C) (Volume_of_suite d) (\<lambda>p. holds {p} C)"
  unfolding Volume_of_suite_def
proof (rule keeps_bind [OF keeps_get])
  fix v :: "nat option"
  have n: "keeps (volumeless V C) (get f) (\<lambda>_. volumeless V C)" for f :: "world \<Rightarrow> string"
    by (rule keeps_weaken [OF keeps_get]) auto
  have "keeps (volumeless V C) (create_volume d) (\<lambda>p. holds {p} C)" unfolding create_volume_def
    by (intro keeps_bind [OF keeps_volumeless(1)] keeps_bind [OF keeps_volumeless(2)] keeps_bind [OF keeps_volumeless(3)]
        keeps_bind [OF n] keeps_keep_volume)
  note create = keeps_weaken [OF this]
  show "keeps (\<lambda>w. holds V C w \<and> v = su_volume (w_suite w)) (case v of Some p \<Rightarrow> treturn p | None \<Rightarrow> create_volume d) (\<lambda>p. holds {p} C)"
    by (cases v) (auto intro!: keeps_return create simp: holds_def volumeless_def)
qed

text \<open>The names of the containers whose logs will be captured.\<close>

definition logged :: "world \<Rightarrow> string set" where
  "logged w = {n. \<exists>h l. StopContainer h n True l \<in> set (w_cleanups w)}"

lemma holds_mono: "holds V C w \<Longrightarrow> V' \<subseteq> V \<Longrightarrow> C' \<subseteq> C \<Longrightarrow> holds V' C' w"
  unfolding holds_def by blast

lemma keeps_any_volume: "keeps (holds V C) m Q \<Longrightarrow> keeps (holds (insert v V) C) m Q"
  by (erule keeps_weaken) (auto elim: holds_mono)

lemma run_logged:
  assumes "\<forall>v. mounts req v \<longrightarrow> RemoveVolume v \<in> C"
  shows "keeps (holds V C) (RunContainer d name b req) (\<lambda>_ w. holds V C w \<and> (if b then {name} else {}) \<subseteq> logged w)"
  by (rule keeps_weaken [OF keeps_RunContainer [OF assms, of V]]) (auto simp: holds_def logged_def, blast)

lemma run_kept: "\<forall>v. mounts req v \<longrightarrow> RemoveVolume v \<in> C \<Longrightarrow> keeps (holds V C) (RunContainer d name b req) (\<lambda>_. holds V C)"
  by (rule keeps_weaken [OF run_logged [of req C V]]) auto

lemma run_mounted:
  assumes "\<forall>v. mounts req v \<longrightarrow> v = x"
  shows "keeps (holds V (insert (RemoveVolume x) C)) (RunContainer d name True req) (\<lambda>_ w. holds {} C w \<and> {name} \<subseteq> logged w)"
  by (rule keeps_weaken [OF run_logged [of req "insert (RemoveVolume x) C" V]]) (use assms in \<open>auto elim: holds_mono\<close>)

lemma volume_registered: "holds {p} C w \<Longrightarrow> holds {p} (insert (RemoveVolume (vo_Name (w_vols w ! p))) C) w"
  unfolding holds_def suite_inv_def volume_ok_def by (auto split: option.splits)

lemma keeps_volume_name: "keeps (holds {p} C) (get (\<lambda>w. vo_Name (w_vols w ! p))) (\<lambda>v. holds {p} (insert (RemoveVolume v) C))"
  by (rule keeps_weaken [OF keeps_get]) (auto intro: volume_registered)

lemma keeps_look: "keeps P (get f) (\<lambda>_. P)"
  by (rule keeps_weaken [OF keeps_get]) auto

lemma mounts_one [simp]: "mounts (r\<lparr>cr_Mounts := [(x, t)]\<rparr>) v \<longleftrightarrow> v = x" "\<not> mounts zero_request v"
  by (simp_all add: mounts_def zero_request_def)

lemma mounts_update [simp]:
  "mounts (r\<lparr>cr_Image := i\<rparr>) = mounts r" "mounts (r\<lparr>cr_Cmd := c\<rparr>) = mounts r" "mounts (r\<lparr>cr_ExposedPorts := e\<rparr>) = mounts r"
  "mounts (r\<lparr>cr_NetworkMode := n\<rparr>) = mounts r" "mounts (r\<lparr>cr_Privileged := p\<rparr>) = mounts r" "mounts (r\<lparr>cr_WaitingFor := t\<rparr>) = mounts r"
  by (simp_all add: mounts_def fun_eq_iff)

lemma keeps_container_kept:
  "keeps (holds V C) (change (w_vols_update (\<lambda>vs. vs[p := (vs ! p)\<lparr>vo_container := c\<rparr>]))) (\<lambda>_. holds V C)"
proof (rule keeps_change)
  fix w
  have "map vo_Name (vs[p := (vs ! p)\<lparr>vo_container := c\<rparr>]) = map vo_Name vs" for vs :: "Volume list"
    by (cases "p < length vs") (auto simp: map_update list_update_same_conv list_update_beyond)
  then show "holds V C (w_vols_update (\<lambda>vs. vs[p := (vs ! p)\<lparr>vo_container := c\<rparr>]) w)" if "holds V C w"
    using that suite_inv_cong [of "w_vols_update (\<lambda>vs. vs[p := (vs ! p)\<lparr>vo_container := c\<rparr>]) w" w] by (simp add: holds_def)
qed

lemma keeps_WriteFile: "keeps (holds {p} C) (WriteFile d p name contents) (\<lambda>_. holds {p} C)"
  unfolding WriteFile_def
proof (rule keeps_bind [OF keeps_get])
  fix v :: Volume
  let ?C = "insert (RemoveVolume (vo_Name v)) C"
  have "keeps (holds {p} ?C) (case vo_container v of Some c \<Rightarrow> treturn c | None \<Rightarrow>
      tbind (RunContainer d ''volume'' False (zero_request\<lparr>cr_Image := pauseContainerImage, cr_Mounts := [(vo_Name v, ''/data'')]\<rparr>)) (\<lambda>c.
      tbind (change (w_vols_update (\<lambda>vs. vs[p := (vs ! p)\<lparr>vo_container := Some c\<rparr>]))) (\<lambda>_. treturn c))) (\<lambda>_. holds {p} ?C)"
    by (cases "vo_container v") (auto intro!: keeps_return keeps_bind [OF run_kept] keeps_bind [OF keeps_container_kept])
  note start = keeps_bind [OF keeps_weaken [OF this, of _ "\<lambda>_. holds {p} C"]]
  show "keeps (\<lambda>w. holds {p} C w \<and> v = w_vols w ! p) (tbind (case vo_container v of Some c \<Rightarrow> treturn c | None \<Rightarrow>
      tbind (RunContainer d ''volume'' False (zero_request\<lparr>cr_Image := pauseContainerImage, cr_Mounts := [(vo_Name v, ''/data'')]\<rparr>)) (\<lambda>c.
      tbind (change (w_vols_update (\<lambda>vs. vs[p := (vs ! p)\<lparr>vo_container := Some c\<rparr>]))) (\<lambda>_. treturn c)))
    (\<lambda>c. tbind Context (\<lambda>ctx. ask_err (\<lambda>ds. d_CopyToContainer d ds (ct_handle c) contents (path_Join ''/data'' name))))) (\<lambda>_. holds {p} C)"
    by (rule start) (auto intro: volume_registered elim: holds_mono intro!: keeps_bind [OF keeps_Context] keeps_asking(2))
qed

lemma keeps_exec_all: "keeps (holds V C) (exec_all d c cmds) (\<lambda>_. holds V C)"
  unfolding exec_all_def by (intro keeps_each keeps_asking)

lemma keeps_RunPod: "keeps (holds V C) (RunPod d name ports) (\<lambda>_. holds V C)"
  unfolding RunPod_def by (rule run_kept) simp

lemma keeps_Expose: "keeps (holds V C) (ExposeInternalPorts d nl pod ports) (\<lambda>_. holds V C)"
  unfolding ExposeInternalPorts_def
  by (rule keeps_bind [OF run_kept], simp, intro keeps_each keeps_bind [OF keeps_Context] keeps_exec_all)

lemma keeps_RunService: "keeps (holds V C) (RunService d q pod name) (\<lambda>_ w. holds V C w \<and> {name} \<subseteq> logged w)"
  unfolding RunService_def by (rule keeps_weaken [OF run_logged]) auto

lemma keeps_GenerateServerTLS: "keeps (holds V C) (GenerateServerTLS d) (\<lambda>_. holds {} C)"
  unfolding GenerateServerTLS_def
  by (intro keeps_bind [OF keeps_Context] keeps_bind [OF keeps_Volume] keeps_bind [OF keeps_volume_name] keeps_bind [OF keeps_look]
      keeps_bind [OF run_kept]) (auto intro!: keeps_weaken [OF keeps_exec_all] elim: holds_mono)

lemma keeps_asking_logged: "keeps (\<lambda>w. holds V C w \<and> N \<subseteq> logged w) (ask_err f) (\<lambda>_ w. holds V C w \<and> N \<subseteq> logged w)"
  by (rule keeps_ask_err) (auto simp: logged_def intro: holds_tick holds_given_up)

lemma keeps_RunServer: "keeps (holds V C) (RunServer d nl http grpc) (\<lambda>_ w. holds {} C w \<and> {''server''} \<subseteq> logged w)"
  unfolding RunServer_def Let_def
proof (intro keeps_bind [OF keeps_GenerateServerTLS] keeps_bind [OF keeps_Volume] keeps_bind [OF keeps_WriteFile]
    keeps_bind [OF keeps_volume_name] keeps_bind [OF keeps_look] keeps_bind [OF run_mounted] keeps_bind [OF keeps_asking_logged])
qed (auto intro: keeps_return)

lemma keeps_RunDataplane:
  "keeps (holds V C) (RunDataplane_container d port pod cfg) (\<lambda>_ w. holds {} C w \<and> {tc_ProxyServiceID cfg @ ''-dataplane''} \<subseteq> logged w)"
  unfolding RunDataplane_container_def
  by (intro keeps_bind [OF keeps_Volume] keeps_bind [OF keeps_volume_name] keeps_bind [OF keeps_look] run_mounted) simp

fun captures :: "test_op \<Rightarrow> string list" where
  "captures (OpRunServer http grpc) = [''server'']"
| "captures (OpRunService pod name) = [name]"
| "captures (OpRunDataplane pod cfg) = [tc_ProxyServiceID cfg @ ''-dataplane'']"
| "captures _ = []"

lemma suite_inv_exits: "suite_inv X w \<Longrightarrow> suite_inv X (exits h w)"
proof -
  let ?f = "\<lambda>(k, r :: ContainerRequest, b). (k, r, b \<and> k \<noteq> h)"
  assume i: "suite_inv X w"
  have f: "fst \<circ> ?f = fst" by auto
  then have "fst ` ?f ` A = fst ` A" for A by (simp only: image_comp)
  note f = f this
  have "(k, r, b) \<in> set (map ?f cs) \<Longrightarrow> \<exists>b'. (k, r, b') \<in> set cs" for k r b cs by auto
  then have "mounts_ok X (exits h w)"
    using i by (intro mounts_okI) (auto simp: exits_def suite_inv_def dest: mounts_okD)
  moreover have "(\<forall>c \<in> set (map ?f cs). fst c < n) \<longleftrightarrow> (\<forall>c \<in> set cs. fst c < n)" for cs n by force
  ultimately show ?thesis
    using i f by (simp add: suite_inv_def registered_def handles_ok_def volume_ok_def exits_def split: option.splits)
qed

lemma holds_observed:
  "holds V C w \<Longrightarrow> holds V C (CaptureArtifact n x w)" "holds V C w \<Longrightarrow> holds V C (Accept l y w)" "holds V C w \<Longrightarrow> holds V C (exits h w)"
proof -
  assume w: "holds V C w"
  show "holds V C (CaptureArtifact n x w)" using w suite_inv_cong [of "CaptureArtifact n x w" w] by (simp add: holds_def)
  show "holds V C (Accept l y w)" using w suite_inv_cong [of "Accept l y w" w] by (simp add: holds_def Accept_def)
  show "holds V C (exits h w)" using w suite_inv_exits by (simp add: holds_def exits_def)
qed

lemma keeps_run_op: "keeps (holds {} C) (run_op hp op) (\<lambda>_ w. holds {} C w \<and> set (captures op) \<subseteq> logged w)"
proof (cases op)
  case (OpRunServer http grpc)
  then show ?thesis by (auto intro!: keeps_bind [OF keeps_RunServer] keeps_return)
next
  case (OpRunService pod name)
  then show ?thesis by (auto intro!: keeps_bind [OF keeps_RunService] keeps_return)
next
  case (OpRunDataplane pod cfg)
  then show ?thesis by (auto intro!: keeps_bind [OF keeps_RunDataplane] keeps_return)
next
  case (OpWriteFile name contents)
  then show ?thesis by (auto intro!: keeps_bind [OF keeps_Volume] keeps_weaken [OF keeps_WriteFile] elim: holds_mono)
qed (auto intro!: keeps_bind [OF keeps_RunPod] keeps_return keeps_weaken [OF keeps_Expose] keeps_change holds_observed)

lemma keeps_body: "keeps (holds {} C) (each (run_op hp) ops) (\<lambda>_ w. holds {} C w \<and> (\<forall>op \<in> set ops. set (captures op) \<subseteq> logged w))"
proof (induction ops arbitrary: C)
  case (Cons op ops)
  have "keeps (\<lambda>w. holds {} C w \<and> set (captures op) \<subseteq> logged w) (each (run_op hp) ops)
      (\<lambda>_ w. holds {} C w \<and> (\<forall>op \<in> set (op # ops). set (captures op) \<subseteq> logged w))"
    unfolding keeps_def
  proof (intro allI impI)
    fix w
    assume w: "holds {} C w \<and> set (captures op) \<subseteq> logged w"
    then have "holds {} (set (w_cleanups w)) w" by (simp add: holds_def)
    from Cons.IH [of "set (w_cleanups w)", unfolded keeps_def, rule_format, OF this]
    show "case each (run_op hp) ops w of (Some a, w') \<Rightarrow> holds {} C w' \<and> (\<forall>op \<in> set (op # ops). set (captures op) \<subseteq> logged w')
        | (None, w') \<Rightarrow> given_up w'"
      using w by (auto simp: holds_def logged_def split: prod.splits option.splits) blast+
  qed
  then show ?case by (auto intro: keeps_bind [OF keeps_run_op])
qed (auto intro: keeps_return)

text \<open>The options of the suite stay as they are.\<close>

definition same_opts :: "'a test \<Rightarrow> bool" where
  "same_opts m \<longleftrightarrow> (\<forall>w. su_opts (w_suite (snd (m w))) = su_opts (w_suite w))"

lemma same_opts_bind: "same_opts m \<Longrightarrow> (\<And>a. same_opts (f a)) \<Longrightarrow> same_opts (tbind m f)"
  unfolding same_opts_def tbind_def by (auto split: prod.split option.split) (metis snd_conv)+

lemma same_opts_basic:
  "same_opts (treturn a)" "same_opts (get g)" "same_opts (ask f)" "same_opts (ask_err e)" "same_opts (Cleanup c)" "same_opts (GenericContainer d req)"
  by (auto simp: same_opts_def treturn_def get_def ask_def ask_err_def Cleanup_def change_def GenericContainer_def Let_def
      split: sum.split prod.split option.split)

lemma same_opts_change: "(\<And>w. su_opts (w_suite (f w)) = su_opts (w_suite w)) \<Longrightarrow> same_opts (change f)"
  by (simp add: same_opts_def change_def)

lemma same_opts_each: "(\<And>x. same_opts (f x)) \<Longrightarrow> same_opts (each f xs)"
  by (induction xs) (auto intro: same_opts_bind same_opts_basic)

lemma same_opts_map_ports: "same_opts (map_ports d h m ps)"
  by (induction ps arbitrary: m) (auto intro: same_opts_bind same_opts_basic)

lemma same_opts_RunContainer: "same_opts (RunContainer d n b req)"
  unfolding RunContainer_def Context_def FollowOutput_def Let_def
  by (intro same_opts_bind same_opts_basic same_opts_map_ports same_opts_change) simp_all

lemma same_opts_Volume: "same_opts (Volume_of_suite d)"
proof -
  have "same_opts (create_volume d)"
    unfolding create_volume_def keep_volume_def Context_def by (intro same_opts_bind same_opts_basic same_opts_change) simp_all
  then show ?thesis unfolding Volume_of_suite_def by (auto intro!: same_opts_bind same_opts_basic split: option.split)
qed

lemma same_opts_WriteFile: "same_opts (WriteFile d p n x)"
  unfolding WriteFile_def Context_def
  by (auto intro!: same_opts_bind same_opts_basic same_opts_change same_opts_RunContainer split: option.split)

lemma same_opts_run_op: "same_opts (run_op hp op)"
proof (cases op)
  case (OpExposeInternalPorts pod ports)
  show ?thesis unfolding OpExposeInternalPorts run_op.simps ExposeInternalPorts_def exec_all_def Context_def
    by (intro same_opts_bind same_opts_RunContainer same_opts_each same_opts_basic same_opts_change) simp_all
next
  case (OpRunServer http grpc)
  show ?thesis unfolding OpRunServer run_op.simps RunServer_def GenerateServerTLS_def exec_all_def Context_def Let_def
    by (intro same_opts_bind same_opts_RunContainer same_opts_each same_opts_basic same_opts_change same_opts_Volume same_opts_WriteFile) simp_all
qed (auto simp: RunPod_def RunService_def RunDataplane_container_def Accept_def exits_def
    intro!: same_opts_bind same_opts_basic same_opts_RunContainer same_opts_Volume same_opts_WriteFile same_opts_change)

lemma body_state:
  assumes "each (run_op hp) ops (NewSuite now opts ds) = (r, w)" and "ds_containers ds = []" and "ds_volumes ds = []"
  shows "su_opts (w_suite w) = opts" "r = None \<Longrightarrow> given_up w"
    "r \<noteq> None \<Longrightarrow> suite_inv {} w \<and> (\<forall>op \<in> set ops. set (captures op) \<subseteq> logged w)"
proof -
  have "holds {} {} (NewSuite now opts ds)"
    using assms(2,3) by (simp add: holds_def suite_inv_def registered_def handles_ok_def mounts_ok_def volume_ok_def NewSuite_def)
  note keeps_body [of "{}" hp ops, unfolded keeps_def, rule_format, OF this, unfolded assms(1)]
  then show "r = None \<Longrightarrow> given_up w" "r \<noteq> None \<Longrightarrow> suite_inv {} w \<and> (\<forall>op \<in> set ops. set (captures op) \<subseteq> logged w)"
    by (auto simp: holds_def)
  have "same_opts (each (run_op hp) ops)" by (intro same_opts_each same_opts_run_op)
  then have "su_opts (w_suite (snd (each (run_op hp) ops (NewSuite now opts ds)))) = su_opts (w_suite (NewSuite now opts ds))"
    unfolding same_opts_def ..
  then show "su_opts (w_suite w) = opts" unfolding assms(1) by (simp add: NewSuite_def)
qed

lemma left_after_test:
  assumes "reliable d" and "suite_inv X w"
  shows "\<forall>(h, r, b) \<in> set (ds_containers (w_docker (run_cleanups d rng (w_cleanups w) (w\<lparr>w_cleanups := []\<rparr>)))). b \<longrightarrow> h \<in> X"
  using assms run_cleanups_containers [of d "w\<lparr>w_cleanups := []\<rparr>" rng "w_cleanups w"]
  by (fastforce simp: suite_inv_def handles_ok_def registered_def left_over_def)

lemma nothing_left:
  fixes rng :: "(string \<times> string) list \<Rightarrow> (string \<times> string) list"
  assumes d: "reliable d" and i: "suite_inv {} w" and run: "\<forall>(h, r, b) \<in> set (ds_containers (w_docker w)). b"
  defines "w' \<equiv> run_cleanups d rng (w_cleanups w) (w\<lparr>w_cleanups := []\<rparr>)"
  shows "ds_containers (w_docker w') = []" "ds_volumes (w_docker w') = []"
proof -
  note inv = i [unfolded suite_inv_def handles_ok_def]
  have "left_over (stops (w_cleanups w)) (ds_containers (w_docker w)) = []"
    using inv run by (auto simp: left_over_def registered_def filter_empty_conv)
  then show "ds_containers (w_docker w') = []"
    using inv run_cleanups_containers [OF d, of "w\<lparr>w_cleanups := []\<rparr>" rng "w_cleanups w"] by (simp add: w'_def)
  show "ds_volumes (w_docker w') = []"
  proof (cases "su_volume (w_suite w)")
    case None
    then show ?thesis using inv run_cleanups_no_volumes [of "w\<lparr>w_cleanups := []\<rparr>" d rng "w_cleanups w"] by (simp add: w'_def volume_ok_def)
  next
    case (Some p)
    let ?v = "vo_Name (w_vols w ! p)"
    have v: "ds_volumes (w_docker w) = [?v]" "RemoveVolume x \<in> set (w_cleanups w) \<longleftrightarrow> x = ?v" for x using inv Some by (auto simp: volume_ok_def)
    then obtain xs ys where c: "w_cleanups w = xs @ RemoveVolume ?v # ys" "RemoveVolume ?v \<notin> set xs" by (metis split_list_first)
    with v(2) have "\<forall>x. RemoveVolume x \<notin> set xs" by (metis Un_iff set_append)
    moreover have "\<forall>(h, r, b) \<in> set (ds_containers (w_docker w)). mounts r ?v \<longrightarrow> h \<in> stops xs \<and> b"
      using run inv by (auto dest: mounts_okD(2) [OF _ _ _ _ c(1)])
    ultimately show ?thesis
      using remove_volume [OF d, of "w\<lparr>w_cleanups := []\<rparr>" xs ?v rng ys] inv v(1) Some by (simp add: w'_def c(1))
  qed
qed

lemma logs_written:
  assumes d: "reliable d" and rng: "\<forall>xs. set (rng xs) = set xs" and c: "w_cleanups w = cs @ [SuiteCleanup]"
    and n: "n \<in> logged w" and dir: "so_OutputDir (su_opts (w_suite w)) \<noteq> []"
  shows "\<exists>h l. StopContainer h n True l \<in> set (w_cleanups w)
    \<and> (path_Join (so_OutputDir (su_opts (w_suite w))) (n @ ''.log''), log_bytes w l)
        \<in> set (w_files (run_cleanups d rng (w_cleanups w) (w\<lparr>w_cleanups := []\<rparr>)))"
proof -
  let ?w = "w\<lparr>w_cleanups := []\<rparr>"
  let ?w1 = "run_cleanups d rng cs ?w"
  from n c obtain h l where "StopContainer h n True l \<in> set cs" by (auto simp: logged_def)
  from captured_log [OF this, of d rng ?w] obtain h' l' where l': "StopContainer h' n True l' \<in> set cs"
    "(n @ ''.log'', log_bytes ?w l') \<in> set (su_artifacts (w_suite ?w1))" by (blast dest: map_of_SomeD)
  have o: "su_opts (w_suite ?w1) = su_opts (w_suite w)" by simp
  with suite_cleanup_files [OF d, of ?w1 rng] dir rng l'(2)
  have "(path_Join (so_OutputDir (su_opts (w_suite w))) (n @ ''.log''), log_bytes ?w l') \<in> set (w_files (suite_cleanup d rng ?w1))"
    by force
  moreover have "log_bytes ?w l' = log_bytes w l'" by (simp add: log_bytes_def)
  moreover have "run_cleanups d rng (w_cleanups w) ?w = suite_cleanup d rng ?w1" by (simp add: c run_cleanups_append)
  moreover have "StopContainer h' n True l' \<in> set (w_cleanups w)" using l'(1) c by simp
  ultimately show ?thesis by metis
qed


definition sample_docker :: docker where
  "sample_docker = \<lparr>d_GenericContainer = (\<lambda>_ _. (True, None)), d_StartLogProducer = (\<lambda>_ _. None), d_State = (\<lambda>ds h. Inr (is_running ds h)),
     d_Terminate = (\<lambda>_ _. None), d_Host = (\<lambda>_ _. Inr ''localhost''), d_ContainerIP = (\<lambda>_ _. Inr ''172.17.0.2''),
     d_MappedPort = (\<lambda>_ _ _. Inr 32768), d_Exec = (\<lambda>_ _ _. None), d_CopyToContainer = (\<lambda>_ _ _ _. None), d_NewDockerClient = (\<lambda>_. None),
     d_VolumeCreate = (\<lambda>_ name. Inr name), d_VolumeRemove = (\<lambda>ds v. if unused ds v then None else Some (Err ''volume is in use'')),
     d_NewClient = (\<lambda>_ _ _. None), d_WriteFile = (\<lambda>_. None)\<rparr>"

definition sample_helpers :: "docker \<Rightarrow> helpers" where
  "sample_helpers d = \<lparr>hp_docker = d, hp_nat = \<lparr>nt_NewPort = (\<lambda>proto port. Inr (port @ ''/'' @ proto)),
       nt_Proto = (\<lambda>p. drop (Suc (length (takeWhile (\<lambda>c. c \<noteq> CHR ''/'') p))) p), nt_Port = takeWhile (\<lambda>c. c \<noteq> CHR ''/'')\<rparr>,
     hp_quoted = (\<lambda>s. CHR 0x22 # s @ [CHR 0x22]), hp_adminPort = ''30000''\<rparr>"

definition sample_options :: SuiteOptions where
  "sample_options = \<lparr>so_OutputDir = ''out'', so_DisableReaper = True, so_ServerImage = ''consul'', so_ServerVersion = ''v1.20.0'',
     so_DataplaneImage = ''consul-dataplane''\<rparr>"

definition no_docker :: docker_state where
  "no_docker = \<lparr>ds_containers = [], ds_next = 0, ds_volumes = [], ds_calls = 0\<rparr>"

definition sample_pod :: Pod where
  "sample_pod = \<lparr>ct_handle = 0, ct_Name = ''int-7-frontend-pod'', ct_HostIP = [], ct_ContainerIP = [], ct_MappedPorts = Map.empty\<rparr>"

lemma sample_reliable: "reliable sample_docker"
  by (simp add: reliable_def sample_docker_def)

definition sample_ops :: "test_op list" where
  "sample_ops = [OpWriteFile ''ca.pem'' ''x'', OpRunPod ''frontend'' [''8080/tcp''], OpRunService sample_pod ''frontend'', OpOutput 2 ''listening'']"


text \<open>A container whose log producer cannot be started has no clean-up yet: the test is given up and the container keeps running.\<close>

lemma log_producer_failure_leaks:
  "\<exists>d. reliable d \<and> map (snd \<circ> snd) (ds_containers (w_docker (snd
     (run_test (sample_helpers d) (\<lambda>xs. xs) [OpRunPod ''frontend'' []] (NewSuite 7 sample_options no_docker))))) = [True]"
proof (intro exI conjI)
  let ?d = "sample_docker\<lparr>d_StartLogProducer := \<lambda>_ _. Some (Err ''connection refused'')\<rparr>"
  show "reliable ?d" using sample_reliable by (simp add: reliable_def)
  show "map (snd \<circ> snd) (ds_containers (w_docker (snd
     (run_test (sample_helpers ?d) (\<lambda>xs. xs) [OpRunPod ''frontend'' []] (NewSuite 7 sample_options no_docker))))) = [True]"
    by code_simp
qed

text \<open>A container that has ended by itself is not removed, and it keeps the volume.\<close>

lemma ended_container_keeps_volume:
  "case run_test (sample_helpers sample_docker) (\<lambda>xs. xs) [OpWriteFile ''ca.pem'' ''x'', OpExits 0] (NewSuite 7 sample_options no_docker) of
     (passed, w) \<Rightarrow> passed \<and> map fst (ds_containers (w_docker w)) = [0] \<and> ds_volumes (w_docker w) = [''int-7-volume'']"
  by code_simp

end
