(* ===== verification/Test_Dataplane.thy ===== *)
theory Test_Dataplane
  imports Main_Process Test_Suite
begin

text \<open>
  The integration tests against the command: the command line that a test container is started with
  (\<open>ToArgs\<close> of \<open>integration-tests/helpers/dataplane.go\<close>) goes through the flags, the checks and the validation
  of the command, and gives a dataplane with the settings of the test.
\<close>

section \<open>The environment of a test container\<close>

text \<open>No environment variable is set, so the flags start from empty settings.\<close>

fun unset :: "flag_decl \<Rightarrow> bool" where
  "unset (StringFlag n e u) \<longleftrightarrow> u None empty_DataplaneConfigFlags = empty_DataplaneConfigFlags"
| "unset (IntFlag n e u) \<longleftrightarrow> u None empty_DataplaneConfigFlags = empty_DataplaneConfigFlags"
| "unset (BoolFlag n e u) \<longleftrightarrow> u None empty_DataplaneConfigFlags = empty_DataplaneConfigFlags"
| "unset (DurationFlag n e u) \<longleftrightarrow> u None empty_DataplaneConfigFlags = empty_DataplaneConfigFlags"
| "unset (MapFlag n e u) \<longleftrightarrow> True"

lemma declared_unset: "list_all unset declared_flags"
  by (simp add: declared_defs empty_flag_defs)

lemma no_multi_value: "multiValueEnv (\<lambda>_. None) e = []"
  by (simp add: multiValueEnv_def List.map_filter_def Let_def)

lemma declare_unset:
  assumes "declare_flag rng (\<lambda>_. None) d s = Ok s'" and "unset d" and "in_opts s = empty_FlagOpts" and "rng [] = []"
  shows "in_opts s' = empty_FlagOpts"
  using assms by (cases d) (auto simp: StringVar_def IntVar_def BoolVar_def DurationVar_def PtrVar_def MapVar_def parseEnv_def
      parseEnvError_def no_multi_value Let_def empty_FlagOpts_def)

lemma init_unset:
  assumes "init rng (\<lambda>_. None) = Ok s" and "rng [] = []"
  shows "in_opts s = empty_FlagOpts"
proof -
  have "in_opts s' = empty_FlagOpts" if "declare_flags rng (\<lambda>_. None) ds s0 = Ok s'" "list_all unset ds" "in_opts s0 = empty_FlagOpts" for ds s0 s'
    using that
  proof (induction ds arbitrary: s0)
    case (Cons d ds)
    then obtain s1 where s1: "declare_flag rng (\<lambda>_. None) d s0 = Ok s1" "declare_flags rng (\<lambda>_. None) ds s1 = Ok s'" by (auto simp: go_simps)
    have "in_opts s1 = empty_FlagOpts" by (rule declare_unset [OF s1(1)]) (use Cons.prems assms(2) in auto)
    with Cons s1(2) show ?case by simp
  qed simp
  from this [OF assms(1) [unfolded init_def] declared_unset] show ?thesis by simp
qed

section \<open>The settings of a test\<close>

definition decl_of :: "string \<Rightarrow> flag_decl" where
  "decl_of n = hd (filter (\<lambda>d. decl_name d = n) declared_flags)"

definition setting :: "string \<Rightarrow> string \<Rightarrow> bool \<times> flag_form \<times> flag_decl \<times> string" where
  "setting n v = (False, Separate, decl_of n, v)"

definition switched_on :: "string \<Rightarrow> bool \<times> flag_form \<times> flag_decl \<times> string" where
  "switched_on n = (False, Bare, decl_of n, ''true'')"

definition test_settings :: "string \<Rightarrow> DataplaneConfig \<Rightarrow> (bool \<times> flag_form \<times> flag_decl \<times> string) list" where
  "test_settings adminPort tc =
     [setting ''addresses'' (tc_Addresses tc), setting ''service-node-name'' (tc_ServiceNodeName tc),
      setting ''proxy-service-id'' (tc_ProxyServiceID tc), setting ''envoy-admin-bind-address'' ''0.0.0.0'',
      setting ''envoy-admin-bind-port'' adminPort, setting ''credential-type'' ''login'',
      setting ''login-auth-method'' (tc_LoginAuthMethod tc), setting ''login-bearer-token'' (tc_LoginBearerToken tc),
      setting ''ca-certs'' ''/data/ca-cert.pem'', setting ''tls-server-name'' ''server.dc1.consul'', setting ''log-level'' ''debug'',
      setting ''consul-dns-bind-port'' (tc_DNSBindPort tc), switched_on ''telemetry-use-central-config'',
      setting ''telemetry-prom-scrape-path'' ''/metrics'', setting ''telemetry-prom-service-metrics-url'' (tc_ServiceMetricsURL tc)]
     @ (if tc_ShutdownGracePeriodSeconds tc \<noteq> [] then [setting ''shutdown-grace-period-seconds'' (tc_ShutdownGracePeriodSeconds tc)] else [])
     @ (if tc_ShutdownDrainListenersEnabled tc then [switched_on ''shutdown-drain-listeners''] else [])
     @ (if tc_DumpEnvoyConfigOnExitEnabled tc then [switched_on ''dump-envoy-config-on-exit''] else [])"

lemma filter_by_key:
  assumes "x \<in> set xs" and "distinct (map f xs)"
  shows "filter (\<lambda>y. f y = f x) xs = [x]"
  using assms by (induction xs) (auto simp: filter_empty_conv image_iff)

lemma decl_of_name:
  assumes "d \<in> set declared_flags" and "decl_name d = n"
  shows "decl_of n = d"
  using filter_by_key [OF assms(1) declared_names_distinct] assms(2) by (simp add: decl_of_def)

lemma decls_consul:
  "decl_of ''addresses'' = StringFlag ''addresses'' ''DP_CONSUL_ADDRESSES'' (\<lambda>v. df_Consul_update (cf_Addresses_update (\<lambda>_. v)))"
  "decl_of ''log-level'' = StringFlag ''log-level'' ''DP_LOG_LEVEL'' (\<lambda>v. df_Logging_update (gf_LogLevel_update (\<lambda>_. v)))"
  by (rule decl_of_name; simp add: declared_flags_def flags_consul_def)+

lemma decls_service:
  "decl_of ''service-node-name'' = StringFlag ''service-node-name'' ''DP_SERVICE_NODE_NAME'' (\<lambda>v. df_Service_update (svf_NodeName_update (\<lambda>_. v)))"
  "decl_of ''proxy-service-id'' = StringFlag ''proxy-service-id'' ''DP_PROXY_SERVICE_ID'' (\<lambda>v. df_Service_update (svf_ServiceID_update (\<lambda>_. v)))"
  by (rule decl_of_name; simp add: declared_flags_def flags_service_def)+

lemma decls_credentials:
  "decl_of ''credential-type'' = StringFlag ''credential-type'' ''DP_CREDENTIAL_TYPE'' (\<lambda>v. df_Consul_update (cf_Credentials_update (crf_Type_update (\<lambda>_. v))))"
  "decl_of ''login-auth-method'' = StringFlag ''login-auth-method'' ''DP_CREDENTIAL_LOGIN_AUTH_METHOD'' (\<lambda>v. df_Consul_update (cf_Credentials_update (crf_Login_update (lf_AuthMethod_update (\<lambda>_. v)))))"
  "decl_of ''login-bearer-token'' = StringFlag ''login-bearer-token'' ''DP_CREDENTIAL_LOGIN_BEARER_TOKEN'' (\<lambda>v. df_Consul_update (cf_Credentials_update (crf_Login_update (lf_BearerToken_update (\<lambda>_. v)))))"
  by (rule decl_of_name; simp add: declared_flags_def flags_credentials_def)+

lemma decls_telemetry:
  "decl_of ''telemetry-use-central-config'' = BoolFlag ''telemetry-use-central-config'' ''DP_TELEMETRY_USE_CENTRAL_CONFIG'' (\<lambda>v. df_Telemetry_update (tmf_UseCentralConfig_update (\<lambda>_. v)))"
  "decl_of ''telemetry-prom-scrape-path'' = StringFlag ''telemetry-prom-scrape-path'' ''DP_TELEMETRY_PROM_SCRAPE_PATH'' (\<lambda>v. df_Telemetry_update (tmf_Prometheus_update (pmf_ScrapePath_update (\<lambda>_. v))))"
  "decl_of ''telemetry-prom-service-metrics-url'' = StringFlag ''telemetry-prom-service-metrics-url'' ''DP_TELEMETRY_PROM_SERVICE_METRICS_URL'' (\<lambda>v. df_Telemetry_update (tmf_Prometheus_update (pmf_ServiceMetricsURL_update (\<lambda>_. v))))"
  by (rule decl_of_name; simp add: declared_flags_def flags_telemetry_def)+

lemma decls_envoy:
  "decl_of ''envoy-admin-bind-address'' = StringFlag ''envoy-admin-bind-address'' ''DP_ENVOY_ADMIN_BIND_ADDRESS'' (\<lambda>v. df_Envoy_update (ef_AdminBindAddr_update (\<lambda>_. v)))"
  "decl_of ''envoy-admin-bind-port'' = IntFlag ''envoy-admin-bind-port'' ''DP_ENVOY_ADMIN_BIND_PORT'' (\<lambda>v. df_Envoy_update (ef_AdminBindPort_update (\<lambda>_. v)))"
  by (rule decl_of_name; simp add: declared_flags_def flags_envoy_def)+

lemma decls_servers:
  "decl_of ''ca-certs'' = StringFlag ''ca-certs'' ''DP_CA_CERTS'' (\<lambda>v. df_Consul_update (cf_TLS_update (tf_CACertsPath_update (\<lambda>_. v))))"
  "decl_of ''tls-server-name'' = StringFlag ''tls-server-name'' ''DP_TLS_SERVER_NAME'' (\<lambda>v. df_Consul_update (cf_TLS_update (tf_ServerName_update (\<lambda>_. v))))"
  "decl_of ''consul-dns-bind-port'' = IntFlag ''consul-dns-bind-port'' ''DP_CONSUL_DNS_BIND_PORT'' (\<lambda>v. df_DNSServer_update (nf_BindPort_update (\<lambda>_. v)))"
  by (rule decl_of_name; simp add: declared_flags_def flags_servers_def)+

lemma decls_lifecycle:
  "decl_of ''shutdown-grace-period-seconds'' = IntFlag ''shutdown-grace-period-seconds'' ''DP_SHUTDOWN_GRACE_PERIOD_SECONDS'' (\<lambda>v. df_Envoy_update (ef_ShutdownGracePeriodSeconds_update (\<lambda>_. v)))"
  "decl_of ''shutdown-drain-listeners'' = BoolFlag ''shutdown-drain-listeners'' ''DP_SHUTDOWN_DRAIN_LISTENERS'' (\<lambda>v. df_Envoy_update (ef_ShutdownDrainListenersEnabled_update (\<lambda>_. v)))"
  "decl_of ''dump-envoy-config-on-exit'' = BoolFlag ''dump-envoy-config-on-exit'' ''DP_DUMP_ENVOY_CONFIG_ON_EXIT'' (\<lambda>v. df_Envoy_update (ef_DumpEnvoyConfigOnExitEnabled_update (\<lambda>_. v)))"
  by (rule decl_of_name; simp add: declared_flags_def flags_lifecycle_def)+

lemmas decls = decls_consul decls_service decls_credentials decls_telemetry decls_envoy decls_servers decls_lifecycle

lemma ToArgs_settings:
  "ToArgs adminPort tc = flag_args (map (\<lambda>(two, f, d, v). (two, f, decl_name d, v)) (test_settings adminPort tc))"
  by (simp add: ToArgs_def test_settings_def flag_args_def setting_def switched_on_def decls dashes_def)

lemma test_settings_ok:
  "\<forall>(two, f, d, v) \<in> set (test_settings adminPort tc). d \<in> set declared_flags \<and> form_ok (decl_bool d) f v"
proof -
  have "list_all (\<lambda>(two, f, d, v). d \<in> set declared_flags \<and> form_ok (decl_bool d) f v) (test_settings adminPort tc)"
    unfolding test_settings_def list_all_append by (simp add: setting_def switched_on_def decls declared_defs)
  then show ?thesis by (simp add: list_all_iff)
qed

text \<open>The settings that the command line of a test leads to, with the DNS port \<open>p\<close> and the grace period \<open>g\<close> as numbers.\<close>

definition test_flags :: "int \<Rightarrow> int \<Rightarrow> DataplaneConfig \<Rightarrow> DataplaneConfigFlags" where
  "test_flags p g tc =
     empty_DataplaneConfigFlags
     \<lparr>df_Consul := empty_ConsulFlags
        \<lparr>cf_Addresses := Some (tc_Addresses tc),
         cf_TLS := empty_TLSFlags\<lparr>tf_CACertsPath := Some ''/data/ca-cert.pem'', tf_ServerName := Some ''server.dc1.consul''\<rparr>,
         cf_Credentials := empty_CredentialsFlags\<lparr>crf_Type := Some ''login'',
           crf_Login := empty_LoginCredentialsFlags\<lparr>lf_AuthMethod := Some (tc_LoginAuthMethod tc), lf_BearerToken := Some (tc_LoginBearerToken tc)\<rparr>\<rparr>\<rparr>,
      df_Service := empty_ServiceFlags\<lparr>svf_NodeName := Some (tc_ServiceNodeName tc), svf_ServiceID := Some (tc_ProxyServiceID tc)\<rparr>,
      df_Logging := empty_LogFlags\<lparr>gf_LogLevel := Some ''debug''\<rparr>,
      df_DNSServer := empty_DNSServerFlags\<lparr>nf_BindPort := Some p\<rparr>,
      df_Telemetry := empty_TelemetryFlags\<lparr>tmf_UseCentralConfig := Some True,
        tmf_Prometheus := empty_PrometheusTelemetryFlags\<lparr>pmf_ScrapePath := Some ''/metrics'', pmf_ServiceMetricsURL := Some (tc_ServiceMetricsURL tc)\<rparr>\<rparr>,
      df_Envoy := empty_EnvoyFlags
        \<lparr>ef_AdminBindAddr := Some ''0.0.0.0'', ef_AdminBindPort := Some 30000,
         ef_ShutdownGracePeriodSeconds := (if tc_ShutdownGracePeriodSeconds tc \<noteq> [] then Some g else None),
         ef_ShutdownDrainListenersEnabled := (if tc_ShutdownDrainListenersEnabled tc then Some True else None),
         ef_DumpEnvoyConfigOnExitEnabled := (if tc_DumpEnvoyConfigOnExitEnabled tc then Some True else None)\<rparr>\<rparr>"

lemma apply_declared_append:
  "apply_declared (xs @ ys) c = (case apply_declared xs c of Inl e \<Rightarrow> Inl e | Inr c' \<Rightarrow> apply_declared ys c')"
  by (induction xs c rule: apply_declared.induct) (auto split: sum.split)

lemma test_settings_applied:
  assumes "Atoi (tc_DNSBindPort tc) = Inr p" and "tc_ShutdownGracePeriodSeconds tc \<noteq> [] \<Longrightarrow> Atoi (tc_ShutdownGracePeriodSeconds tc) = Inr g"
  shows "apply_declared (map (\<lambda>(two, f, d, v). (d, v)) (test_settings ''30000'' tc)) empty_FlagOpts
    = Inr (empty_FlagOpts\<lparr>fo_dataplaneConfig := test_flags p g tc\<rparr>)"
proof -
  have "Atoi ''30000'' = Inr 30000" "ParseBool ''true'' = Inr True" by code_simp+
  with assms show ?thesis
    by (simp add: test_settings_def apply_declared_append setting_def switched_on_def decls lift_set_def test_flags_def empty_FlagOpts_def empty_flag_defs)
qed

lemma Parse_ToArgs:
  assumes "init rng (\<lambda>_. None) = Ok s" and "rng [] = []"
    and "Atoi (tc_DNSBindPort tc) = Inr p" and "tc_ShutdownGracePeriodSeconds tc \<noteq> [] \<Longrightarrow> Atoi (tc_ShutdownGracePeriodSeconds tc) = Inr g"
  shows "Parse (in_flags s) (ToArgs ''30000'' tc) (in_opts s) = Inr (empty_FlagOpts\<lparr>fo_dataplaneConfig := test_flags p g tc\<rparr>, [])"
proof -
  have "split_flag [] = NoMore []" by (simp add: split_flag_def)
  from Parse_declared [OF assms(1) test_settings_ok this, of "''30000''" tc] show ?thesis
    using test_settings_applied [OF assms(3,4)] init_unset [OF assms(1,2)] by (simp add: ToArgs_settings)
qed

section \<open>The dataplane of a test\<close>

text \<open>What a test asks for: a sidecar for the proxy service, logged in to the servers over TLS, with Envoy's admin interface open to the test,
  the DNS proxy on the loopback interface, central telemetry, and the shutdown as configured (no grace period by default).\<close>

definition as_configured :: "int \<Rightarrow> int \<Rightarrow> DataplaneConfig \<Rightarrow> Config \<Rightarrow> bool" where
  "as_configured p g tc c \<longleftrightarrow>
     (case (cfg_Consul c, cfg_Proxy c, cfg_Envoy c, cfg_DNSServer c, cfg_Telemetry c) of
        (Some k, Some pd, Some e, Some d, Some t) \<Rightarrow>
          cfg_Mode c = ModeTypeSidecar
          \<and> cc_Addresses k = tc_Addresses tc \<and> cc_GRPCPort k = 8502
          \<and> (case cc_TLS k of None \<Rightarrow> False
             | Some tls \<Rightarrow> \<not> tls_Disabled tls \<and> tls_CACertsPath tls = ''/data/ca-cert.pem'' \<and> tls_ServerName tls = ''server.dc1.consul'')
          \<and> (case cc_Credentials k of None \<Rightarrow> False
             | Some cr \<Rightarrow> cred_Type cr = CredentialsTypeLogin \<and> lc_AuthMethod (cred_Login cr) = tc_LoginAuthMethod tc
                 \<and> lc_BearerToken (cred_Login cr) = tc_LoginBearerToken tc)
          \<and> pd_NodeName pd = tc_ServiceNodeName tc \<and> pd_ProxyID pd = tc_ProxyServiceID tc
          \<and> en_AdminBindAddress e = ''0.0.0.0'' \<and> en_AdminBindPort e = 30000
          \<and> en_ShutdownGracePeriodSeconds e = (if tc_ShutdownGracePeriodSeconds tc = [] then 0 else g)
          \<and> en_ShutdownDrainListenersEnabled e = tc_ShutdownDrainListenersEnabled tc
          \<and> en_DumpEnvoyConfigOnExitEnabled e = tc_DumpEnvoyConfigOnExitEnabled tc
          \<and> dns_BindAddr d = ''127.0.0.1'' \<and> dns_Port d = p
          \<and> tel_UseCentralConfig t \<and> prom_ServiceMetricsURL (tel_Prometheus t) = tc_ServiceMetricsURL tc
      | _ \<Rightarrow> False)"

lemmas runtime_defs = constructRuntimeConfig_def runtime_consul_def runtime_proxy_def runtime_envoy_def runtime_telemetry_def
  stringVal_def intVal_def boolVal_def durationVal_def IsEmpty_def Let_def

lemma test_config_built:
  assumes "merges merge" and "tc_Addresses tc \<noteq> []" and "tc_ProxyServiceID tc \<noteq> []" and "tc_LoginBearerToken tc \<noteq> []"
  shows "\<exists>c. buildDataplaneConfig merge readFile oob (empty_FlagOpts\<lparr>fo_dataplaneConfig := test_flags p g tc\<rparr>) [] = Inr c
    \<and> as_configured p g tc c \<and> valid_config c"
proof -
  obtain c where c: "merge default_flags (test_flags p g tc) = Inr c"
    "\<forall>g' \<in> set string_settings. g' c = over (g' (test_flags p g tc)) (g' default_flags)"
    "\<forall>g' \<in> set int_settings. g' c = over (g' (test_flags p g tc)) (g' default_flags)"
    "\<forall>g' \<in> set bool_settings. g' c = over (g' (test_flags p g tc)) (g' default_flags)"
    "\<forall>g' \<in> set duration_settings. g' c = over (g' (test_flags p g tc)) (g' default_flags)"
    using assms(1) unfolding merges_def by blast
  note vals = c(2-5) [unfolded setting_lists bool_settings_def, simplified test_flags_def default_flags_def empty_flag_defs, simplified]
  let ?c = "constructRuntimeConfig c []"
  have "as_configured p g tc ?c"
    using vals by (simp add: as_configured_def runtime_defs ModeTypeSidecar_def CredentialsTypeLogin_def)
  moreover have "valid_config ?c"
  proof -
    have "IsLoopback (ParseIP ''127.0.0.1'')" by code_simp
    then show ?thesis
      using vals assms(2-4) by (simp add: valid_config_def sidecar_valid_def prometheus_valid_def local_address_def runtime_defs
          ModeTypeSidecar_def ModeTypeDNSProxy_def)
  qed
  moreover have "buildDataplaneConfig merge readFile oob (empty_FlagOpts\<lparr>fo_dataplaneConfig := test_flags p g tc\<rparr>) [] = Inr ?c"
    using c(1) by (simp add: buildDataplaneConfig_def mergeConfigs_def empty_FlagOpts_def)
  ultimately show ?thesis by blast
qed

text \<open>C40: The integration tests run the dataplane they configure. In a container with no environment variables, the command
  line that the helpers build is accepted by the command, whatever the texts in it, as long as the addresses, the proxy
  and the bearer token are given and the two numbers are numbers: every argument is taken as the value of its flag, the
  settings pass all checks, and the dataplane has the settings of the test.\<close>

theorem test_dataplane_as_configured:
  assumes "init rng (\<lambda>_. None) = Ok s" and "rng [] = []" and "merges (me_merge me)"
    and "tc_Addresses tc \<noteq> []" and "tc_ProxyServiceID tc \<noteq> []" and "tc_LoginBearerToken tc \<noteq> []"
    and "Atoi (tc_DNSBindPort tc) = Inr p" and "tc_ShutdownGracePeriodSeconds tc \<noteq> [] \<Longrightarrow> Atoi (tc_ShutdownGracePeriodSeconds tc) = Inr g"
  shows "\<exists>cdp. run me s (ToArgs ''30000'' tc) = Ok (RunDataplane cdp) \<and> as_configured p g tc (cdp_cfg cdp)"
proof -
  let ?o = "empty_FlagOpts\<lparr>fo_dataplaneConfig := test_flags p g tc\<rparr>"
  obtain c where c: "buildDataplaneConfig (me_merge me) (me_readFile me) (me_oob me) ?o [] = Inr c" "as_configured p g tc c" "valid_config c"
    using test_config_built [OF assms(3-6)] by blast
  obtain l where l: "cfg_Logging c = Some l" using c(3) by (auto simp: valid_config_def)
  obtain cdp where cdp: "NewConsulDP (me_levelOf me) c = Ok cdp" "cdp_cfg cdp = c"
    using c(3) l validate_iff [of c] by (simp add: NewConsulDP_def Let_def)
  have "readServiceIDFromFile (me_readFile me) ?o = Ok ?o" "readProxyIDFromFile (me_readFile me) ?o = Ok ?o"
    by (simp_all add: readServiceIDFromFile_def readProxyIDFromFile_def test_flags_def empty_flag_defs)
  moreover have "ToUpper ''debug'' = ''DEBUG''" by code_simp
  then have "validateFlags ?o = Ok ()" by (simp add: validateFlags_def test_flags_def empty_flag_defs empty_FlagOpts_def)
  ultimately have "run me s (ToArgs ''30000'' tc) = Ok (RunDataplane cdp)"
    using Parse_ToArgs [OF assms(1,2,7,8)] c(1) cdp(1) by (simp add: run_def empty_FlagOpts_def)
  with c(2) cdp(2) show ?thesis by blast
qed

definition sample_test :: DataplaneConfig where
  "sample_test = \<lparr>tc_Addresses = ''172.17.0.2'', tc_ServiceNodeName = ''synthetic-node'', tc_ProxyServiceID = ''frontend-sidecar'',
     tc_LoginAuthMethod = ''auth-method'', tc_LoginBearerToken = ''-token='', tc_DNSBindPort = ''8600'', tc_ServiceMetricsURL = ''http://localhost:8080'',
     tc_ShutdownGracePeriodSeconds = ''5'', tc_ShutdownDrainListenersEnabled = True, tc_DumpEnvoyConfigOnExitEnabled = False\<rparr>"

definition sample_main :: main_env where
  "sample_main = \<lparr>me_build = NonFIPSBuild, me_GitCommit = [], me_readFile = (\<lambda>_. Inl (Err ''no such file'')), me_oob = (\<lambda>_. 0),
     me_merge = (\<lambda>a b. Inr (override_DataplaneConfigFlags a b)), me_health = (\<lambda>_. Inr 200), me_levelOf = (\<lambda>_. 3)\<rparr>"

theorem test_dataplane_as_configured_witness:
  "\<exists>s cdp. init (\<lambda>xs. xs) (\<lambda>_. None) = Ok s \<and> run sample_main s (ToArgs ''30000'' sample_test) = Ok (RunDataplane cdp)
     \<and> as_configured 8600 5 sample_test (cdp_cfg cdp)"
proof -
  obtain s where s: "init (\<lambda>xs. xs) (\<lambda>_. None) = Ok s"
    using declare_flags_empty_env unfolding init_def by blast
  have m: "merges (me_merge sample_main)" by (simp add: sample_main_def override_merges)
  have n: "Atoi (tc_DNSBindPort sample_test) = Inr 8600" "Atoi (tc_ShutdownGracePeriodSeconds sample_test) = Inr 5"
    by (simp add: sample_test_def, code_simp)+
  have t: "tc_Addresses sample_test \<noteq> []" "tc_ProxyServiceID sample_test \<noteq> []" "tc_LoginBearerToken sample_test \<noteq> []"
    by (simp_all add: sample_test_def)
  from test_dataplane_as_configured [OF s refl m t n(1) n(2)] s show ?thesis by blast
qed

end
