(* ===== verification/Test_Clients.thy ===== *)
theory Test_Clients
  imports Test_Suite
begin

text \<open>
  How the integration tests talk to what they run (\<open>integration-tests/helpers\<close>: \<open>auth_method.go\<close>, the registrations of
  \<open>server.go\<close> and the requests of \<open>helpers.go\<close>). Consul, the JOSE, X.509 and DNS libraries and HTTP are arguments;
  requests to Consul are recorded in the order in which they are sent.
\<close>

section \<open>Requests to the Consul server\<close>

record ACLAuthMethod =
  aam_Name :: string
  aam_Type :: string
  aam_BoundIssuer :: string
  aam_BoundAudiences :: "string list"
  aam_JWTValidationPubKeys :: "string list"
  aam_ClaimMappings :: "(string \<times> string) list"

record ACLBindingRule =
  abr_AuthMethod :: string
  abr_BindType :: string
  abr_BindName :: string

record 'service CatalogRegistration =
  reg_Node :: string
  reg_Address :: string
  reg_SkipNodeUpdate :: bool
  reg_Service :: "'service option"

datatype ('service, 'entry) api_request =
    AuthMethodCreate ACLAuthMethod
  | BindingRuleCreate ACLBindingRule
  | CatalogRegister "'service CatalogRegistration"
  | ConfigEntrySet 'entry

type_synonym ('service, 'entry) api = "('service, 'entry) api_request \<Rightarrow> go_error option"

definition send :: "('service, 'entry) api \<Rightarrow> ('service, 'entry) api_request
    \<Rightarrow> ('service, 'entry) api_request list \<Rightarrow> unit option \<times> ('service, 'entry) api_request list" where
  "send answer req sent = NoError (answer req) (sent @ [req])"

definition SyntheticNodeName :: string where "SyntheticNodeName = ''synthetic-node''"

definition RegisterSyntheticNode :: "('service, 'entry) api \<Rightarrow> ('service, 'entry) api_request list \<Rightarrow> unit option \<times> ('service, 'entry) api_request list" where
  "RegisterSyntheticNode answer =
     send answer (CatalogRegister \<lparr>reg_Node = SyntheticNodeName, reg_Address = ''127.0.0.1'', reg_SkipNodeUpdate = False, reg_Service = None\<rparr>)"

definition SetConfigEntry :: "('service, 'entry) api \<Rightarrow> 'entry \<Rightarrow> ('service, 'entry) api_request list \<Rightarrow> unit option \<times> ('service, 'entry) api_request list" where
  "SetConfigEntry answer entry = send answer (ConfigEntrySet entry)"

definition RegisterService :: "('service, 'entry) api \<Rightarrow> 'service \<Rightarrow> ('service, 'entry) api_request list \<Rightarrow> unit option \<times> ('service, 'entry) api_request list" where
  "RegisterService answer service =
     send answer (CatalogRegister \<lparr>reg_Node = SyntheticNodeName, reg_Address = [], reg_SkipNodeUpdate = True, reg_Service = Some service\<rparr>)"

section \<open>The auth method\<close>

text \<open>A key is opaque. \<open>jo_Serialize\<close> signs claims with the signer of a key; times are seconds since the epoch.\<close>

record AuthMethod =
  am_Name :: string
  am_key :: nat

record Claims =
  cl_Subject :: string
  cl_IssuedAt :: int
  cl_Expiry :: int
  cl_Issuer :: string
  cl_Audience :: "string list"

record jose =
  jo_GenerateKey :: "nat result"
  jo_NewSigner :: "nat \<Rightarrow> nat result"
  jo_Serialize :: "nat \<Rightarrow> Claims \<Rightarrow> string result"
  jo_MarshalPKIXPublicKey :: "nat \<Rightarrow> string result"
  jo_EncodeToMemory :: "string \<Rightarrow> string \<Rightarrow> string"

definition NewAuthMethod :: "jose \<Rightarrow> AuthMethod option" where
  "NewAuthMethod jo = (case jo_GenerateKey jo of Inl e \<Rightarrow> None | Inr key \<Rightarrow> Some \<lparr>am_Name = ''auth-method'', am_key = key\<rparr>)"

definition jwtIssuer :: string where "jwtIssuer = ''issuer''"
definition jwtAudience :: "string list" where "jwtAudience = [''audience'']"

text \<open>The two calls of \<open>time.Now\<close> give \<open>now1\<close> and \<open>now2\<close>, in nanoseconds.\<close>

definition token_claims :: "string \<Rightarrow> int \<Rightarrow> int \<Rightarrow> Claims" where
  "token_claims service now1 now2 =
     \<lparr>cl_Subject = service, cl_IssuedAt = (now1 - 3600 * 10 ^ 9) div 10 ^ 9, cl_Expiry = (now2 + 3600 * 10 ^ 9) div 10 ^ 9,
      cl_Issuer = jwtIssuer, cl_Audience = jwtAudience\<rparr>"

definition GenerateToken :: "jose \<Rightarrow> AuthMethod \<Rightarrow> int \<Rightarrow> int \<Rightarrow> string \<Rightarrow> string option" where
  "GenerateToken jo am now1 now2 service =
     (case jo_NewSigner jo (am_key am) of
        Inl e \<Rightarrow> None
      | Inr signer \<Rightarrow> (case jo_Serialize jo signer (token_claims service now1 now2) of Inl e \<Rightarrow> None | Inr token \<Rightarrow> Some token))"

definition publicKeyPEM :: "jose \<Rightarrow> AuthMethod \<Rightarrow> string option" where
  "publicKeyPEM jo am =
     (case jo_MarshalPKIXPublicKey jo (am_key am) of Inl e \<Rightarrow> None | Inr der \<Rightarrow> Some (jo_EncodeToMemory jo ''PUBLIC KEY'' der))"

definition method_for :: "AuthMethod \<Rightarrow> string \<Rightarrow> ACLAuthMethod" where
  "method_for am pem = \<lparr>aam_Name = am_Name am, aam_Type = ''jwt'', aam_BoundIssuer = jwtIssuer, aam_BoundAudiences = jwtAudience,
     aam_JWTValidationPubKeys = [pem], aam_ClaimMappings = [(''sub'', ''service'')]\<rparr>"

definition rule_for :: "AuthMethod \<Rightarrow> ACLBindingRule" where
  "rule_for am = \<lparr>abr_AuthMethod = am_Name am, abr_BindType = ''service'', abr_BindName = ''${value.service}''\<rparr>"

definition Register :: "jose \<Rightarrow> ('service, 'entry) api \<Rightarrow> AuthMethod \<Rightarrow> ('service, 'entry) api_request list
    \<Rightarrow> unit option \<times> ('service, 'entry) api_request list" where
  "Register jo answer am =
     tbind (\<lambda>sent. (publicKeyPEM jo am, sent)) (\<lambda>pem.
     tbind (send answer (AuthMethodCreate (method_for am pem))) (\<lambda>_.
       send answer (BindingRuleCreate (rule_for am))))"

section \<open>Requests to what runs\<close>

text \<open>The answer to a request: an error, or the status and the body, or the error of reading it.\<close>

type_synonym http_get = "string \<Rightarrow> (int \<times> string result) result"

definition canAccess :: "http_get \<Rightarrow> string \<Rightarrow> int \<Rightarrow> bool \<times> go_error option" where
  "canAccess fetch ip port =
     (case fetch (''http://'' @ JoinHostPort ip (Itoa port) @ ''/'') of
        Inl e \<Rightarrow> (False, Some e)
      | Inr (code, body) \<Rightarrow>
          if code = 200 then (True, None)
          else (False, Some (Err (''unexpected response status: '' @ Itoa code @ '' - body: '' @ (case body of Inl e \<Rightarrow> [] | Inr b \<Rightarrow> b)))))"

text \<open>A test that is given up has no result; an answer that is no address record panics.\<close>

definition GetMetrics :: "http_get \<Rightarrow> string \<Rightarrow> int \<Rightarrow> string option" where
  "GetMetrics fetch ip port =
     (case fetch (''http://'' @ JoinHostPort ip (Itoa port) @ ''/metrics'') of
        Inr (code, Inr body) \<Rightarrow> if code \<noteq> 200 then None else Some body
      | _ \<Rightarrow> None)"

definition GetEnvoyClusters :: "http_get \<Rightarrow> string \<Rightarrow> int \<Rightarrow> unit option" where
  "GetEnvoyClusters fetch ip port =
     (case fetch (''http://'' @ JoinHostPort ip (Itoa port) @ ''/clusters'') of Inl e \<Rightarrow> None | Inr _ \<Rightarrow> Some ())"

datatype dns_record = ARecord string | OtherRecord

fun a_records :: "dns_record list \<Rightarrow> string list outcome" where
  "a_records [] = Ok []"
| "a_records (ARecord ip # rrs) = bind_outcome (a_records rrs) (\<lambda>ips. Ok (ip # ips))"
| "a_records (OtherRecord # rrs) = Panic ''interface conversion''"

definition DNSLookup :: "(string \<Rightarrow> string \<Rightarrow> string \<Rightarrow> dns_record list result) \<Rightarrow> string \<Rightarrow> string \<Rightarrow> int \<Rightarrow> string \<Rightarrow> world \<Rightarrow> string list outcome \<times> world" where
  "DNSLookup exchange protocol serverIP serverPort host w =
     (bind_outcome (of_result (exchange protocol host (JoinHostPort serverIP (Itoa serverPort)))) a_records, snd (Context w))"

text \<open>
  The reader of a container's logs, or nil, with the error of opening it. The deferred \<open>rc.Close\<close> comes before the
  error is looked at.
\<close>

definition ContainerLogs :: "string result option \<times> go_error option \<Rightarrow> string outcome" where
  "ContainerLogs logs = (case logs of
        (None, err) \<Rightarrow> Panic ''nil pointer dereference''
      | (Some contents, Some e) \<Rightarrow> Error e
      | (Some contents, None) \<Rightarrow> of_result contents)"

text \<open>
  \<open>require.Eventually\<close> is the argument \<open>poll\<close>: whether the condition, which is given the number of the attempt,
  became true within the duration, tried at every tick (both in nanoseconds).
\<close>

type_synonym poller = "(nat \<Rightarrow> bool) \<Rightarrow> int \<Rightarrow> int \<Rightarrow> bool"

definition ExpectHTTPAccess :: "poller \<Rightarrow> (nat \<Rightarrow> http_get) \<Rightarrow> string \<Rightarrow> int \<Rightarrow> unit option" where
  "ExpectHTTPAccess poll fetch ip port =
     (if poll (\<lambda>k. fst (canAccess (fetch k) ip port)) (60 * 10 ^ 9) (10 ^ 9) then Some () else None)"

definition ExpectNoHTTPAccess :: "poller \<Rightarrow> (nat \<Rightarrow> http_get) \<Rightarrow> string \<Rightarrow> int \<Rightarrow> unit option" where
  "ExpectNoHTTPAccess poll fetch ip port =
     (if poll (\<lambda>k. \<not> fst (canAccess (fetch k) ip port)) (60 * 10 ^ 9) (10 ^ 9) then Some () else None)"

section \<open>Lemmas\<close>

lemma token_times:
  "cl_IssuedAt (token_claims service now1 now2) * 10 ^ 9 \<le> now1" "now2 < cl_Expiry (token_claims service now1 now2) * 10 ^ 9"
proof -
  have d: "x div 1000000000 * 1000000000 = x - x mod 1000000000" for x :: int by (simp add: minus_mod_eq_div_mult)
  have m: "0 \<le> x mod 1000000000" "x mod 1000000000 < 1000000000" for x :: int by simp_all
  show "cl_IssuedAt (token_claims service now1 now2) * 10 ^ 9 \<le> now1"
    using m(1) [of "now1 - 3600000000000"] by (simp add: token_claims_def d)
  show "now2 < cl_Expiry (token_claims service now1 now2) * 10 ^ 9"
    using m(2) [of "now2 + 3600000000000"] by (simp add: token_claims_def d)
qed

lemma Register_sends:
  assumes "Register jo answer am sent = (Some (), sent')"
  shows "\<exists>pem. sent' = sent @ [AuthMethodCreate (method_for am pem), BindingRuleCreate (rule_for am)]"
  using assms by (auto simp: Register_def tbind_def send_def NoError_def split: option.splits prod.splits)

text \<open>
  A token that the helpers generate fits the auth method they register: its issuer and audience are the bound ones, the subject is what the
  claim mapping turns into the service, and it is valid at the time of its creation.
\<close>

lemma token_fits_method:
  assumes "GenerateToken jo am now1 now2 service = Some token" and "Register jo answer am sent = (Some (), sent')" and "now1 \<le> now2"
  shows "\<exists>signer c a r. jo_Serialize jo signer c = Inr token \<and> sent' = sent @ [AuthMethodCreate a, BindingRuleCreate r]
    \<and> cl_Issuer c = aam_BoundIssuer a \<and> set (cl_Audience c) \<subseteq> set (aam_BoundAudiences a) \<and> map_of (aam_ClaimMappings a) ''sub'' = Some ''service''
    \<and> cl_Subject c = service \<and> cl_IssuedAt c * 10 ^ 9 \<le> now1 \<and> now2 < cl_Expiry c * 10 ^ 9 \<and> abr_AuthMethod r = aam_Name a"
proof -
  obtain signer where "jo_Serialize jo signer (token_claims service now1 now2) = Inr token"
    using assms(1) by (auto simp: GenerateToken_def split: sum.splits)
  moreover have "cl_IssuedAt (token_claims service now1 now2) * 10 ^ 9 \<le> now1" "now2 < cl_Expiry (token_claims service now1 now2) * 10 ^ 9"
    by (rule token_times)+
  moreover from Register_sends [OF assms(2)] obtain pem where "sent' = sent @ [AuthMethodCreate (method_for am pem), BindingRuleCreate (rule_for am)]" ..
  ultimately show ?thesis
    by (intro exI [of _ signer] exI [of _ "token_claims service now1 now2"] exI [of _ "method_for am pem"] exI [of _ "rule_for am"])
      (simp add: token_claims_def method_for_def rule_for_def)
qed

text \<open>What an expectation that holds says of the requests made, for a poller that is true only if the condition was true at some attempt.\<close>

lemma expected_access:
  assumes "\<forall>c d t. poll c d t \<longrightarrow> (\<exists>k. c k)" and "ExpectHTTPAccess poll fetch ip port = Some ()"
  shows "\<exists>k body. fetch k (''http://'' @ JoinHostPort ip (Itoa port) @ ''/'') = Inr (200, body)"
proof -
  have "poll (\<lambda>k. fst (canAccess (fetch k) ip port)) (60 * 10 ^ 9) (10 ^ 9)"
    using assms(2) by (simp add: ExpectHTTPAccess_def split: if_splits)
  with assms(1) obtain k where "fst (canAccess (fetch k) ip port)" by blast
  then show ?thesis by (intro exI [of _ k]) (auto simp: canAccess_def split: sum.splits if_splits)
qed

text \<open>A lookup panics exactly if an answer holds something else than an address, and otherwise gives the addresses in order.\<close>

lemma a_records_cases:
  "a_records rrs = (if OtherRecord \<in> set rrs then Panic ''interface conversion'' else Ok (map (case_dns_record (\<lambda>ip. ip) []) rrs))"
  by (induction rrs rule: a_records.induct) auto

text \<open>The logs of a container that cannot be read make the test panic instead of failing on the error.\<close>

lemma unread_logs_panic: "ContainerLogs (None, Some e) = Panic ''nil pointer dereference''"
  by (simp add: ContainerLogs_def)

end
