(* ===== verification/Spec2Isabelle.thy ===== *)
theory Spec2Isabelle
  imports Startup_Signals Test_Dataplane Test_Clients
begin

text \<open>
  A verification development of consul-dataplane, the process that runs an Envoy proxy beside a
  service, configures it from Consul and proxies its xDS traffic and DNS queries.

  \<^bold>\<open>The program.\<close> The command (\<open>cmd/consul-dataplane\<close>) turns flags, environment variables and a
  configuration file into a \<open>Config\<close>; \<open>pkg/consuldp\<close> validates it, connects to a Consul server,
  opens the xDS listener, fetches the bootstrap parameters, starts the DNS proxy
  (\<open>pkg/dns\<close>), generates Envoy's bootstrap (\<open>internal/bootstrap\<close>), starts Envoy (\<open>pkg/envoy\<close>), the
  metrics (behind the cache of \<open>pkg/metrics-cache\<close>) and the lifecycle manager, and then waits
  for the first of these to end.

  \<^bold>\<open>The theories\<close>, from the bottom up:

  \<^item> \<open>Prelude\<close>: errors and outcomes (a value, an error, a panic, a fatal exit), step relations
    with reachability and the locales \<open>invariant_system\<close>, \<open>simulation\<close> and \<open>monotone_system\<close>, strings and numbers of Go.
  \<^item> \<open>Go_Net\<close>: what is used of Go's \<open>net\<close>: joining and splitting host and port (the locale
    \<open>host_port_codec\<close>), IP addresses and loopback.
  \<^item> \<open>Go_Path\<close>, \<open>Go_Hash\<close>: what is used of \<open>path/filepath\<close> (cleaning and joining) and of \<open>crypto/sha1\<close> and
    \<open>encoding/base64\<close>, from which the generator builds the path of a telemetry collector's socket.
  \<^item> \<open>Metrics_Cache\<close>: \<open>metricscache.go\<close>; every operation of the \<open>Sink\<close>, and the interleaving of emitters
    with the installation of the real sink. Exactly-once delivery in sequence, delivery of
    all emissions that took the lock in every interleaving, and an interleaving that loses one.
  \<^item> \<open>Envoy_Proxy\<close>: \<open>proxy.go\<close>; construction, command line, life cycle as operations and as a
    step relation with its invariant, shown to refine the life of a process; the locale \<open>proxy_manager\<close> is what
    the lifecycle manager uses.
  \<^item> \<open>Dataplane_Config\<close>: \<open>config.go\<close> and \<open>validateConfig\<close>, nil dereferences included, with a declarative
    specification it is shown equivalent to; TLS and credentials loading.
  \<^item> \<open>Lifecycle\<close>: \<open>lifecycle.go\<close>; graceful shutdown and startup with explicit time, durations as 64-bit
    nanoseconds, concurrent shutdown requests as a step relation, and the HTTP endpoints.
  \<^item> \<open>Dns_Server\<close>: \<open>dns.go\<close>; starting and stopping, the UDP loop, the TCP framing and the ownership of
    the sockets in every reachable state.
  \<^item> \<open>Json_Text\<close>, \<open>Json_Parser\<close>: JSON texts and the values they denote, builders for them, and a
    parser that accepts exactly them, so that a text denotes one value.
  \<^item> \<open>Json_Decode\<close>: decoding values into Go structures as \<open>encoding/json\<close> does, which values decode, and
    a printer that the parser inverts.
  \<^item> \<open>Flags_Env\<close>: the flag types (the locale \<open>flag_type\<close>), durations as text, the environment, command lines.
  \<^item> \<open>Cli_Flags\<close>, \<open>Config_File\<close>: the structures of all settings, their JSON tags, the configuration file and
    the text of the defaults; which texts are accepted, and that settings survive being written and read.
  \<^item> \<open>Cli_Config\<close>: all flags, the three-layer merge and the runtime configuration of the command.
  \<^item> \<open>Xds_Server\<close>: \<open>xds.go\<close>; what is proxied to Consul and with which token, the listener, the
    connection gauge.
  \<^item> \<open>Bootstrap_Config\<close>, \<open>Bootstrap_Json\<close>: \<open>bootstrap_config.go\<close> and \<open>bootstrap_tpl.go\<close>; the generator, and what the
    JSON it generates holds. The locale \<open>cluster_decoder\<close> is what it relies on of the JSON decoder,
    interpreted on the parser.
  \<^item> \<open>Telemetry\<close>: \<open>metrics.go\<close>; the sinks behind the cache, merging of metrics, the metrics servers.
  \<^item> \<open>Bootstrap_Params\<close>: \<open>bootstrap.go\<close>; from the bootstrap parameters to the generator's arguments. Composed
    with the xDS server and the generator: the bootstrap leads Envoy back to the dataplane.
  \<^item> \<open>Dataplane_Run\<close>: \<open>consul_dataplane.go\<close>; the start-up as a composition of the operations above, its
    order and results, the end of a run, and that configurations from the command line
    never dereference nil.
  \<^item> \<open>Main_Process\<close>: \<open>run\<close> and \<open>main\<close> of \<open>main.go\<close>, with the exit status, and the version.
  \<^item> \<open>Process_Signals\<close>: the started process as one step relation, in which the signal goroutine, the final
    \<open>select\<close>, the shutdown goroutines and Envoy interleave; a signal can end it.
  \<^item> \<open>Startup_Signals\<close>: the process from its very beginning, the stages of the start-up one at a time with
    signals between them, equivalent to the start-up as a whole when there are none. The whole process
    outlives Envoy, refines the life of one Envoy, and has a window in which a signal leaves Envoy behind.
  \<^item> \<open>Test_Suite\<close>: the integration test suite (\<open>suite.go\<close>, \<open>pod.go\<close>, \<open>service.go\<close>, \<open>tls.go\<close>, \<open>dataplane.go\<close>, \<open>RunServer\<close> of
    \<open>server.go\<close> under \<open>integration-tests/helpers\<close>): the containers and the volume a test creates, its clean-ups,
    and that a test leaves nothing behind.
  \<^item> \<open>Test_Dataplane\<close>: the arguments the tests start a dataplane with, composed with the command-line
    configuration: the dataplane that runs is configured as the test asked.
  \<^item> \<open>Test_Clients\<close>: the requests of the tests to Consul and to what runs (\<open>auth_method.go\<close>, \<open>helpers.go\<close>, the
    registrations of \<open>server.go\<close>); a token that is generated fits the auth method that is registered.
  \<^item> This theory: properties that span components.

  \<^bold>\<open>Modelling.\<close> Structs are records (a field carries a prefix of its struct where names clash),
  pointers are options, errors are values; an operation that may panic yields an outcome.
  Goroutines that share state are step relations over their atomic actions. The answers of
  the operating system, of Envoy, of Consul and of libraries are arguments of the
  definitions, and what is relied on of them is a named hypothesis with an instance for which it
  holds. Log output is left out. JSON written by the program is modelled without the
  insignificant whitespace of its source text, which indenting normalises.

  \<^bold>\<open>Bounds and termination.\<close> All functions are total. Loops over a stream of inputs recurse on the
  inputs, polling loops on the remaining time, the expansion of variables on the length of
  the text. The JSON parser takes a bound on its nesting; twice the length of the text is
  shown to be enough. A start-up has at most nine stages. Durations wrap at 64 bits, lengths of DNS messages at 16.

  \<^bold>\<open>Not modelled.\<close> The gRPC server and client, the discovery library, HTTP and TLS as such, Docker; time-outs of
  requests; the limit of the JSON decoder on the depth of a text; execution of a user's own
  bootstrap template; usage texts, and the printed form of a flag that holds a map. The memory model of
  Go: a goroutine sees a field as soon as it is assigned. Generated mocks, the process attributes on
  Windows and build files.
\<close>

section \<open>Composition\<close>

definition merging_sidecar :: "int \<Rightarrow> Config" where
  "merging_sidecar mergePort = sample_sidecar\<lparr>cfg_Telemetry := Some \<lparr>tel_UseCentralConfig = True,
     tel_Prometheus = (tel_Prometheus sample_telemetry)\<lparr>prom_MergePort := mergePort\<rparr>\<rparr>\<rparr>"

text \<open>C33: Envoy and the metrics server agree on the port of the merged metrics, the one in the
  bootstrap's backend cluster and the one the server binds, exactly if a merge port is
  configured: for the port 0 the server falls back to its default and the bootstrap does not.\<close>

theorem merged_metrics_port_agrees:
  assumes "NewMetricsConfig c (Some cache) = Ok m" and "cfg_Telemetry c = Some t" and "tel_UseCentralConfig t"
    and "bootstrap_inputs isDir weakDecode c srv params = Ok (bc, args)" and "bc_PrometheusBindAddr bc \<noteq> []"
    and "startMetrics lib sl bc m = Ok m'"
  shows "mc_promScrapeServer m' = Some (''[::]:'' @ ta_PrometheusBackendPort args) \<longleftrightarrow> prom_MergePort (tel_Prometheus t) \<noteq> 0"
proof -
  have m: "mc_cfg m = Some t" "\<not> mc_running m" using assms(1,2) by (auto simp: NewMetricsConfig_def go_simps)
  have "mc_promScrapeServer m' = Some (''[::]:'' @ merged_port (tel_Prometheus t))"
    using startMetrics_state [OF assms(6) m(2,1) assms(3)] assms(5) by (simp add: mergedMetricsBackendBindHost_def)
  moreover have "ta_PrometheusBackendPort args = Itoa (prom_MergePort (tel_Prometheus t))"
    using bootstrap_inputs_args [OF assms(4)] assms(2,3) by auto
  ultimately show ?thesis
    using Itoa_not_default by (auto simp: merged_port_def)
qed

theorem merged_metrics_port_agrees_witness:
  "\<exists>m m' bc args. NewMetricsConfig (merging_sidecar 20100) (Some NewSink) = Ok m
     \<and> bootstrap_inputs (\<lambda>_. Inr False) (\<lambda>_ b. Inr (b\<lparr>bc_PrometheusBindAddr := ''0.0.0.0:20200''\<rparr>)) (merging_sidecar 20100) sample_xds sample_params = Ok (bc, args)
     \<and> startMetrics sample_lib sample_sink_lib bc m = Ok m' \<and> mc_promScrapeServer m' = Some (''[::]:'' @ ta_PrometheusBackendPort args)"
proof -
  let ?c = "merging_sidecar 20100" and ?t = "\<lparr>tel_UseCentralConfig = True, tel_Prometheus = (tel_Prometheus sample_telemetry)\<lparr>prom_MergePort := 20100\<rparr>\<rparr>"
  let ?d = "\<lambda>_ b. Inr (b\<lparr>bc_PrometheusBindAddr := ''0.0.0.0:20200''\<rparr>)"
  let ?bc = "(initial_config sample_envoy)\<lparr>bc_PrometheusBindAddr := ''0.0.0.0:20200''\<rparr>"
  obtain m where m: "NewMetricsConfig ?c (Some NewSink) = Ok m" "mc_cfg m = Some ?t"
    by (simp add: NewMetricsConfig_def merging_sidecar_def sample_sidecar_def sample_dataplane_def)
  obtain args where a: "bootstrap_inputs (\<lambda>_. Inr False) ?d ?c sample_xds sample_params = Ok (?bc, args)"
    by (simp add: bootstrap_inputs_def merging_sidecar_def sample_sidecar_def sample_dataplane_def ca_args_def central_config_def sample_telemetry_def)
  have "\<exists>u. l_Parse sample_lib (envoy_stats_url m) = Inr u" by (simp add: sample_lib_def)
  then obtain u where u: "l_Parse sample_lib (envoy_stats_url m) = Inr u" by blast
  have "\<exists>m'. startMetrics sample_lib sample_sink_lib ?bc m = Ok m'"
    by (rule startMetrics_succeeds [OF m(2) _ _ _ _ u]) (simp_all add: sample_sink_lib_def initial_config_def)
  then obtain m' where s: "startMetrics sample_lib sample_sink_lib ?bc m = Ok m'" by blast
  have "cfg_Telemetry ?c = Some ?t" "tel_UseCentralConfig ?t" "bc_PrometheusBindAddr ?bc \<noteq> []" by (simp_all add: merging_sidecar_def)
  from merged_metrics_port_agrees [OF m(1) this(1,2) a this(3) s] m(1) a s show ?thesis by auto
qed

end
